(* ===== verification/VC_Prelude.thy ===== *)
theory VC_Prelude
  imports Main "HOL-Library.Word" "HOL-Library.Signed_Division"
begin

text \<open>
  Shared vocabulary of the development: the machine types of the C sources, the outcome of a
  C call (it returns, it calls exit, it dereferences a wild or null pointer, or it never
  returns), byte buffers with in-place writes, and the byte orders the protocol uses.
  The lemma collections \<open>buf_simps\<close> (reads and writes of byte buffers), \<open>frame_simps\<close>
  (which fields an operation leaves alone) and \<open>vc_defs\<close> (small definitions to be unfolded
  together) are filled by the component theories.
\<close>

named_theorems buf_simps
named_theorems frame_simps
named_theorems vc_defs

type_synonym byte = "8 word"
type_synonym u16 = "16 word"
type_synonym u32 = "32 word"
type_synonym u64 = "64 word"

subsection \<open>Outcomes of C calls\<close>

text \<open>
  \<open>Ok\<close> is a normal return; \<open>Exit\<close> is a call of \<^verbatim>\<open>exit(0)\<close>; \<open>Crash\<close> is a call through a null
  function pointer or a read of an uninitialised or out-of-range array slot; \<open>Hang\<close> is a call
  that does not return.
\<close>

datatype 'a out = Ok 'a | Exit | Crash | Hang

primrec out_bind :: "'a out \<Rightarrow> ('a \<Rightarrow> 'b out) \<Rightarrow> 'b out" where
  "out_bind (Ok x) f = f x"
| "out_bind Exit f = Exit"
| "out_bind Crash f = Crash"
| "out_bind Hang f = Hang"

primrec of_opt :: "'a option \<Rightarrow> 'a out" where
  "of_opt None = Hang"
| "of_opt (Some x) = Ok x"

text \<open>
  \<open>out_ok h P r\<close>: the call neither exits nor crashes, it fails to return only if \<open>h\<close> allows
  it, and a returned value satisfies \<open>P\<close>.
\<close>

primrec out_ok :: "bool \<Rightarrow> ('a \<Rightarrow> bool) \<Rightarrow> 'a out \<Rightarrow> bool" where
  "out_ok h P (Ok x) = P x"
| "out_ok h P Exit = False"
| "out_ok h P Crash = False"
| "out_ok h P Hang = h"

lemma out_ok_bind [intro]:
  assumes "out_ok h P r" and "\<And>x. P x \<Longrightarrow> out_ok h Q (f x)"
  shows "out_ok h Q (out_bind r f)"
  using assms by (cases r) auto

lemma out_ok_mono: "out_ok h P r \<Longrightarrow> (\<And>x. P x \<Longrightarrow> Q x) \<Longrightarrow> out_ok h Q r"
  by (cases r) auto

lemma out_ok_total: "out_ok False P r \<longleftrightarrow> (\<exists>x. r = Ok x \<and> P x)"
  by (cases r) auto

lemma out_bind_Ok_iff: "out_bind r f = Ok y \<longleftrightarrow> (\<exists>x. r = Ok x \<and> f x = Ok y)"
  by (cases r) auto

lemma out_bind_assoc: "out_bind (out_bind r f) g = out_bind r (\<lambda>x. out_bind (f x) g)"
  by (cases r) auto

subsection \<open>C integers\<close>

text \<open>
  A C \<^verbatim>\<open>int\<close> is an \<open>int\<close> in the range of 32-bit two's complement; \<open>c_int\<close> wraps an exact
  result into that range and \<open>c_uint\<close> converts to \<^verbatim>\<open>unsigned int\<close>. The C remainder
  truncates towards zero: it is \<open>smod\<close> of \<open>HOL-Library.Signed_Division\<close>.
\<close>

definition c_int :: "int \<Rightarrow> int" where
  "c_int x = signed_take_bit 31 x"

definition c_uint :: "int \<Rightarrow> u32" where
  "c_uint x = word_of_int x"

definition c_of_u32 :: "u32 \<Rightarrow> int" where
  "c_of_u32 x = sint x"

definition is_c_int :: "int \<Rightarrow> bool" where
  "is_c_int x \<longleftrightarrow> - (2 ^ 31) \<le> x \<and> x < 2 ^ 31"

lemma c_int_id [simp]: "is_c_int x \<Longrightarrow> c_int x = x"
  by (simp add: c_int_def is_c_int_def signed_take_bit_int_eq_self)

lemma c_int_range: "is_c_int (c_int x)"
  unfolding c_int_def is_c_int_def
  using signed_take_bit_int_greater_eq_minus_exp [of 31 x] signed_take_bit_int_less_exp [of 31 x]
  by simp

lemma c_int_small: "0 \<le> x \<Longrightarrow> x < 2147483648 \<Longrightarrow> c_int x = x"
  by (rule c_int_id) (simp add: is_c_int_def)

lemma c_of_u32_c_uint [simp]: "is_c_int x \<Longrightarrow> c_of_u32 (c_uint x) = x"
  by (simp add: c_of_u32_def c_uint_def is_c_int_def sint_word_ariths signed_take_bit_int_eq_self
      sint_sbintrunc')

lemma is_c_int_c_of_u32: "is_c_int (c_of_u32 x)"
  using sint_range_size [of x] by (auto simp: c_of_u32_def is_c_int_def word_size)

lemma smod_nonneg: "0 \<le> a \<Longrightarrow> 0 < b \<Longrightarrow> a smod b = a mod (b :: int)"
  by (simp add: signed_modulo_int_def signed_divide_int_def sgn_if minus_div_mult_eq_mod
      mult.commute)

subsection \<open>Byte buffers\<close>

text \<open>
  \<open>get_bytes off n buf\<close> reads \<open>n\<close> bytes at an offset; \<open>put_bytes off bs buf\<close> is
  \<^verbatim>\<open>memcpy(&buf[off], bs, ...)\<close>. The write is meaningful inside the buffer only: the bounds
  properties of the components state \<open>off + length bs \<le> length buf\<close>.
\<close>

definition get_bytes :: "nat \<Rightarrow> nat \<Rightarrow> 'a list \<Rightarrow> 'a list" where
  "get_bytes off n buf = take n (drop off buf)"

definition put_bytes :: "nat \<Rightarrow> 'a list \<Rightarrow> 'a list \<Rightarrow> 'a list" where
  "put_bytes off bs buf = take off buf @ bs @ drop (off + length bs) buf"

lemma length_put_bytes [simp, buf_simps]:
  "off + length bs \<le> length buf \<Longrightarrow> length (put_bytes off bs buf) = length buf"
  by (simp add: put_bytes_def)

lemma length_get_bytes [simp, buf_simps]:
  "off + n \<le> length buf \<Longrightarrow> length (get_bytes off n buf) = n"
  by (simp add: get_bytes_def)

lemma get_put_same [simp, buf_simps]:
  "off + length bs \<le> length buf \<Longrightarrow> n = length bs \<Longrightarrow> get_bytes off n (put_bytes off bs buf) = bs"
  by (simp add: get_bytes_def put_bytes_def)

lemma nth_put_bytes [buf_simps]:
  assumes "off + length bs \<le> length buf" and "i < length buf"
  shows "put_bytes off bs buf ! i =
    (if off \<le> i \<and> i < off + length bs then bs ! (i - off) else buf ! i)"
  using assms by (auto simp: put_bytes_def nth_append)

lemma get_bytes_nth_eq:
  assumes "off + n \<le> length xs" and "length xs = length ys"
    and "\<And>i. off \<le> i \<Longrightarrow> i < off + n \<Longrightarrow> xs ! i = ys ! i"
  shows "get_bytes off n xs = get_bytes off n ys"
  using assms by (intro nth_equalityI) (auto simp: get_bytes_def)

lemma get_put_other [simp, buf_simps]:
  assumes "off + length bs \<le> length buf" and "o' + n \<le> length buf"
    and "o' + n \<le> off \<or> off + length bs \<le> o'"
  shows "get_bytes o' n (put_bytes off bs buf) = get_bytes o' n buf"
  using assms by (intro get_bytes_nth_eq) (auto simp: nth_put_bytes)

lemma put_bytes_Nil [simp]: "put_bytes off [] buf = buf"
  by (simp add: put_bytes_def)

lemma get_bytes_append_split:
  "get_bytes off (m + n) buf = get_bytes off m buf @ get_bytes (off + m) n buf"
  by (simp add: get_bytes_def take_add add.commute)

lemma put_bytes_0_append [simp]: "put_bytes 0 bs (cs @ ds) = bs @ ds" if "length bs = length cs"
  using that by (simp add: put_bytes_def)

subsection \<open>Byte order\<close>

text \<open>
  The bytes of a field after \<^verbatim>\<open>field = htonl(v)\<close> or \<^verbatim>\<open>htons(v)\<close> are the big-endian
  bytes of \<open>v\<close> on every host, and after \<^verbatim>\<open>field = htole32(v)\<close> the little-endian ones, so
  the model has no host byte order.
\<close>

definition be16 :: "u16 \<Rightarrow> byte list" where
  "be16 v = [ucast (drop_bit 8 v), ucast v]"

definition be32 :: "u32 \<Rightarrow> byte list" where
  "be32 v = [ucast (drop_bit 24 v), ucast (drop_bit 16 v), ucast (drop_bit 8 v), ucast v]"

definition le32 :: "u32 \<Rightarrow> byte list" where
  "le32 v = rev (be32 v)"

unbundle bit_operations_syntax

definition of_be16 :: "byte list \<Rightarrow> u16" where
  "of_be16 bs = push_bit 8 (ucast (bs ! 0)) OR ucast (bs ! 1)"

definition of_be32 :: "byte list \<Rightarrow> u32" where
  "of_be32 bs = push_bit 24 (ucast (bs ! 0)) OR push_bit 16 (ucast (bs ! 1)) OR
     push_bit 8 (ucast (bs ! 2)) OR ucast (bs ! 3)"

definition of_le32 :: "byte list \<Rightarrow> u32" where
  "of_le32 bs = of_be32 (rev bs)"

lemma length_be [simp]: "length (be16 h) = 2" "length (be32 v) = 4" "length (le32 v) = 4"
  by (simp_all add: be16_def be32_def le32_def)

lemma of_be16_be16 [simp]: "of_be16 (be16 v) = v"
  unfolding of_be16_def be16_def
  by (rule bit_word_eqI) (auto simp: bit_simps)

lemma of_be32_be32 [simp]: "of_be32 (be32 v) = v"
proof (rule bit_word_eqI)
  fix n :: nat
  assume "n < LENGTH(32)"
  then consider "n < 8" | "8 \<le> n" "n < 16" | "16 \<le> n" "n < 24" | "24 \<le> n" "n < 32"
    by fastforce
  then show "bit (of_be32 (be32 v)) n = bit v n"
    by cases (auto simp: of_be32_def be32_def bit_simps)
qed

lemma of_le32_le32 [simp]: "of_le32 (le32 v) = v"
  by (simp add: of_le32_def le32_def)

lemma be32_inject [simp]: "be32 a = be32 b \<longleftrightarrow> a = b"
  by (metis of_be32_be32)

lemma be16_inject [simp]: "be16 a = be16 b \<longleftrightarrow> a = b"
  by (metis of_be16_be16)

end
