(* ===== verification/Ring_Buf.thy ===== *)
theory Ring_Buf
  imports VC_Prelude
begin

text \<open>
  The ring buffers of driver/advvcom.h. \<open>ring_buf\<close> holds the fields the kernel and the daemon
  share; \<open>kring\<close> adds the kernel's status word and data page. The queries are the inline
  functions of the header, one definition each; \<open>move_rb_head\<close> and \<open>move_rb_tail\<close> are its two
  mutators. \<open>rb_contents\<close> is the abstract byte queue a ring stands for; the locale
  \<open>byte_fifo\<close> states what the producers and consumers of a ring rely on, and it is
  interpreted on the ring operations at the end.
\<close>

subsection \<open>Data\<close>

record ring_buf =
  rb_head :: int
  rb_tail :: int
  rb_begin :: int
  rb_size :: int

record kring = ring_buf +
  rb_status :: u32
  rb_data :: "byte list"

definition ADV_RING_BUF_ENABLED :: u32 where
  "ADV_RING_BUF_ENABLED = 1"

definition ADV_RING_BUF_CLEAN :: u32 where
  "ADV_RING_BUF_CLEAN = 2"

subsection \<open>Queries\<close>

definition is_rb_empty :: "'z ring_buf_scheme \<Rightarrow> bool" where
  "is_rb_empty buf \<longleftrightarrow> rb_tail buf = rb_head buf"

definition get_rb_length :: "'z ring_buf_scheme \<Rightarrow> int" where
  "get_rb_length buf =
     (if rb_tail buf \<ge> rb_head buf then rb_tail buf - rb_head buf
      else rb_size buf - rb_head buf + rb_tail buf)"

definition get_rb_llength :: "'z ring_buf_scheme \<Rightarrow> int" where
  "get_rb_llength buf =
     (let a = rb_size buf - rb_head buf; b = get_rb_length buf
      in if a < b then a else b)"

definition get_rb_room :: "'z ring_buf_scheme \<Rightarrow> int" where
  "get_rb_room buf = rb_size buf - get_rb_length buf - 1"

definition get_rb_lroom :: "'z ring_buf_scheme \<Rightarrow> int" where
  "get_rb_lroom buf =
     (let a = rb_size buf - rb_tail buf; b = get_rb_room buf
      in if a < b then a else b)"

definition get_rb_tail :: "'z ring_buf_scheme \<Rightarrow> int" where
  "get_rb_tail buf = rb_tail buf"

definition get_rb_head :: "'z ring_buf_scheme \<Rightarrow> int" where
  "get_rb_head buf = rb_head buf"

lemmas rb_query_defs = is_rb_empty_def get_rb_length_def get_rb_llength_def get_rb_room_def
  get_rb_lroom_def get_rb_tail_def get_rb_head_def Let_def

subsection \<open>Mutators\<close>

definition move_rb_head :: "kring \<Rightarrow> int \<Rightarrow> kring" where
  "move_rb_head buf len =
     (if rb_status buf AND ADV_RING_BUF_CLEAN \<noteq> 0
      then buf\<lparr>rb_status := rb_status buf AND NOT ADV_RING_BUF_CLEAN, rb_head := rb_tail buf\<rparr>
      else buf\<lparr>rb_head := c_int (rb_head buf + len) smod rb_size buf\<rparr>)"

definition move_rb_tail :: "'z ring_buf_scheme \<Rightarrow> int \<Rightarrow> 'z ring_buf_scheme" where
  "move_rb_tail buf len = buf\<lparr>rb_tail := c_int (rb_tail buf + len) smod rb_size buf\<rparr>"

text \<open>The producers' \<^verbatim>\<open>memcpy(&base[tail], ...)\<close> and the consumers' read at the head.\<close>

definition rb_put :: "kring \<Rightarrow> byte list \<Rightarrow> kring" where
  "rb_put buf bs = buf\<lparr>rb_data := put_bytes (nat (rb_tail buf)) bs (rb_data buf)\<rparr>"

definition rb_get :: "kring \<Rightarrow> int \<Rightarrow> byte list" where
  "rb_get buf n = get_bytes (nat (rb_head buf)) (nat n) (rb_data buf)"

subsection \<open>Invariant and abstraction\<close>

text \<open>
  The size bound keeps every intermediate sum of the code inside a C int; the driver's rings
  have the size of one page.
\<close>

definition rb_inv :: "'z ring_buf_scheme \<Rightarrow> bool" where
  "rb_inv buf \<longleftrightarrow> 0 < rb_size buf \<and> rb_size buf \<le> 2 ^ 30 \<and>
     0 \<le> rb_head buf \<and> rb_head buf < rb_size buf \<and> 0 \<le> rb_tail buf \<and> rb_tail buf < rb_size buf"

definition kr_inv :: "kring \<Rightarrow> bool" where
  "kr_inv buf \<longleftrightarrow> rb_inv buf \<and> length (rb_data buf) = nat (rb_size buf)"

definition rb_contents :: "kring \<Rightarrow> byte list" where
  "rb_contents buf =
     map (\<lambda>i. rb_data buf ! ((nat (rb_head buf) + i) mod nat (rb_size buf)))
       [0..<nat (get_rb_length buf)]"

definition rb_clean :: "kring \<Rightarrow> bool" where
  "rb_clean buf \<longleftrightarrow> rb_status buf AND ADV_RING_BUF_CLEAN \<noteq> 0"

lemma rb_inv_nat:
  assumes "rb_inv b"
  obtains h t s where "rb_head b = int h" "rb_tail b = int t" "rb_size b = int s"
    "h < s" "t < s" "int s \<le> 2 ^ 30"
proof
  from assms show "rb_head b = int (nat (rb_head b))" "rb_tail b = int (nat (rb_tail b))"
    "rb_size b = int (nat (rb_size b))" "nat (rb_head b) < nat (rb_size b)"
    "nat (rb_tail b) < nat (rb_size b)" "int (nat (rb_size b)) \<le> 2 ^ 30"
    by (auto simp: rb_inv_def)
qed

lemma rb_length_bounds:
  assumes "rb_inv b"
  shows "0 \<le> get_rb_length b" "get_rb_length b < rb_size b" "0 \<le> get_rb_room b"
    "0 \<le> get_rb_lroom b" "get_rb_lroom b \<le> get_rb_room b" "0 \<le> get_rb_llength b"
    "get_rb_llength b \<le> get_rb_length b"
    "get_rb_lroom b \<le> rb_size b - rb_tail b" "get_rb_llength b \<le> rb_size b - rb_head b"
  using assms by (auto simp: rb_inv_def rb_query_defs)

lemma rb_empty_iff: "rb_inv b \<Longrightarrow> is_rb_empty b \<longleftrightarrow> get_rb_length b = 0"
  by (auto simp: rb_inv_def rb_query_defs)

lemma rb_llength_pos: "rb_inv b \<Longrightarrow> \<not> is_rb_empty b \<Longrightarrow> 0 < get_rb_llength b"
  by (auto simp: rb_inv_def rb_query_defs)

lemma rb_lroom_pos: "rb_inv b \<Longrightarrow> 0 < get_rb_room b \<Longrightarrow> 0 < get_rb_lroom b"
  by (auto simp: rb_inv_def rb_query_defs)

lemma length_rb_contents [simp]:
  "length (rb_contents b) = nat (get_rb_length b)"
  by (simp add: rb_contents_def)

lemma rb_contents_Nil_iff: "rb_inv b \<Longrightarrow> rb_contents b = [] \<longleftrightarrow> is_rb_empty b"
  using rb_length_bounds(1) [of b] by (auto simp: rb_empty_iff rb_contents_def)

lemma length_rb_get [simp]:
  assumes "kr_inv b" and "n \<le> get_rb_llength b"
  shows "length (rb_get b n) = nat n"
proof -
  have "nat (rb_head b) + nat n \<le> length (rb_data b)"
    using assms rb_length_bounds(9) [of b] by (auto simp: kr_inv_def rb_inv_def)
  then show ?thesis by (simp add: rb_get_def)
qed

text \<open>A scheme-independent view of a tail or head update that stays in range.\<close>

lemma wrap_add:
  assumes "0 \<le> x" "x < s" "0 \<le> n" "n \<le> s" "s \<le> 2 ^ 30"
  shows "c_int (x + n) smod s = (if x + n < s then x + n else x + n - s)"
proof -
  have c: "c_int (x + n) = x + n"
    using assms by (intro c_int_small) auto
  have "(x + n) smod s = (x + n) mod s"
    using assms by (intro smod_nonneg) auto
  also have "\<dots> = (if x + n < s then x + n else x + n - s)"
  proof (cases "x + n < s")
    case True
    with assms show ?thesis by simp
  next
    case False
    then have "(x + n) mod s = (x + n - s) mod s"
      by (metis minus_mod_self2)
    also have "\<dots> = x + n - s"
      using False assms by (intro mod_pos_pos_trivial) auto
    finally show ?thesis using False by simp
  qed
  finally show ?thesis by (simp add: c)
qed

lemma move_rb_tail_inv:
  assumes "rb_inv b" "0 \<le> n" "n \<le> rb_size b"
  shows "rb_inv (move_rb_tail b n)"
  using assms wrap_add [of "rb_tail b" "rb_size b" n]
  by (auto simp: rb_inv_def move_rb_tail_def)

lemma move_rb_head_inv:
  assumes "rb_inv b" "0 \<le> n" "n \<le> rb_size b"
  shows "rb_inv (move_rb_head b n)"
  using assms wrap_add [of "rb_head b" "rb_size b" n]
  by (auto simp: rb_inv_def move_rb_head_def)

lemma move_frame [simp, frame_simps]:
  "rb_size (move_rb_tail b n) = rb_size b" "rb_begin (move_rb_tail b n) = rb_begin b"
  "rb_head (move_rb_tail b n) = rb_head b"
  "rb_size (move_rb_head c n) = rb_size c" "rb_begin (move_rb_head c n) = rb_begin c"
  "rb_data (move_rb_head c n) = rb_data c" "rb_tail (move_rb_head c n) = rb_tail c"
  by (simp_all add: move_rb_tail_def move_rb_head_def)

lemma move_rb_tail_kframe [simp, frame_simps]:
  "rb_data (move_rb_tail c n) = rb_data c" "rb_status (move_rb_tail c n) = rb_status c"
  by (simp_all add: move_rb_tail_def)

lemma rb_put_frame [simp, frame_simps]:
  "rb_head (rb_put c bs) = rb_head c" "rb_tail (rb_put c bs) = rb_tail c"
  "rb_size (rb_put c bs) = rb_size c" "rb_begin (rb_put c bs) = rb_begin c"
  "rb_status (rb_put c bs) = rb_status c"
  by (simp_all add: rb_put_def)

subsection \<open>Producing and consuming\<close>

lemma rb_length_move_tail:
  assumes "rb_inv b" "0 \<le> n" "n \<le> get_rb_room b"
  shows "get_rb_length (move_rb_tail b n) = get_rb_length b + n"
proof -
  have "n \<le> rb_size b"
    using assms by (auto simp: rb_inv_def rb_query_defs split: if_splits)
  with assms show ?thesis
    using wrap_add [of "rb_tail b" "rb_size b" n]
    by (auto simp: rb_inv_def move_rb_tail_def rb_query_defs split: if_splits)
qed

lemma rb_length_move_head:
  assumes "rb_inv b" "0 \<le> n" "n \<le> get_rb_length b" "\<not> rb_clean b"
  shows "get_rb_length (move_rb_head b n) = get_rb_length b - n"
proof -
  have "n \<le> rb_size b"
    using assms by (auto simp: rb_inv_def rb_query_defs split: if_splits)
  with assms show ?thesis
    using wrap_add [of "rb_head b" "rb_size b" n]
    by (auto simp: rb_inv_def move_rb_head_def rb_clean_def rb_query_defs split: if_splits)
qed

lemma mod_once: "(h + i) mod s = (if h + i < s then h + i else h + i - s)"
  if "h < s" "i < s" for h i s :: nat
  using that by (auto simp: mod_if)

lemma rb_append_linear:
  assumes inv: "kr_inv b" and len: "int (length bs) \<le> get_rb_lroom b"
  shows "rb_contents (move_rb_tail (rb_put b bs) (int (length bs))) = rb_contents b @ bs"
proof -
  let ?b' = "move_rb_tail (rb_put b bs) (int (length bs))"
  from inv have ri: "rb_inv b" and ld: "length (rb_data b) = nat (rb_size b)"
    by (auto simp: kr_inv_def)
  from rb_inv_nat [OF ri] obtain h t s where
    eq: "rb_head b = int h" "rb_tail b = int t" "rb_size b = int s"
    and lt: "h < s" "t < s" and sb: "int s \<le> 2 ^ 30" .
  let ?k = "length bs" and ?L = "nat (get_rb_length b)"
  have L: "?L = (if h \<le> t then t - h else s - h + t)"
    using eq lt by (auto simp: get_rb_length_def)
  have k: "t + ?k \<le> s" "?L + ?k < s"
    using len lt by (auto simp: rb_query_defs eq L split: if_splits)
  have ri': "rb_inv (rb_put b bs)" "get_rb_room (rb_put b bs) = get_rb_room b"
    "get_rb_length (rb_put b bs) = get_rb_length b"
    using ri by (simp_all add: rb_inv_def rb_query_defs)
  have len': "nat (get_rb_length ?b') = ?L + ?k"
    using rb_length_move_tail [OF ri'(1), of "int ?k"] ri' len rb_length_bounds [OF ri] by simp
  show ?thesis
  proof (rule nth_equalityI)
    show "length (rb_contents ?b') = length (rb_contents b @ bs)"
      by (simp add: len')
  next
    fix i assume "i < length (rb_contents ?b')"
    then have i: "i < ?L + ?k" by (simp add: len')
    have pos: "(h + i) mod s = (if h + i < s then h + i else h + i - s)"
      using lt i k by (intro mod_once) auto
    have "rb_data ?b' = put_bytes t bs (rb_data b)"
      by (simp add: rb_put_def eq)
    then have "rb_contents ?b' ! i = put_bytes t bs (rb_data b) ! ((h + i) mod s)"
      using i by (simp add: rb_contents_def len' eq)
    also have "\<dots> = (if t \<le> (h + i) mod s \<and> (h + i) mod s < t + ?k
        then bs ! ((h + i) mod s - t) else rb_data b ! ((h + i) mod s))"
      using k lt ld eq by (intro nth_put_bytes) auto
    also have "\<dots> = (rb_contents b @ bs) ! i"
    proof (cases "i < ?L")
      case True
      then have "\<not> (t \<le> (h + i) mod s \<and> (h + i) mod s < t + ?k)"
        using L lt k pos by (auto split: if_splits)
      with True show ?thesis
        by (auto simp: nth_append rb_contents_def eq)
    next
      case False
      then have "(h + i) mod s = t + (i - ?L)"
        using L lt k i pos by (auto split: if_splits)
      moreover from False i have "t \<le> t + (i - ?L)" "t + (i - ?L) < t + ?k" by auto
      ultimately show ?thesis using False by (simp add: nth_append)
    qed
    finally show "rb_contents ?b' ! i = (rb_contents b @ bs) ! i" .
  qed
qed

lemma rb_append_linear_inv:
  assumes "kr_inv b" and "int (length bs) \<le> get_rb_lroom b"
  shows "kr_inv (move_rb_tail (rb_put b bs) (int (length bs)))"
proof -
  have ri: "rb_inv b" and "length (rb_data b) = nat (rb_size b)"
    using assms(1) by (auto simp: kr_inv_def)
  have b: "int (length bs) \<le> rb_size b - rb_tail b"
    using assms(2) rb_length_bounds(8) [OF ri] by simp
  have "rb_inv (rb_put b bs)" using ri by (simp add: rb_inv_def)
  then have "rb_inv (move_rb_tail (rb_put b bs) (int (length bs)))"
    using b ri by (intro move_rb_tail_inv) (auto simp: rb_inv_def)
  moreover have "length (rb_data (rb_put b bs)) = nat (rb_size b)"
    using b \<open>length (rb_data b) = nat (rb_size b)\<close> ri
    by (auto simp: rb_put_def rb_inv_def)
  ultimately show ?thesis by (simp add: kr_inv_def)
qed

lemma rb_consume:
  assumes inv: "kr_inv b" and n: "int n \<le> get_rb_length b" and nc: "\<not> rb_clean b"
  shows "rb_contents (move_rb_head b (int n)) = drop n (rb_contents b)"
proof -
  from inv have ri: "rb_inv b" by (simp add: kr_inv_def)
  from rb_inv_nat [OF ri] obtain h t s where
    eq: "rb_head b = int h" "rb_tail b = int t" "rb_size b = int s"
    and lt: "h < s" "t < s" and sb: "int s \<le> 2 ^ 30" .
  let ?b' = "move_rb_head b (int n)"
  have ns: "n < s" using n rb_length_bounds(2) [OF ri] eq by simp
  have hd': "nat (rb_head ?b') = (h + n) mod s"
    using nc wrap_add [of "int h" "int s" "int n"] lt ns sb
    by (auto simp: move_rb_head_def rb_clean_def eq mod_once nat_diff_distrib' nat_add_distrib)
  have len': "nat (get_rb_length ?b') = nat (get_rb_length b) - n"
    using rb_length_move_head [OF ri _ n nc] n by simp
  show ?thesis
  proof (rule nth_equalityI)
    show "length (rb_contents ?b') = length (drop n (rb_contents b))"
      by (simp add: len')
  next
    fix i assume "i < length (rb_contents ?b')"
    then have i: "n + i < nat (get_rb_length b)" by (simp add: len')
    have "((h + n) mod s + i) mod s = (h + (n + i)) mod s"
      by (simp add: mod_add_left_eq add.assoc)
    moreover have "i < nat (get_rb_length b) - n" using i by simp
    ultimately show "rb_contents ?b' ! i = drop n (rb_contents b) ! i"
      using i by (simp add: rb_contents_def len' hd' eq)
  qed
qed

lemma rb_consume_inv:
  assumes "kr_inv b" and "int n \<le> get_rb_length b"
  shows "kr_inv (move_rb_head b (int n))"
  using assms move_rb_head_inv [of b "int n"] rb_length_bounds(2) [of b]
  by (auto simp: kr_inv_def)

lemma rb_read_linear:
  assumes inv: "kr_inv b" and n: "int n \<le> get_rb_llength b"
  shows "rb_get b (int n) = take n (rb_contents b)"
proof -
  from inv have ri: "rb_inv b" and ld: "length (rb_data b) = nat (rb_size b)"
    by (auto simp: kr_inv_def)
  have nl: "n \<le> nat (get_rb_length b)" "int n \<le> rb_size b - rb_head b"
    using n rb_length_bounds(7,9) [OF ri] by auto
  show ?thesis
  proof (rule nth_equalityI)
    show "length (rb_get b (int n)) = length (take n (rb_contents b))"
      using nl inv n by simp
  next
    fix i assume "i < length (rb_get b (int n))"
    then have i: "i < n" using inv n by simp
    then have "(nat (rb_head b) + i) mod nat (rb_size b) = nat (rb_head b) + i"
      using nl ri by (intro mod_less) (auto simp: rb_inv_def)
    with i nl ri ld show "rb_get b (int n) ! i = take n (rb_contents b) ! i"
      by (auto simp: rb_get_def get_bytes_def rb_contents_def rb_inv_def)
  qed
qed

text \<open>The clean request: the next head move empties the ring and clears the request.\<close>

lemma move_rb_head_clean:
  assumes "rb_clean b" and "rb_inv b"
  shows "is_rb_empty (move_rb_head b n)" "\<not> rb_clean (move_rb_head b n)"
    "rb_inv (move_rb_head b n)"
proof -
  from assms show "is_rb_empty (move_rb_head b n)"
    by (simp add: move_rb_head_def rb_clean_def is_rb_empty_def)
  have "(x AND NOT ADV_RING_BUF_CLEAN) AND ADV_RING_BUF_CLEAN = 0" for x :: u32
    by (rule bit_word_eqI) (simp add: bit_simps)
  with assms(1) show "\<not> rb_clean (move_rb_head b n)"
    by (simp add: move_rb_head_def rb_clean_def)
  from assms show "rb_inv (move_rb_head b n)"
    by (simp add: move_rb_head_def rb_clean_def rb_inv_def)
qed

subsection \<open>The interface of a byte queue with linear segments\<close>

text \<open>
  What a producer relies on: it may push up to \<open>lroom\<close> bytes in one linear copy, a push
  appends, a queue that is not full has linear room, and once the linear room up to the end of
  the page is used, the rest of the room is linear. \<open>push_wrapped\<close> is then the two-part copy
  of the code.
\<close>

locale fifo_producer =
  fixes qinv :: "'q \<Rightarrow> bool"
    and contents :: "'q \<Rightarrow> 'a list"
    and room :: "'q \<Rightarrow> nat"
    and lroom :: "'q \<Rightarrow> nat"
    and push :: "'a list \<Rightarrow> 'q \<Rightarrow> 'q"
  assumes push_inv: "qinv q \<Longrightarrow> length bs \<le> lroom q \<Longrightarrow> qinv (push bs q)"
    and push_contents: "qinv q \<Longrightarrow> length bs \<le> lroom q \<Longrightarrow> contents (push bs q) = contents q @ bs"
    and push_room: "qinv q \<Longrightarrow> length bs \<le> lroom q \<Longrightarrow> room (push bs q) = room q - length bs"
    and lroom_le: "qinv q \<Longrightarrow> lroom q \<le> room q"
    and lroom_pos: "qinv q \<Longrightarrow> 0 < room q \<Longrightarrow> 0 < lroom q"
    and lroom_wrap: "qinv q \<Longrightarrow> lroom q < room q \<Longrightarrow> length bs = lroom q \<Longrightarrow>
      lroom (push bs q) = room (push bs q)"
begin

lemma push_wrapped:
  assumes "qinv q" and "lroom q < length bs" and "length bs \<le> room q"
  shows "contents (push (drop (lroom q) bs) (push (take (lroom q) bs) q)) = contents q @ bs"
    and "qinv (push (drop (lroom q) bs) (push (take (lroom q) bs) q))"
proof -
  let ?q1 = "push (take (lroom q) bs) q"
  have len: "length (take (lroom q) bs) = lroom q" using assms(2) by simp
  have q1: "qinv ?q1" "contents ?q1 = contents q @ take (lroom q) bs" "room ?q1 = room q - lroom q"
    using push_inv [OF assms(1)] push_contents [OF assms(1)] push_room [OF assms(1)] len by auto
  have "lroom ?q1 = room ?q1"
    using lroom_wrap [OF assms(1) _ len] assms(2,3) by simp
  then have "length (drop (lroom q) bs) \<le> lroom ?q1"
    using q1(3) assms(3) by simp
  from push_contents [OF q1(1) this] push_inv [OF q1(1) this]
  show "contents (push (drop (lroom q) bs) ?q1) = contents q @ bs" "qinv (push (drop (lroom q) bs) ?q1)"
    by (simp_all add: q1(2))
qed

end

text \<open>
  What a consumer relies on: it may take up to \<open>llen\<close> bytes in one linear copy, \<open>peek\<close> reads
  the front, a pop removes it, and what wraps around is linear once the first segment is gone.
\<close>

locale byte_fifo = fifo_producer qinv contents room lroom push
  for qinv :: "'q \<Rightarrow> bool"
    and contents :: "'q \<Rightarrow> 'a list"
    and room :: "'q \<Rightarrow> nat"
    and lroom :: "'q \<Rightarrow> nat"
    and push :: "'a list \<Rightarrow> 'q \<Rightarrow> 'q" +
  fixes llen :: "'q \<Rightarrow> nat"
    and peek :: "nat \<Rightarrow> 'q \<Rightarrow> 'a list"
    and pop :: "nat \<Rightarrow> 'q \<Rightarrow> 'q"
  assumes pop_inv: "qinv q \<Longrightarrow> n \<le> llen q \<Longrightarrow> qinv (pop n q)"
    and pop_contents: "qinv q \<Longrightarrow> n \<le> llen q \<Longrightarrow> contents (pop n q) = drop n (contents q)"
    and peek_contents: "qinv q \<Longrightarrow> n \<le> llen q \<Longrightarrow> peek n q = take n (contents q)"
    and llen_le: "qinv q \<Longrightarrow> llen q \<le> length (contents q)"
    and llen_pos: "qinv q \<Longrightarrow> contents q \<noteq> [] \<Longrightarrow> 0 < llen q"
    and llen_wrap: "qinv q \<Longrightarrow> llen q < length (contents q) \<Longrightarrow>
      llen (pop (llen q) q) = length (contents q) - llen q"

text \<open>
  A run of producer and consumer steps in any order: the bytes taken so far and the queue left.
  A step is allowed when its copy is linear.
\<close>

datatype 'a fifo_op = Push "'a list" | Pop nat

fun fifo_ok :: "('q \<Rightarrow> nat) \<Rightarrow> ('q \<Rightarrow> nat) \<Rightarrow> 'q \<Rightarrow> 'a fifo_op \<Rightarrow> bool" where
  "fifo_ok lr ll q (Push bs) = (length bs \<le> lr q)"
| "fifo_ok lr ll q (Pop n) = (n \<le> ll q)"

fun fifo_step :: "('a list \<Rightarrow> 'q \<Rightarrow> 'q) \<Rightarrow> (nat \<Rightarrow> 'q \<Rightarrow> 'a list) \<Rightarrow> (nat \<Rightarrow> 'q \<Rightarrow> 'q) \<Rightarrow>
    'a fifo_op \<Rightarrow> 'a list \<times> 'q \<Rightarrow> 'a list \<times> 'q" where
  "fifo_step pu pe po (Push bs) (got, q) = (got, pu bs q)"
| "fifo_step pu pe po (Pop n) (got, q) = (got @ pe n q, po n q)"

primrec pushed :: "'a fifo_op list \<Rightarrow> 'a list" where
  "pushed [] = []"
| "pushed (x # xs) = (case x of Push bs \<Rightarrow> bs | Pop n \<Rightarrow> []) @ pushed xs"

text \<open>The runs all of whose steps are allowed where they are taken.\<close>

primrec fifo_legal :: "('q \<Rightarrow> nat) \<Rightarrow> ('q \<Rightarrow> nat) \<Rightarrow> ('a list \<Rightarrow> 'q \<Rightarrow> 'q) \<Rightarrow>
    (nat \<Rightarrow> 'q \<Rightarrow> 'a list) \<Rightarrow> (nat \<Rightarrow> 'q \<Rightarrow> 'q) \<Rightarrow> 'a fifo_op list \<Rightarrow> 'a list \<times> 'q \<Rightarrow> bool" where
  "fifo_legal lr ll pu pe po [] s = True"
| "fifo_legal lr ll pu pe po (x # xs) s =
     (fifo_ok lr ll (snd s) x \<and> fifo_legal lr ll pu pe po xs (fifo_step pu pe po x s))"

context byte_fifo
begin

lemma step_stream:
  assumes "qinv q" and "fifo_ok lroom llen q x"
    and "fifo_step push peek pop x (got, q) = (got', q')"
  shows "qinv q' \<and> got' @ contents q' = got @ contents q @ pushed [x]"
proof (cases x)
  case (Push bs)
  with assms show ?thesis by (auto simp: push_inv push_contents)
next
  case (Pop n)
  with assms show ?thesis by (auto simp: pop_inv pop_contents peek_contents)
qed

theorem stream:
  assumes "qinv q" and "fifo_legal lroom llen push peek pop xs (got, q)"
  shows "qinv (snd (fold (fifo_step push peek pop) xs (got, q))) \<and>
    fst (fold (fifo_step push peek pop) xs (got, q)) @
      contents (snd (fold (fifo_step push peek pop) xs (got, q)))
    = got @ contents q @ pushed xs"
  using assms
proof (induction xs arbitrary: got q)
  case Nil
  then show ?case by simp
next
  case (Cons x xs)
  obtain got' q' where eq: "fifo_step push peek pop x (got, q) = (got', q')"
    by fastforce
  with Cons.prems have st: "qinv q'" "got' @ contents q' = got @ contents q @ pushed [x]"
    and lg: "fifo_legal lroom llen push peek pop xs (got', q')"
    using step_stream [of q x got got' q'] by auto
  from Cons.IH [OF st(1) lg] st(2) show ?case
    by (simp add: eq)
qed

lemma pop_twice:
  assumes "qinv q" and "llen q < length (contents q)"
  shows "contents (pop (llen (pop (llen q) q)) (pop (llen q) q)) = []"
  using pop_contents [OF pop_inv [OF assms(1) order_refl], of "llen (pop (llen q) q)"]
    pop_contents [OF assms(1) order_refl] llen_wrap [OF assms]
  by simp

end

text \<open>The kernel rings implement both sides.\<close>

definition kr_push :: "byte list \<Rightarrow> kring \<Rightarrow> kring" where
  "kr_push bs b = move_rb_tail (rb_put b bs) (int (length bs))"

definition kr_ready :: "kring \<Rightarrow> bool" where
  "kr_ready b \<longleftrightarrow> kr_inv b \<and> \<not> rb_clean b"

lemma rb_clean_frame [simp, frame_simps]:
  "rb_clean (move_rb_tail b n) = rb_clean b" "rb_clean (rb_put b bs) = rb_clean b"
  "\<not> rb_clean b \<Longrightarrow> \<not> rb_clean (move_rb_head b n)"
  by (simp_all add: rb_clean_def move_rb_head_def)

lemma kr_push_clean [simp, frame_simps]: "rb_clean (kr_push bs b) = rb_clean b"
  by (simp add: kr_push_def)

lemma kr_push_length:
  assumes "kr_inv b" and "int (length bs) \<le> get_rb_room b"
  shows "get_rb_length (kr_push bs b) = get_rb_length b + int (length bs)"
proof -
  have "rb_inv (rb_put b bs)" "get_rb_room (rb_put b bs) = get_rb_room b"
    "get_rb_length (rb_put b bs) = get_rb_length b"
    using assms(1) by (simp_all add: kr_inv_def rb_inv_def rb_query_defs)
  then show ?thesis
    using rb_length_move_tail [of "rb_put b bs" "int (length bs)"] assms(2)
    by (simp add: kr_push_def)
qed

lemma kr_push_wrap:
  assumes "rb_inv b" and "get_rb_lroom b < get_rb_room b" and "int (length bs) = get_rb_lroom b"
  shows "get_rb_lroom (kr_push bs b) = get_rb_room (kr_push bs b)"
proof -
  have l: "int (length bs) = rb_size b - rb_tail b" and h: "0 < rb_head b"
    using assms by (auto simp: rb_inv_def rb_query_defs split: if_splits)
  then have "rb_tail (kr_push bs b) = 0"
    using assms(1) wrap_add [of "rb_tail b" "rb_size b" "int (length bs)"]
    by (auto simp: kr_push_def move_rb_tail_def rb_inv_def)
  moreover have "rb_head (kr_push bs b) = rb_head b" "rb_size (kr_push bs b) = rb_size b"
    by (simp_all add: kr_push_def)
  ultimately show ?thesis
    using h assms(1) by (auto simp: rb_query_defs rb_inv_def)
qed

interpretation kprod: fifo_producer kr_inv rb_contents "\<lambda>b. nat (get_rb_room b)"
  "\<lambda>b. nat (get_rb_lroom b)" kr_push
proof
  fix q and bs :: "byte list" assume i: "kr_inv q"
  then have ri: "rb_inv q" by (simp add: kr_inv_def)
  note bounds = rb_length_bounds [OF ri]
  show "nat (get_rb_lroom q) \<le> nat (get_rb_room q)" using bounds by simp
  show "0 < nat (get_rb_room q) \<Longrightarrow> 0 < nat (get_rb_lroom q)"
    using rb_lroom_pos [OF ri] by simp
  show "nat (get_rb_lroom q) < nat (get_rb_room q) \<Longrightarrow> length bs = nat (get_rb_lroom q) \<Longrightarrow>
      nat (get_rb_lroom (kr_push bs q)) = nat (get_rb_room (kr_push bs q))"
    using kr_push_wrap [OF ri] bounds by simp
  {
    assume "length bs \<le> nat (get_rb_lroom q)"
    then have len: "int (length bs) \<le> get_rb_lroom q" using bounds by linarith
    from rb_append_linear_inv [OF i len] show "kr_inv (kr_push bs q)"
      by (simp add: kr_push_def)
    from rb_append_linear [OF i len] show "rb_contents (kr_push bs q) = rb_contents q @ bs"
      by (simp add: kr_push_def)
    from kr_push_length [OF i] len bounds
    show "nat (get_rb_room (kr_push bs q)) = nat (get_rb_room q) - length bs"
      by (simp add: get_rb_room_def kr_push_def)
  }
qed

lemma rb_pop_wrap:
  assumes "kr_inv b" "\<not> rb_clean b" "get_rb_llength b < get_rb_length b"
  shows "get_rb_llength (move_rb_head b (get_rb_llength b)) = get_rb_length b - get_rb_llength b"
proof -
  have ri: "rb_inv b" using assms(1) by (simp add: kr_inv_def)
  have l: "get_rb_llength b = rb_size b - rb_head b"
    using assms(3) by (auto simp: get_rb_llength_def Let_def split: if_splits)
  have "rb_head (move_rb_head b (get_rb_llength b)) = 0"
    using ri assms(2) l wrap_add [of "rb_head b" "rb_size b" "get_rb_llength b"]
    by (auto simp: move_rb_head_def rb_clean_def rb_inv_def)
  moreover have "get_rb_length (move_rb_head b (get_rb_llength b)) = get_rb_length b - get_rb_llength b"
    using rb_length_move_head [OF ri _ _ assms(2)] rb_length_bounds [OF ri] assms(3) by simp
  ultimately show ?thesis
    using rb_length_bounds(2) [OF ri] rb_length_bounds(6) [OF ri] by (simp add: get_rb_llength_def)
qed

interpretation ring: byte_fifo kr_ready rb_contents "\<lambda>b. nat (get_rb_room b)"
  "\<lambda>b. nat (get_rb_lroom b)" kr_push "\<lambda>b. nat (get_rb_llength b)"
  "\<lambda>n b. rb_get b (int n)" "\<lambda>n b. move_rb_head b (int n)"
proof
  fix q and bs :: "byte list" assume "kr_ready q"
  then have i: "kr_inv q" "rb_inv q" "\<not> rb_clean q" by (auto simp: kr_ready_def kr_inv_def)
  note bounds = rb_length_bounds [OF i(2)]
  show "nat (get_rb_lroom q) \<le> nat (get_rb_room q)" by (rule kprod.lroom_le [OF i(1)])
  show "0 < nat (get_rb_room q) \<Longrightarrow> 0 < nat (get_rb_lroom q)" by (rule kprod.lroom_pos [OF i(1)])
  show "nat (get_rb_lroom q) < nat (get_rb_room q) \<Longrightarrow> length bs = nat (get_rb_lroom q) \<Longrightarrow>
      nat (get_rb_lroom (kr_push bs q)) = nat (get_rb_room (kr_push bs q))"
    by (rule kprod.lroom_wrap [OF i(1)])
  show "length bs \<le> nat (get_rb_lroom q) \<Longrightarrow> kr_ready (kr_push bs q)"
    using kprod.push_inv [OF i(1), of bs] i(3) by (simp add: kr_ready_def)
  show "length bs \<le> nat (get_rb_lroom q) \<Longrightarrow> rb_contents (kr_push bs q) = rb_contents q @ bs"
    by (rule kprod.push_contents [OF i(1)])
  show "length bs \<le> nat (get_rb_lroom q) \<Longrightarrow>
      nat (get_rb_room (kr_push bs q)) = nat (get_rb_room q) - length bs"
    by (rule kprod.push_room [OF i(1)])
  show "nat (get_rb_llength q) \<le> length (rb_contents q)" using bounds by simp
  show "rb_contents q \<noteq> [] \<Longrightarrow> 0 < nat (get_rb_llength q)"
    using rb_llength_pos [OF i(2)] i(2) by (simp add: rb_contents_Nil_iff)
  show "nat (get_rb_llength q) < length (rb_contents q) \<Longrightarrow>
      nat (get_rb_llength (move_rb_head q (int (nat (get_rb_llength q)))))
        = length (rb_contents q) - nat (get_rb_llength q)"
    using rb_pop_wrap [OF i(1,3)] bounds by simp
next
  fix q n assume q: "kr_ready q" and "n \<le> nat (get_rb_llength q)"
  moreover from q have i: "kr_inv q" "rb_inv q" "\<not> rb_clean q"
    by (auto simp: kr_ready_def kr_inv_def)
  moreover note bounds = rb_length_bounds [OF i(2)]
  ultimately have l: "int n \<le> get_rb_llength q" and n: "int n \<le> get_rb_length q" by auto
  from rb_consume_inv [OF i(1) n] i(3) show "kr_ready (move_rb_head q (int n))"
    by (simp add: kr_ready_def)
  from rb_consume [OF i(1) n i(3)] show "rb_contents (move_rb_head q (int n)) = drop n (rb_contents q)" .
  from rb_read_linear [OF i(1) l] show "rb_get q (int n) = take n (rb_contents q)" .
qed

end
