(* ===== verification/Driver_Uart.thy ===== *)
theory Driver_Uart
  imports Ring_Buf
begin

text \<open>
  The serial-port half of the kernel driver: driver/adv_uart.c with the structures of
  driver/advtype.h, driver/advvcom.h and driver/adv_uart.h. A port is one \<open>adv_vcom\<close>; the
  uart side sees its two rings crossed (\<open>up_tx\<close> is the rx ring of the daemon and \<open>up_rx\<close> its tx
  ring), as \<^verbatim>\<open>adv_uart_init\<close> sets them up. Every operation runs under the locks the source
  takes, so it is one atomic state change here. The tty layer of the kernel is a parameter:
  \<open>tty_ops\<close> for the receive side, and for the transmit fifo the length of its first linear
  segment (\<^verbatim>\<open>kfifo_out_linear_ptr\<close>).
\<close>

subsection \<open>Port attributes\<close>

definition ADV_PAIR_NONE :: int where "ADV_PAIR_NONE = 0"
definition ADV_PAIR_ODD :: int where "ADV_PAIR_ODD = 1"
definition ADV_PAIR_EVEN :: int where "ADV_PAIR_EVEN = 2"
definition ADV_PAIR_MARK :: int where "ADV_PAIR_MARK = 3"
definition ADV_PAIR_SPACE :: int where "ADV_PAIR_SPACE = 4"
definition ADV_PAIR_UNDEF :: int where "ADV_PAIR_UNDEF = 5"

definition ADV_FLOW_NONE :: int where "ADV_FLOW_NONE = 0"
definition ADV_FLOW_XONXOFF :: int where "ADV_FLOW_XONXOFF = 1"
definition ADV_FLOW_RTSCTS :: int where "ADV_FLOW_RTSCTS = 2"
definition ADV_FLOW_UNDEF :: int where "ADV_FLOW_UNDEF = 4"

definition ADV_STOP_1 :: int where "ADV_STOP_1 = 0"
definition ADV_STOP_2 :: int where "ADV_STOP_2 = 2"
definition ADV_STOP_UNDEF :: int where "ADV_STOP_UNDEF = 3"

definition ADV_MS_DTR :: u32 where "ADV_MS_DTR = 0x002"
definition ADV_MS_RTS :: u32 where "ADV_MS_RTS = 0x004"
definition ADV_MS_CTS :: u32 where "ADV_MS_CTS = 0x010"
definition ADV_MS_DSR :: u32 where "ADV_MS_DSR = 0x020"
definition ADV_MS_RI :: u32 where "ADV_MS_RI = 0x040"
definition ADV_MS_CAR :: u32 where "ADV_MS_CAR = 0x080"

lemmas adv_const_defs [vc_defs] = ADV_PAIR_NONE_def ADV_PAIR_ODD_def ADV_PAIR_EVEN_def
  ADV_PAIR_MARK_def ADV_PAIR_SPACE_def ADV_PAIR_UNDEF_def ADV_FLOW_NONE_def
  ADV_FLOW_XONXOFF_def ADV_FLOW_RTSCTS_def ADV_FLOW_UNDEF_def ADV_STOP_1_def ADV_STOP_2_def
  ADV_STOP_UNDEF_def

lemmas adv_ms_defs [vc_defs] = ADV_MS_DTR_def ADV_MS_RTS_def ADV_MS_CTS_def ADV_MS_DSR_def
  ADV_MS_RI_def ADV_MS_CAR_def

record adv_port_info =
  ai_is_open :: int
  ai_baud :: int
  ai_flowctl :: int
  ai_byte :: int
  ai_pair :: int
  ai_stop :: int
  ai_ms :: u32

definition zero_port_info :: adv_port_info where
  "zero_port_info = \<lparr>ai_is_open = 0, ai_baud = 0, ai_flowctl = 0, ai_byte = 0, ai_pair = 0,
     ai_stop = 0, ai_ms = 0\<rparr>"

record adv_port_att =
  at_attr :: adv_port_info
  at_mctrl :: u32
  at_newbie :: bool
  at_index :: int
  at_throttled :: bool
  at_size :: int
  at_begin :: int
  at_usr_ptr :: int
  at_data :: "adv_port_info list"

record uart_icount =
  ic_cts :: u32
  ic_dsr :: u32
  ic_dcd :: u32
  ic_rng :: u32
  ic_tx :: u32

record adv_vcom =
  v_attr :: adv_port_att
  v_tx :: kring
  v_rx :: kring
  u_icount :: uart_icount
  u_status :: u32
  u_fifo :: "byte list"

abbreviation info :: "adv_vcom \<Rightarrow> adv_port_info" where
  "info v \<equiv> at_attr (v_attr v)"

definition set_info :: "(adv_port_info \<Rightarrow> adv_port_info) \<Rightarrow> adv_vcom \<Rightarrow> adv_vcom" where
  "set_info f v = v\<lparr>v_attr := (v_attr v)\<lparr>at_attr := f (info v)\<rparr>\<rparr>"

text \<open>The uart port's view of the rings (\<^verbatim>\<open>adv_uart_init\<close>).\<close>

definition up_tx :: "adv_vcom \<Rightarrow> kring" where
  "up_tx v = v_rx v"

definition up_rx :: "adv_vcom \<Rightarrow> kring" where
  "up_rx v = v_tx v"

definition set_up_tx :: "kring \<Rightarrow> adv_vcom \<Rightarrow> adv_vcom" where
  "set_up_tx r v = v\<lparr>v_rx := r\<rparr>"

definition set_up_rx :: "kring \<Rightarrow> adv_vcom \<Rightarrow> adv_vcom" where
  "set_up_rx r v = v\<lparr>v_tx := r\<rparr>"

lemmas up_defs [vc_defs] = up_tx_def up_rx_def set_up_tx_def set_up_rx_def set_info_def

subsection \<open>The tty layer\<close>

record 't tty_ops =
  tty_insert_flip_string :: "byte list \<Rightarrow> 't \<Rightarrow> int \<times> 't"
  tty_flip_buffer_push :: "'t \<Rightarrow> 't"

text \<open>
  What the code relies on, with \<open>received\<close> the bytes handed to the tty layer so far:
  an insert takes a prefix of the bytes offered and reports its length; a push moves bytes on
  without losing any.
\<close>

definition tty_law :: "'t tty_ops \<Rightarrow> ('t \<Rightarrow> byte list) \<Rightarrow> bool" where
  "tty_law ops received \<longleftrightarrow>
     (\<forall>bs t. 0 \<le> fst (tty_insert_flip_string ops bs t) \<and>
        fst (tty_insert_flip_string ops bs t) \<le> int (length bs) \<and>
        received (snd (tty_insert_flip_string ops bs t))
          = received t @ take (nat (fst (tty_insert_flip_string ops bs t))) bs) \<and>
     (\<forall>t. received (tty_flip_buffer_push ops t) = received t)"

text \<open>
  The linear segment of the transmit fifo: at most what is asked for and what is there, and
  not empty unless one of the two is.
\<close>

definition lin_law :: "(byte list \<Rightarrow> nat \<Rightarrow> nat) \<Rightarrow> bool" where
  "lin_law lin \<longleftrightarrow> (\<forall>q n. lin q n \<le> n \<and> lin q n \<le> length q \<and> (q \<noteq> [] \<and> 0 < n \<longrightarrow> 0 < lin q n))"

subsection \<open>Transmit: from the tty fifo into the ring\<close>

text \<open>
  \<^verbatim>\<open>adv_uart_xmit\<close>: the ring, the fifo and the transmit counter. The loop drops at least one
  byte from the fifo in every round that does not leave it.
\<close>

function xmit_loop :: "(byte list \<Rightarrow> nat \<Rightarrow> nat) \<Rightarrow> kring \<Rightarrow> byte list \<Rightarrow> u32 \<Rightarrow>
    kring \<times> byte list \<times> u32" where
  "xmit_loop lin tx fifo cnt =
     (if fifo = [] then (tx, fifo, cnt)
      else let tx_lsize = get_rb_lroom tx in
        if tx_lsize = 0 then (tx, fifo, cnt)
        else let mcplen = lin fifo (nat tx_lsize) in
          if mcplen = 0 then (tx, fifo, cnt)
          else xmit_loop lin (move_rb_tail (rb_put tx (take mcplen fifo)) (int mcplen))
                 (drop mcplen fifo) (cnt + of_nat mcplen))"
  by pat_completeness auto
termination
  by (relation "measure (\<lambda>(lin, tx, fifo, cnt). length fifo)") auto

declare xmit_loop.simps [simp del]

definition adv_uart_xmit :: "(byte list \<Rightarrow> nat \<Rightarrow> nat) \<Rightarrow> adv_vcom \<Rightarrow> adv_vcom" where
  "adv_uart_xmit lin v =
     (if get_rb_room (up_tx v) = 0 then v
      else case xmit_loop lin (up_tx v) (u_fifo v) (ic_tx (u_icount v)) of
        (tx, fifo, cnt) \<Rightarrow>
          set_up_tx tx (v\<lparr>u_fifo := fifo, u_icount := (u_icount v)\<lparr>ic_tx := cnt\<rparr>\<rparr>))"

definition adv_uart_update_xmit :: "(byte list \<Rightarrow> nat \<Rightarrow> nat) \<Rightarrow> adv_vcom \<Rightarrow> adv_vcom" where
  "adv_uart_update_xmit lin v =
     (if ai_is_open (info v) \<noteq> 0
      then (if is_rb_empty (up_tx v) then adv_uart_xmit lin v else v)
      else v)"

subsection \<open>Receive: from the ring into the tty layer\<close>

fun recv_loop :: "'t tty_ops \<Rightarrow> nat \<Rightarrow> int \<Rightarrow> kring \<Rightarrow> 't \<Rightarrow> int \<times> kring \<times> 't" where
  "recv_loop ops 0 count rx t = (count, rx, t)"
| "recv_loop ops (Suc max_retry) count rx t =
     (if count > 0 then
        let rx_ll = get_rb_llength rx in
        case tty_insert_flip_string ops (rb_get rx rx_ll) t of (ret, t') \<Rightarrow>
          if ret > 0 then recv_loop ops max_retry (count - ret) (move_rb_head rx ret) t'
          else (count, rx, t')
      else (count, rx, t))"

definition adv_uart_recv_chars :: "'t tty_ops \<Rightarrow> adv_vcom \<Rightarrow> 't \<Rightarrow> adv_vcom \<times> 't" where
  "adv_uart_recv_chars ops v t =
     (if at_throttled (v_attr v) then (v, t)
      else if rb_status (up_rx v) AND ADV_RING_BUF_ENABLED = 0 then (v, t)
      else let rx_l = get_rb_length (up_rx v) in
        case recv_loop ops 3 rx_l (up_rx v) t of (count, rx, t') \<Rightarrow>
          (set_up_rx rx v, if count \<noteq> rx_l then tty_flip_buffer_push ops t' else t'))"

subsection \<open>Modem lines\<close>

definition adv_uart_ms :: "u32 \<Rightarrow> adv_vcom \<Rightarrow> u32 \<times> adv_vcom" where
  "adv_uart_ms status v =
     (let ms = at_mctrl (v_attr v); d = status XOR ms; ic = u_icount v;
          ic1 = (if d AND ADV_MS_CTS \<noteq> 0 then ic\<lparr>ic_cts := ic_cts ic + 1\<rparr> else ic);
          ic2 = (if d AND ADV_MS_DSR \<noteq> 0 then ic1\<lparr>ic_dsr := ic_dsr ic1 + 1\<rparr> else ic1);
          ic3 = (if d AND ADV_MS_CAR \<noteq> 0 then ic2\<lparr>ic_dcd := ic_dcd ic2 + 1\<rparr> else ic2);
          ic4 = (if d AND ADV_MS_RI \<noteq> 0 then ic3\<lparr>ic_rng := ic_rng ic3 + 1\<rparr> else ic3)
      in (status, v\<lparr>v_attr := (v_attr v)\<lparr>at_mctrl := status\<rparr>, u_icount := ic4\<rparr>))"

text \<open>The line bits of the kernel's termios interface.\<close>

abbreviation (input) TIOCM_DTR :: u32 where "TIOCM_DTR \<equiv> 0x002"
abbreviation (input) TIOCM_RTS :: u32 where "TIOCM_RTS \<equiv> 0x004"
abbreviation (input) TIOCM_CTS :: u32 where "TIOCM_CTS \<equiv> 0x020"
abbreviation (input) TIOCM_CAR :: u32 where "TIOCM_CAR \<equiv> 0x040"
abbreviation (input) TIOCM_RI :: u32 where "TIOCM_RI \<equiv> 0x080"
abbreviation (input) TIOCM_DSR :: u32 where "TIOCM_DSR \<equiv> 0x100"

definition adv_uart_get_mctrl :: "adv_vcom \<Rightarrow> u32" where
  "adv_uart_get_mctrl v =
     (let m = at_mctrl (v_attr v);
          s0 = 0;
          s1 = (if m AND ADV_MS_CTS \<noteq> 0 then s0 OR TIOCM_CTS else s0);
          s2 = (if m AND ADV_MS_DSR \<noteq> 0 then s1 OR TIOCM_DSR else s1);
          s3 = (if m AND ADV_MS_CAR \<noteq> 0 then s2 OR TIOCM_CAR else s2)
      in if m AND ADV_MS_RI \<noteq> 0 then s3 OR TIOCM_RI else s3)"

definition adv_uart_set_mctrl :: "u32 \<Rightarrow> adv_vcom \<Rightarrow> adv_vcom" where
  "adv_uart_set_mctrl mctrl v =
     (let s1 = (if mctrl AND TIOCM_RTS \<noteq> 0 then 0 OR ADV_MS_RTS else 0);
          s2 = (if mctrl AND TIOCM_DTR \<noteq> 0 then s1 OR ADV_MS_DTR else s1)
      in set_info (\<lambda>i. i\<lparr>ai_ms := s2\<rparr>) v)"

definition adv_uart_tx_empty :: "adv_vcom \<Rightarrow> u32" where
  "adv_uart_tx_empty v = (if is_rb_empty (up_tx v) then 0x01 else 0)"

subsection \<open>Starting and stopping\<close>

definition adv_uart_stop_tx :: "adv_vcom \<Rightarrow> adv_vcom" where
  "adv_uart_stop_tx v =
     set_up_tx ((up_tx v)\<lparr>rb_status := rb_status (up_tx v) AND NOT ADV_RING_BUF_ENABLED\<rparr>) v"

definition adv_uart_start_tx :: "(byte list \<Rightarrow> nat \<Rightarrow> nat) \<Rightarrow> adv_vcom \<Rightarrow> adv_vcom" where
  "adv_uart_start_tx lin v =
     adv_uart_xmit lin
       (set_up_tx ((up_tx v)\<lparr>rb_status := rb_status (up_tx v) OR ADV_RING_BUF_ENABLED\<rparr>) v)"

definition adv_uart_stop_rx :: "adv_vcom \<Rightarrow> adv_vcom" where
  "adv_uart_stop_rx v =
     set_up_rx ((up_rx v)\<lparr>rb_status := rb_status (up_rx v) AND NOT ADV_RING_BUF_ENABLED\<rparr>) v"

definition adv_uart_startup :: "adv_vcom \<Rightarrow> adv_vcom" where
  "adv_uart_startup v =
     (let v1 = set_info (\<lambda>i. i\<lparr>ai_is_open := 1\<rparr>) v;
          v2 = v1\<lparr>v_attr := (v_attr v1)\<lparr>at_throttled := False\<rparr>\<rparr>;
          v3 = set_up_rx ((up_rx v2)\<lparr>rb_status := rb_status (up_rx v2) OR ADV_RING_BUF_ENABLED\<rparr>) v2
      in set_up_tx ((up_tx v3)\<lparr>rb_status := rb_status (up_tx v3) OR ADV_RING_BUF_ENABLED\<rparr>) v3)"

definition adv_uart_shutdown :: "adv_vcom \<Rightarrow> adv_vcom" where
  "adv_uart_shutdown v = set_info (\<lambda>i. i\<lparr>ai_is_open := 0\<rparr>) v"

definition adv_uart_throttle :: "adv_vcom \<Rightarrow> adv_vcom" where
  "adv_uart_throttle v = v\<lparr>v_attr := (v_attr v)\<lparr>at_throttled := True\<rparr>\<rparr>"

definition adv_uart_unthrottle :: "'t tty_ops \<Rightarrow> adv_vcom \<Rightarrow> 't \<Rightarrow> adv_vcom \<times> 't" where
  "adv_uart_unthrottle ops v t =
     adv_uart_recv_chars ops (v\<lparr>v_attr := (v_attr v)\<lparr>at_throttled := False\<rparr>\<rparr>) t"

subsection \<open>Line settings\<close>

text \<open>
  The termios flags the driver reads (Linux, asm-generic), and the status bits of the serial
  core. \<open>baud\<close> stands for the result of \<^verbatim>\<open>uart_get_baud_rate(port, termios, old, 50, 921600)\<close>.
\<close>

record ktermios =
  c_cflag :: u32
  c_iflag :: u32

abbreviation (input) CSIZE :: u32 where "CSIZE \<equiv> 0x30"
abbreviation (input) CS5 :: u32 where "CS5 \<equiv> 0x00"
abbreviation (input) CS6 :: u32 where "CS6 \<equiv> 0x10"
abbreviation (input) CS7 :: u32 where "CS7 \<equiv> 0x20"
abbreviation (input) CSTOPB :: u32 where "CSTOPB \<equiv> 0x40"
abbreviation (input) PARENB :: u32 where "PARENB \<equiv> 0x100"
abbreviation (input) PARODD :: u32 where "PARODD \<equiv> 0x200"
abbreviation (input) CMSPAR :: u32 where "CMSPAR \<equiv> 0x40000000"
abbreviation (input) CRTSCTS :: u32 where "CRTSCTS \<equiv> 0x80000000"
abbreviation (input) IXOFF :: u32 where "IXOFF \<equiv> 0x1000"
abbreviation (input) UPSTAT_AUTORTS :: u32 where "UPSTAT_AUTORTS \<equiv> 0x4"
abbreviation (input) UPSTAT_AUTOCTS :: u32 where "UPSTAT_AUTOCTS \<equiv> 0x8"
abbreviation (input) UPSTAT_AUTOXOFF :: u32 where "UPSTAT_AUTOXOFF \<equiv> 0x10"

definition termios_byte :: "ktermios \<Rightarrow> int" where
  "termios_byte t =
     (let c = c_cflag t AND CSIZE in
      if c = CS5 then 5 else if c = CS6 then 6 else if c = CS7 then 7 else 8)"

definition termios_flow :: "ktermios \<Rightarrow> int" where
  "termios_flow t =
     (if c_cflag t AND CRTSCTS \<noteq> 0 then ADV_FLOW_RTSCTS
      else if c_iflag t AND IXOFF \<noteq> 0 then ADV_FLOW_XONXOFF else ADV_FLOW_NONE)"

definition termios_upstat :: "ktermios \<Rightarrow> u32 \<Rightarrow> u32" where
  "termios_upstat t s =
     (if c_cflag t AND CRTSCTS \<noteq> 0
      then ((s OR UPSTAT_AUTOCTS) OR UPSTAT_AUTORTS) AND NOT UPSTAT_AUTOXOFF
      else if c_iflag t AND IXOFF \<noteq> 0
      then ((s OR UPSTAT_AUTOXOFF) AND NOT UPSTAT_AUTOCTS) AND NOT UPSTAT_AUTORTS
      else ((s AND NOT UPSTAT_AUTOCTS) AND NOT UPSTAT_AUTORTS) AND NOT UPSTAT_AUTOXOFF)"

definition termios_pair :: "ktermios \<Rightarrow> int" where
  "termios_pair t =
     (let c = c_cflag t AND (PARODD OR CMSPAR OR PARENB) in
      if c = PARENB then ADV_PAIR_EVEN
      else if c = (PARODD OR PARENB) then ADV_PAIR_ODD
      else if c = (CMSPAR OR PARENB) then ADV_PAIR_SPACE
      else if c = (PARODD OR CMSPAR OR PARENB) then ADV_PAIR_MARK
      else ADV_PAIR_NONE)"

definition termios_stop :: "ktermios \<Rightarrow> int" where
  "termios_stop t = (if c_cflag t AND CSTOPB \<noteq> 0 then ADV_STOP_2 else ADV_STOP_1)"

definition adv_uart_set_termios :: "ktermios \<Rightarrow> int \<Rightarrow> adv_vcom \<Rightarrow> adv_vcom" where
  "adv_uart_set_termios t baud v =
     (set_info (\<lambda>i. i\<lparr>ai_baud := baud, ai_byte := termios_byte t, ai_flowctl := termios_flow t,
        ai_pair := termios_pair t, ai_stop := termios_stop t\<rparr>) v)
       \<lparr>u_status := termios_upstat t (u_status v)\<rparr>"

text \<open>The variant for kernels before 4.0 leaves the serial core's status alone.\<close>

definition adv_uart_set_termios_legacy :: "ktermios \<Rightarrow> int \<Rightarrow> adv_vcom \<Rightarrow> adv_vcom" where
  "adv_uart_set_termios_legacy t baud v =
     set_info (\<lambda>i. i\<lparr>ai_baud := baud, ai_byte := termios_byte t, ai_flowctl := termios_flow t,
        ai_pair := termios_pair t, ai_stop := termios_stop t\<rparr>) v"

subsection \<open>Lemmas on transmit\<close>

text \<open>What a transmit moves: as much of the fifo as the ring has room for.\<close>

definition xmit_count :: "kring \<Rightarrow> byte list \<Rightarrow> nat" where
  "xmit_count tx fifo = min (nat (get_rb_room tx)) (length fifo)"

definition same_ring :: "kring \<Rightarrow> kring \<Rightarrow> bool" where
  "same_ring a b \<longleftrightarrow> rb_status a = rb_status b \<and> rb_size a = rb_size b \<and>
     rb_begin a = rb_begin b \<and> rb_head a = rb_head b"

lemma same_ring_push: "same_ring (kr_push bs a) b = same_ring a b"
  by (simp add: same_ring_def kr_push_def)

lemma xmit_loop_spec:
  assumes lin: "lin_law lin" and "kr_inv tx"
  shows "\<exists>tx'. xmit_loop lin tx fifo cnt =
      (tx', drop (xmit_count tx fifo) fifo, cnt + of_nat (xmit_count tx fifo)) \<and>
    kr_inv tx' \<and> rb_contents tx' = rb_contents tx @ take (xmit_count tx fifo) fifo \<and>
    same_ring tx' tx"
  using assms(2)
proof (induction fifo arbitrary: tx cnt rule: length_induct)
  case (1 fifo)
  have ri: "rb_inv tx" using "1.prems" by (simp add: kr_inv_def)
  show ?case
  proof (cases "fifo = [] \<or> get_rb_room tx = 0")
    case True
    then have "fifo = [] \<or> get_rb_lroom tx = 0"
      using rb_length_bounds(4,5) [OF ri] by auto
    with True "1.prems" show ?thesis
      by (subst xmit_loop.simps) (auto simp: xmit_count_def same_ring_def)
  next
    case False
    then have lr: "0 < get_rb_lroom tx"
      using rb_lroom_pos [OF ri] rb_length_bounds(3) [OF ri] by simp
    define m where "m = lin fifo (nat (get_rb_lroom tx))"
    define tx1 where "tx1 = kr_push (take m fifo) tx"
    have m: "m \<le> nat (get_rb_lroom tx)" "m \<le> length fifo" "0 < m"
      using lin False lr by (auto simp: lin_law_def m_def)
    then have len: "length (take m fifo) \<le> nat (get_rb_lroom tx)" by simp
    note push = kprod.push_inv [OF "1.prems" len] kprod.push_contents [OF "1.prems" len]
      kprod.push_room [OF "1.prems" len]
    have step: "xmit_loop lin tx fifo cnt = xmit_loop lin tx1 (drop m fifo) (cnt + of_nat m)"
      using False lr m
      by (subst xmit_loop.simps) (simp add: tx1_def kr_push_def Let_def m_def [symmetric] min_absorb2)
    have cnt: "xmit_count tx1 (drop m fifo) + m = xmit_count tx fifo"
      using push(3) m kprod.lroom_le [OF "1.prems"]
      by (simp add: xmit_count_def tx1_def min_diff)
    have "length (drop m fifo) < length fifo" using m by simp
    from "1.IH" [rule_format, OF this, of tx1 "cnt + of_nat m"] push(1)
    obtain tx' where tx': "xmit_loop lin tx1 (drop m fifo) (cnt + of_nat m) =
        (tx', drop (xmit_count tx1 (drop m fifo)) (drop m fifo),
         cnt + of_nat m + of_nat (xmit_count tx1 (drop m fifo)))"
      "kr_inv tx'" "same_ring tx' tx1"
      "rb_contents tx' = rb_contents tx1 @ take (xmit_count tx1 (drop m fifo)) (drop m fifo)"
      unfolding tx1_def [symmetric] by blast
    have "take m fifo @ take k (drop m fifo) = take (k + m) fifo" for k
      using take_add [of m k fifo] by (simp add: add.commute)
    then have "rb_contents tx' = rb_contents tx @ take (xmit_count tx fifo) fifo"
      using push(2) tx'(4) by (simp add: tx1_def [symmetric] cnt)
    moreover have "same_ring tx' tx"
      using tx'(3) by (simp add: tx1_def same_ring_def kr_push_def)
    moreover have "xmit_loop lin tx fifo cnt =
        (tx', drop (xmit_count tx fifo) fifo, cnt + of_nat (xmit_count tx fifo))"
      unfolding step tx'(1) cnt [symmetric] by (simp add: add.assoc add.commute)
    ultimately show ?thesis using tx'(2) by blast
  qed
qed

lemma rb_room_contents:
  "kr_inv b \<Longrightarrow> nat (get_rb_room b) = nat (rb_size b) - 1 - length (rb_contents b)"
  using rb_length_bounds [of b] by (auto simp: kr_inv_def get_rb_room_def)

lemma adv_uart_xmit_spec:
  assumes "lin_law lin" and "kr_inv (v_rx v)"
  defines "n \<equiv> xmit_count (v_rx v) (u_fifo v)"
  shows "kr_inv (v_rx (adv_uart_xmit lin v))"
    and "rb_contents (v_rx (adv_uart_xmit lin v)) = rb_contents (v_rx v) @ take n (u_fifo v)"
    and "u_fifo (adv_uart_xmit lin v) = drop n (u_fifo v)"
    and "same_ring (v_rx (adv_uart_xmit lin v)) (v_rx v)"
    and "ic_tx (u_icount (adv_uart_xmit lin v)) = ic_tx (u_icount v) + of_nat n"
    and "v_attr (adv_uart_xmit lin v) = v_attr v" "v_tx (adv_uart_xmit lin v) = v_tx v"
    and "u_status (adv_uart_xmit lin v) = u_status v"
proof -
  obtain tx' where tx': "xmit_loop lin (v_rx v) (u_fifo v) (ic_tx (u_icount v)) =
      (tx', drop n (u_fifo v), ic_tx (u_icount v) + of_nat n)" "kr_inv tx'"
    "rb_contents tx' = rb_contents (v_rx v) @ take n (u_fifo v)" "same_ring tx' (v_rx v)"
    using xmit_loop_spec [OF assms(1,2)] unfolding n_def by blast
  have full: "get_rb_room (v_rx v) = 0 \<Longrightarrow> n = 0"
    by (simp add: n_def xmit_count_def)
  show "kr_inv (v_rx (adv_uart_xmit lin v))"
    "rb_contents (v_rx (adv_uart_xmit lin v)) = rb_contents (v_rx v) @ take n (u_fifo v)"
    "u_fifo (adv_uart_xmit lin v) = drop n (u_fifo v)"
    "same_ring (v_rx (adv_uart_xmit lin v)) (v_rx v)"
    "ic_tx (u_icount (adv_uart_xmit lin v)) = ic_tx (u_icount v) + of_nat n"
    "v_attr (adv_uart_xmit lin v) = v_attr v" "v_tx (adv_uart_xmit lin v) = v_tx v"
    "u_status (adv_uart_xmit lin v) = u_status v"
    using tx' assms(2) full
    by (auto simp: adv_uart_xmit_def up_defs same_ring_def)
qed

subsection \<open>Lemmas on receive\<close>

lemma recv_loop_spec:
  assumes law: "tty_law ops received" and "kr_ready rx"
    and "recv_loop ops k (int (length (rb_contents rx))) rx t = (count, rx', t')"
  shows "\<exists>n \<le> length (rb_contents rx). count = int (length (rb_contents rx) - n) \<and>
    rb_contents rx' = drop n (rb_contents rx) \<and>
    received t' = received t @ take n (rb_contents rx) \<and> kr_ready rx' \<and>
    rb_status rx' = rb_status rx \<and> rb_size rx' = rb_size rx \<and> rb_begin rx' = rb_begin rx \<and>
    rb_tail rx' = rb_tail rx"
  using assms(2,3)
proof (induction k arbitrary: rx t)
  case 0
  then show ?case by (intro exI [of _ 0]) (auto simp del: length_rb_contents)
next
  case (Suc k)
  let ?c = "rb_contents rx" and ?ll = "get_rb_llength rx"
  have inv: "kr_inv rx" "rb_inv rx" "\<not> rb_clean rx"
    using Suc.prems(1) by (auto simp: kr_ready_def kr_inv_def)
  show ?case
  proof (cases "?c = []")
    case True
    with Suc.prems show ?thesis
      by (intro exI [of _ 0]) (auto simp del: length_rb_contents)
  next
    case False
    obtain ret t1 where ins: "tty_insert_flip_string ops (rb_get rx ?ll) t = (ret, t1)"
      by fastforce
    have ll: "0 \<le> ?ll" "nat ?ll \<le> length ?c" using rb_length_bounds [OF inv(2)] by auto
    have get: "rb_get rx ?ll = take (nat ?ll) ?c"
      using ring.peek_contents [OF Suc.prems(1), of "nat ?ll"] ll by simp
    have ret: "0 \<le> ret" "ret \<le> ?ll" "received t1 = received t @ take (nat ret) ?c"
      using law ins ll unfolding tty_law_def get
      by (smt (verit, best) fst_conv snd_conv length_take min.absorb2 int_nat_eq nat_mono take_take)+
    show ?thesis
    proof (cases "ret > 0")
      case True
      let ?rx = "move_rb_head rx ret"
      have rn: "nat ret \<le> nat ?ll" "ret = int (nat ret)" using ret by auto
      have pop: "kr_ready ?rx" "rb_contents ?rx = drop (nat ret) ?c"
        using ring.pop_inv [OF Suc.prems(1) rn(1)] ring.pop_contents [OF Suc.prems(1) rn(1)] rn(2)
        by simp_all
      have rl: "nat ret \<le> length ?c" using rn(1) ll(2) by linarith
      have "recv_loop ops k (int (length (rb_contents ?rx))) ?rx t1 = (count, rx', t')"
        using Suc.prems(2) False True ins ret(1) rl unfolding pop(2)
        by (simp add: of_nat_diff del: length_rb_contents)
      from Suc.IH [OF pop(1) this] obtain n where n: "n \<le> length ?c - nat ret"
        "count = int (length ?c - nat ret - n)" "rb_contents rx' = drop n (drop (nat ret) ?c)"
        "received t' = received t1 @ take n (drop (nat ret) ?c)" "kr_ready rx'"
        and fr: "rb_status rx' = rb_status ?rx" "rb_size rx' = rb_size ?rx"
        "rb_begin rx' = rb_begin ?rx" "rb_tail rx' = rb_tail ?rx"
        unfolding pop(2) by (auto simp del: length_rb_contents)
      have st: "rb_status ?rx = rb_status rx"
        using inv(3) by (simp add: move_rb_head_def rb_clean_def)
      show ?thesis
        using n fr rl ret(3) st
        by (intro exI [of _ "nat ret + n"])
          (simp add: take_add add.commute [of n] del: length_rb_contents)
    next
      case False
      then have "ret = 0" using ret by simp
      with Suc.prems \<open>?c \<noteq> []\<close> ins ret show ?thesis
        by (intro exI [of _ 0]) (auto simp del: length_rb_contents)
    qed
  qed
qed

lemma adv_uart_recv_chars_spec:
  assumes law: "tty_law ops received" and ready: "kr_ready (v_tx v)"
    and run: "adv_uart_recv_chars ops v t = (v', t')"
  shows "\<exists>n \<le> length (rb_contents (v_tx v)).
    rb_contents (v_tx v') = drop n (rb_contents (v_tx v)) \<and>
    received t' = received t @ take n (rb_contents (v_tx v)) \<and> kr_ready (v_tx v') \<and>
    rb_status (v_tx v') = rb_status (v_tx v) \<and> rb_size (v_tx v') = rb_size (v_tx v) \<and>
    rb_begin (v_tx v') = rb_begin (v_tx v) \<and> rb_tail (v_tx v') = rb_tail (v_tx v)"
proof (cases "at_throttled (v_attr v) \<or> rb_status (v_tx v) AND ADV_RING_BUF_ENABLED = 0")
  case True
  with run have "v' = v" "t' = t"
    unfolding adv_uart_recv_chars_def up_defs by (auto split: if_splits)
  with ready show ?thesis by (intro exI [of _ 0]) simp
next
  case False
  obtain count rx t1 where loop: "recv_loop ops 3 (get_rb_length (v_tx v)) (v_tx v) t = (count, rx, t1)"
    by (metis prod_cases3)
  have "get_rb_length (v_tx v) = int (length (rb_contents (v_tx v)))"
    using ready rb_length_bounds(1) [of "v_tx v"] by (simp add: kr_ready_def kr_inv_def)
  from recv_loop_spec [OF law ready loop [unfolded this]]
  show ?thesis
    using False run loop law
    by (auto simp: adv_uart_recv_chars_def up_defs tty_law_def simp del: length_rb_contents
        split: if_splits)
qed

lemma adv_uart_recv_chars_frame:
  assumes "adv_uart_recv_chars ops v t = (v', t')"
  shows "v_rx v' = v_rx v" "v_attr v' = v_attr v" "u_fifo v' = u_fifo v"
    "u_icount v' = u_icount v" "u_status v' = u_status v"
  using assms by (auto simp: adv_uart_recv_chars_def up_defs Let_def split: if_splits prod.splits)

text \<open>Three rounds are enough when the tty layer takes what it is offered: a ring has two
  linear segments.\<close>

definition tty_takes_all :: "'t tty_ops \<Rightarrow> bool" where
  "tty_takes_all ops \<longleftrightarrow>
     (\<forall>bs t. fst (tty_insert_flip_string ops bs t) = int (length bs))"

lemma recv_round:
  assumes "tty_takes_all ops" and "kr_ready rx" and "rb_contents rx \<noteq> []"
  shows "\<exists>t'. recv_loop ops (Suc k) (get_rb_length rx) rx t =
    recv_loop ops k (get_rb_length rx - get_rb_llength rx) (move_rb_head rx (get_rb_llength rx)) t'"
proof -
  have inv: "kr_inv rx" "rb_inv rx" using assms(2) by (auto simp: kr_ready_def kr_inv_def)
  have pos: "0 < get_rb_llength rx" "0 < get_rb_length rx"
    using rb_llength_pos [OF inv(2)] rb_contents_Nil_iff [OF inv(2)] assms(3)
      rb_length_bounds(7) [OF inv(2)] by auto
  obtain t' where "tty_insert_flip_string ops (rb_get rx (get_rb_llength rx)) t = (get_rb_llength rx, t')"
    using assms(1) inv pos by (metis length_rb_get tty_takes_all_def order_refl int_nat_eq
        order_less_imp_le prod.collapse)
  with pos show ?thesis by (intro exI [of _ t']) (simp add: Let_def)
qed

lemma recv_loop_drains:
  assumes all: "tty_takes_all ops" and ready: "kr_ready rx"
    and run: "recv_loop ops 3 (get_rb_length rx) rx t = (count, rx', t')"
  shows "rb_contents rx' = []"
proof (cases "get_rb_length rx = 0")
  case True
  with run show ?thesis by (auto simp: eval_nat_numeral rb_contents_def)
next
  case False
  let ?rx1 = "move_rb_head rx (get_rb_llength rx)"
  have inv: "rb_inv rx" "kr_inv rx" "\<not> rb_clean rx" using ready by (auto simp: kr_ready_def kr_inv_def)
  note b = rb_length_bounds [OF inv(1)]
  have ne: "rb_contents rx \<noteq> []" using False b(1) by (simp add: rb_contents_def)
  from recv_round [OF all ready ne] run
  obtain t1 where r1: "recv_loop ops 2 (get_rb_length rx - get_rb_llength rx) ?rx1 t1 = (count, rx', t')"
    by (metis eval_nat_numeral(3) numeral_2_eq_2 Suc_1)
  have l1: "get_rb_length ?rx1 = get_rb_length rx - get_rb_llength rx"
    using rb_length_move_head [OF inv(1) b(6,7) inv(3)] .
  have ready1: "kr_ready ?rx1"
    using ring.pop_inv [OF ready, of "nat (get_rb_llength rx)"] b by simp
  show ?thesis
  proof (cases "get_rb_length ?rx1 = 0")
    case True
    with r1 l1 show ?thesis by (auto simp: eval_nat_numeral rb_contents_def)
  next
    case False
    have ne1: "rb_contents ?rx1 \<noteq> []"
      using False rb_length_bounds(1) [of ?rx1] ready1
      by (simp add: rb_contents_def kr_ready_def kr_inv_def)
    have ll: "get_rb_llength ?rx1 = get_rb_length ?rx1"
      using rb_pop_wrap [OF inv(2,3)] l1 False b(7) by simp
    from recv_round [OF all ready1 ne1, of 1] r1
    obtain t2 where "recv_loop ops 1 0 (move_rb_head ?rx1 (get_rb_length ?rx1)) t2 = (count, rx', t')"
      unfolding ll l1 [symmetric] by (metis numeral_2_eq_2 One_nat_def diff_self)
    then have "rx' = move_rb_head ?rx1 (get_rb_length ?rx1)" by simp
    moreover have "int (nat (get_rb_length ?rx1)) = get_rb_length ?rx1"
      using l1 b(7) by simp
    ultimately show ?thesis
      using rb_consume [of ?rx1 "nat (get_rb_length ?rx1)"] ready1 by (simp add: kr_ready_def)
  qed
qed

subsection \<open>Lemmas on flags\<close>

lemma and_exp_word: "x AND 2 ^ n = (if bit x n then 2 ^ n else 0)" for x :: "'a::len word"
  by (rule bit_word_eqI) (auto simp: bit_simps)

lemma flag_bit: "m = 2 ^ n \<Longrightarrow> x AND m = (if bit x n then m else 0)" for x m :: "'a::len word"
  by (simp add: and_exp_word)

lemma flag_bits:
  fixes x :: u32
  shows "x AND 0x002 = (if bit x 1 then 0x002 else 0)"
    "x AND 0x004 = (if bit x 2 then 0x004 else 0)"
    "x AND 0x010 = (if bit x 4 then 0x010 else 0)"
    "x AND 0x020 = (if bit x 5 then 0x020 else 0)"
    "x AND 0x040 = (if bit x 6 then 0x040 else 0)"
    "x AND 0x080 = (if bit x 7 then 0x080 else 0)"
    "x AND 0x100 = (if bit x 8 then 0x100 else 0)"
    "x AND 0x200 = (if bit x 9 then 0x200 else 0)"
    "x AND 0x1000 = (if bit x 12 then 0x1000 else 0)"
    "x AND 0x40000000 = (if bit x 30 then 0x40000000 else 0)"
    "x AND 0x80000000 = (if bit x 31 then 0x80000000 else 0)"
  by (rule flag_bit, simp)+

lemma csize_bits:
  "c AND 0x30 = (if bit c 4 then 0x10 else 0) OR (if bit c 5 then 0x20 else 0)" for c :: u32
  using bit.conj_disj_distrib [of c "0x10" "0x20"] by (simp add: flag_bits)

lemma parity_bits:
  "c AND (0x200 OR 0x40000000 OR 0x100) =
     (if bit c 9 then 0x200 else 0) OR (if bit c 30 then 0x40000000 else 0) OR
     (if bit c 8 then 0x100 else 0)" for c :: u32
  by (simp only: bit.conj_disj_distrib flag_bits)

text \<open>
  C34. Setting the line: the attributes the daemon will read hold exactly the requested baud
  rate, data bits, stop bits, parity and flow control, decoded from the termios flags (hardware
  flow control wins over software flow control), and every value is one of the protocol's.
\<close>

theorem set_termios_decodes:
  "let i = info (adv_uart_set_termios t baud v); c = c_cflag t in
     ai_baud i = baud \<and>
     ai_byte i = 5 + (if bit c 4 then 1 else 0) + (if bit c 5 then 2 else 0) \<and>
     ai_stop i = (if bit c 6 then ADV_STOP_2 else ADV_STOP_1) \<and>
     ai_pair i = (if \<not> bit c 8 then ADV_PAIR_NONE
                  else if bit c 9 then (if bit c 30 then ADV_PAIR_MARK else ADV_PAIR_ODD)
                  else if bit c 30 then ADV_PAIR_SPACE else ADV_PAIR_EVEN) \<and>
     ai_flowctl i = (if bit c 31 then ADV_FLOW_RTSCTS
                     else if bit (c_iflag t) 12 then ADV_FLOW_XONXOFF else ADV_FLOW_NONE) \<and>
     ai_ms i = ai_ms (info v) \<and> ai_is_open i = ai_is_open (info v)"
  unfolding Let_def
proof (intro conjI)
  let ?i = "info (adv_uart_set_termios t baud v)"
  show "ai_byte ?i = 5 + (if bit (c_cflag t) 4 then 1 else 0) + (if bit (c_cflag t) 5 then 2 else 0)"
    by (simp add: adv_uart_set_termios_def set_info_def termios_byte_def csize_bits)
  show "ai_pair ?i = (if \<not> bit (c_cflag t) 8 then ADV_PAIR_NONE
      else if bit (c_cflag t) 9 then (if bit (c_cflag t) 30 then ADV_PAIR_MARK else ADV_PAIR_ODD)
      else if bit (c_cflag t) 30 then ADV_PAIR_SPACE else ADV_PAIR_EVEN)"
    unfolding adv_uart_set_termios_def set_info_def termios_pair_def parity_bits
    by (simp add: Let_def)
qed (simp_all add: adv_uart_set_termios_def set_info_def termios_flow_def termios_stop_def
    flag_bits)

text \<open>
  The set_termios of kernels before 4.0 gives the daemon the same attributes as the current
  one; the two differ only in the flow-control status bits of the serial core, of which the
  current one sets exactly those that match the flow control it reports.
\<close>

theorem set_termios_legacy_equiv:
  "adv_uart_set_termios t baud v =
     (adv_uart_set_termios_legacy t baud v)\<lparr>u_status := termios_upstat t (u_status v)\<rparr> \<and>
   (let s = u_status (adv_uart_set_termios t baud v);
        f = ai_flowctl (info (adv_uart_set_termios_legacy t baud v))
    in (bit s 2 \<longleftrightarrow> f = ADV_FLOW_RTSCTS) \<and> (bit s 3 \<longleftrightarrow> f = ADV_FLOW_RTSCTS) \<and>
       (bit s 4 \<longleftrightarrow> f = ADV_FLOW_XONXOFF))"
  by (simp add: adv_uart_set_termios_def adv_uart_set_termios_legacy_def set_info_def
      termios_upstat_def termios_flow_def adv_const_defs bit_simps)

lemma bit_flag: "m = 2 ^ n \<Longrightarrow> n < 32 \<Longrightarrow> bit (m :: u32) i = (i = n)"
  by (auto simp: bit_exp_iff)

lemma bit_flags:
  "bit (0x002 :: u32) i = (i = 1)" "bit (0x004 :: u32) i = (i = 2)"
  "bit (0x020 :: u32) i = (i = 5)" "bit (0x040 :: u32) i = (i = 6)"
  "bit (0x080 :: u32) i = (i = 7)" "bit (0x100 :: u32) i = (i = 8)"
  by (rule bit_flag, simp, simp)+

lemma adv_uart_ms_eq:
  "adv_uart_ms s v = (s, v\<lparr>v_attr := (v_attr v)\<lparr>at_mctrl := s\<rparr>, u_icount := (u_icount v)\<lparr>
     ic_cts := ic_cts (u_icount v) + of_bool (bit s 4 \<noteq> bit (at_mctrl (v_attr v)) 4),
     ic_dsr := ic_dsr (u_icount v) + of_bool (bit s 5 \<noteq> bit (at_mctrl (v_attr v)) 5),
     ic_dcd := ic_dcd (u_icount v) + of_bool (bit s 7 \<noteq> bit (at_mctrl (v_attr v)) 7),
     ic_rng := ic_rng (u_icount v) + of_bool (bit s 6 \<noteq> bit (at_mctrl (v_attr v)) 6)\<rparr>\<rparr>)"
  unfolding adv_uart_ms_def adv_ms_defs flag_bits Let_def bit_xor_iff
  by (cases "bit s 4 = bit (at_mctrl (v_attr v)) 4"; cases "bit s 5 = bit (at_mctrl (v_attr v)) 5";
      cases "bit s 6 = bit (at_mctrl (v_attr v)) 6"; cases "bit s 7 = bit (at_mctrl (v_attr v)) 7")
    simp_all

lemma adv_uart_set_mctrl_eq:
  "ai_ms (info (adv_uart_set_mctrl m v)) =
     (if bit m 2 then 0x004 else 0) OR (if bit m 1 then 0x002 else 0)"
  unfolding adv_uart_set_mctrl_def set_info_def adv_ms_defs flag_bits Let_def by simp

lemma adv_uart_get_mctrl_eq:
  "adv_uart_get_mctrl v =
     (if bit (at_mctrl (v_attr v)) 4 then 0x020 else 0) OR
     (if bit (at_mctrl (v_attr v)) 5 then 0x100 else 0) OR
     (if bit (at_mctrl (v_attr v)) 7 then 0x040 else 0) OR
     (if bit (at_mctrl (v_attr v)) 6 then 0x080 else 0)"
  unfolding adv_uart_get_mctrl_def adv_ms_defs flag_bits Let_def
  by (cases "bit (at_mctrl (v_attr v)) 4"; cases "bit (at_mctrl (v_attr v)) 5";
      cases "bit (at_mctrl (v_attr v)) 6"; cases "bit (at_mctrl (v_attr v)) 7") simp_all

text \<open>
  Modem lines: the tty layer's RTS and DTR requests reach the daemon as the protocol's RTS
  and DTR bits and nothing else, and the tty layer reads CTS, DSR, carrier and ring exactly as
  the daemon last reported them, each change counted once.
\<close>

lemma modem_lines_exact:
  "(bit (ai_ms (info (adv_uart_set_mctrl m v))) i \<longleftrightarrow> i = 1 \<and> bit m 1 \<or> i = 2 \<and> bit m 2) \<and>
   (bit (adv_uart_get_mctrl (snd (adv_uart_ms s v))) i \<longleftrightarrow>
      i = 5 \<and> bit s 4 \<or> i = 8 \<and> bit s 5 \<or> i = 6 \<and> bit s 7 \<or> i = 7 \<and> bit s 6) \<and>
   (let ic = u_icount v; ic' = u_icount (snd (adv_uart_ms s v)); old = at_mctrl (v_attr v) in
      ic_cts ic' = ic_cts ic + of_bool (bit s 4 \<noteq> bit old 4) \<and>
      ic_dsr ic' = ic_dsr ic + of_bool (bit s 5 \<noteq> bit old 5) \<and>
      ic_rng ic' = ic_rng ic + of_bool (bit s 6 \<noteq> bit old 6) \<and>
      ic_dcd ic' = ic_dcd ic + of_bool (bit s 7 \<noteq> bit old 7) \<and> ic_tx ic' = ic_tx ic)"
proof (intro conjI)
  show "bit (ai_ms (info (adv_uart_set_mctrl m v))) i \<longleftrightarrow> i = 1 \<and> bit m 1 \<or> i = 2 \<and> bit m 2"
    by (simp add: adv_uart_set_mctrl_eq bit_or_iff bit_flags del: bit_numeral_word_iff) blast
  show "bit (adv_uart_get_mctrl (snd (adv_uart_ms s v))) i \<longleftrightarrow>
      i = 5 \<and> bit s 4 \<or> i = 8 \<and> bit s 5 \<or> i = 6 \<and> bit s 7 \<or> i = 7 \<and> bit s 6"
    by (simp add: adv_uart_get_mctrl_eq adv_uart_ms_eq bit_or_iff bit_flags
        del: bit_numeral_word_iff)
qed (simp add: adv_uart_ms_eq)

subsection \<open>Sample instances\<close>

text \<open>
  A tty layer that takes at most three bytes per insert, a fifo whose segments have at most two
  bytes, and a port with small rings, one of them wrapped around.
\<close>

definition sample_tty :: "byte list tty_ops" where
  "sample_tty = \<lparr>tty_insert_flip_string = (\<lambda>bs t. (int (min 3 (length bs)), t @ take 3 bs)),
     tty_flip_buffer_push = (\<lambda>t. t)\<rparr>"

definition sample_lin :: "byte list \<Rightarrow> nat \<Rightarrow> nat" where
  "sample_lin q n = min 2 (min (length q) n)"

lemma sample_tty_law: "tty_law sample_tty (\<lambda>t. t)"
  by (auto simp: tty_law_def sample_tty_def min_def)

lemma sample_lin_law: "lin_law sample_lin"
  by (auto simp: lin_law_def sample_lin_def)

definition sample_ring :: "int \<Rightarrow> int \<Rightarrow> byte list \<Rightarrow> kring" where
  "sample_ring h t d = \<lparr>rb_head = h, rb_tail = t, rb_begin = 0, rb_size = int (length d),
     rb_status = ADV_RING_BUF_ENABLED, rb_data = d\<rparr>"

definition sample_vcom :: "kring \<Rightarrow> kring \<Rightarrow> byte list \<Rightarrow> adv_vcom" where
  "sample_vcom tx rx fifo = \<lparr>v_attr = \<lparr>at_attr = zero_port_info, at_mctrl = 0, at_newbie = True,
     at_index = 0, at_throttled = False, at_size = 4096, at_begin = 8192, at_usr_ptr = 0,
     at_data = []\<rparr>, v_tx = tx, v_rx = rx,
     u_icount = \<lparr>ic_cts = 0, ic_dsr = 0, ic_dcd = 0, ic_rng = 0, ic_tx = 0\<rparr>, u_status = 0,
     u_fifo = fifo\<rparr>"

lemmas sample_defs = sample_tty_def sample_lin_def sample_ring_def sample_vcom_def

subsection \<open>Properties of the data path\<close>

text \<open>
  C8. Transmit: whatever linear segments the tty fifo offers, one call of adv_uart_xmit appends
  to the ring exactly the first min(room, length) bytes of the fifo, in order, removes exactly
  those from the fifo and adds their number to the transmit counter; it touches nothing else.
\<close>

theorem uart_xmit_moves_prefix:
  assumes "lin_law lin" and "kr_inv (v_rx v)"
  shows "let n = min (nat (get_rb_room (v_rx v))) (length (u_fifo v)); v' = adv_uart_xmit lin v in
    kr_inv (v_rx v') \<and> rb_contents (v_rx v') = rb_contents (v_rx v) @ take n (u_fifo v) \<and>
    u_fifo v' = drop n (u_fifo v) \<and>
    ic_tx (u_icount v') = ic_tx (u_icount v) + of_nat n \<and>
    rb_status (v_rx v') = rb_status (v_rx v) \<and> rb_head (v_rx v') = rb_head (v_rx v) \<and>
    v_attr v' = v_attr v \<and> v_tx v' = v_tx v \<and> u_status v' = u_status v"
  using adv_uart_xmit_spec [OF assms] by (simp add: xmit_count_def same_ring_def Let_def)

lemma uart_xmit_moves_prefix_witness:
  "rb_contents (v_rx (adv_uart_xmit sample_lin
      (sample_vcom (sample_ring 0 0 [0]) (sample_ring 2 3 [9, 9, 7, 9, 9]) [1, 2, 3, 4, 5])))
    = [7, 1, 2, 3]"
proof -
  let ?v = "sample_vcom (sample_ring 0 0 [0]) (sample_ring 2 3 [9, 9, 7, 9, 9]) [1, 2, 3, 4, 5]"
  have "kr_inv (v_rx ?v)" by (simp add: sample_defs kr_inv_def rb_inv_def)
  moreover have "rb_contents (v_rx ?v) = [7]" "get_rb_room (v_rx ?v) = 3"
    "u_fifo ?v = [1, 2, 3, 4, 5]"
    by (simp_all add: sample_defs rb_contents_def rb_query_defs)
  ultimately show ?thesis
    using uart_xmit_moves_prefix [OF sample_lin_law, of ?v] by (simp add: Let_def)
qed

text \<open>
  Receive: if the ring has no pending clean request, one call of adv_uart_recv_chars hands
  the tty layer a prefix of the ring in order and removes exactly that prefix, whatever part of
  each offer the tty layer takes: no byte is lost, repeated or reordered.
\<close>

lemma uart_recv_in_order:
  assumes "tty_law ops received" and "kr_ready (v_tx v)"
    and "adv_uart_recv_chars ops v t = (v', t')"
  shows "received t' @ rb_contents (v_tx v') = received t @ rb_contents (v_tx v) \<and>
    length (received t) \<le> length (received t') \<and> kr_ready (v_tx v') \<and>
    v_rx v' = v_rx v \<and> v_attr v' = v_attr v \<and> u_fifo v' = u_fifo v"
  using adv_uart_recv_chars_spec [OF assms] adv_uart_recv_chars_frame [OF assms(3)]
  by (auto simp del: length_rb_contents)

lemma uart_recv_in_order_witness:
  "\<exists>v' t'. adv_uart_recv_chars sample_tty
      (sample_vcom (sample_ring 3 2 [3, 4, 9, 1, 2]) (sample_ring 0 0 [0]) []) [5] = (v', t') \<and>
    t' @ rb_contents (v_tx v') = [5, 1, 2, 3, 4]"
proof -
  let ?v = "sample_vcom (sample_ring 3 2 [3, 4, 9, 1, 2]) (sample_ring 0 0 [0]) []"
  have "kr_ready (v_tx ?v)"
    by (simp add: sample_defs kr_ready_def kr_inv_def rb_inv_def rb_clean_def
        ADV_RING_BUF_ENABLED_def ADV_RING_BUF_CLEAN_def)
  moreover have "rb_contents (v_tx ?v) = [1, 2, 3, 4]"
    by (simp add: sample_defs rb_contents_def rb_query_defs upt_rec)
  moreover obtain v' t' where "adv_uart_recv_chars sample_tty ?v [5] = (v', t')" by fastforce
  ultimately show ?thesis using uart_recv_in_order [OF sample_tty_law, of ?v "[5]" v' t'] by simp
qed

text \<open>
  C9. Receive is complete: when the port is enabled and not throttled and the tty layer takes
  every byte it is offered, one call empties the ring; the three attempts of the loop are enough
  because a ring has at most two linear segments.
\<close>

theorem uart_recv_drains:
  assumes "tty_law ops received" and "tty_takes_all ops" and "kr_ready (v_tx v)"
    and "\<not> at_throttled (v_attr v)" and "rb_status (v_tx v) AND ADV_RING_BUF_ENABLED \<noteq> 0"
    and "adv_uart_recv_chars ops v t = (v', t')"
  shows "is_rb_empty (v_tx v') \<and> received t' = received t @ rb_contents (v_tx v)"
proof -
  obtain count rx t1 where loop: "recv_loop ops 3 (get_rb_length (v_tx v)) (v_tx v) t = (count, rx, t1)"
    by (metis prod_cases3)
  then have "v_tx v' = rx"
    using assms(4-6) unfolding adv_uart_recv_chars_def up_defs by (auto simp: Let_def)
  then have "rb_contents (v_tx v') = []"
    using recv_loop_drains [OF assms(2,3) loop] by simp
  moreover from this have "is_rb_empty (v_tx v')"
    using rb_contents_Nil_iff adv_uart_recv_chars_spec [OF assms(1,3,6)]
    by (auto simp: kr_ready_def kr_inv_def)
  ultimately show ?thesis
    using adv_uart_recv_chars_spec [OF assms(1,3,6)] by (auto simp del: length_rb_contents)
qed

definition sample_tty_all :: "byte list tty_ops" where
  "sample_tty_all = \<lparr>tty_insert_flip_string = (\<lambda>bs t. (int (length bs), t @ bs)),
     tty_flip_buffer_push = (\<lambda>t. t)\<rparr>"

lemma uart_recv_drains_witness:
  "snd (adv_uart_recv_chars sample_tty_all
      (sample_vcom (sample_ring 3 2 [3, 4, 9, 1, 2]) (sample_ring 0 0 [0]) []) [5]) = [5, 1, 2, 3, 4]"
proof -
  let ?v = "sample_vcom (sample_ring 3 2 [3, 4, 9, 1, 2]) (sample_ring 0 0 [0]) []"
  have "tty_law sample_tty_all (\<lambda>t. t)" "tty_takes_all sample_tty_all"
    by (auto simp: tty_law_def tty_takes_all_def sample_tty_all_def)
  moreover have "kr_ready (v_tx ?v)" "\<not> at_throttled (v_attr ?v)"
    "rb_status (v_tx ?v) AND ADV_RING_BUF_ENABLED \<noteq> 0"
    by (simp_all add: sample_defs kr_ready_def kr_inv_def rb_inv_def rb_clean_def
        ADV_RING_BUF_ENABLED_def ADV_RING_BUF_CLEAN_def)
  moreover have "rb_contents (v_tx ?v) = [1, 2, 3, 4]"
    by (simp add: sample_defs rb_contents_def rb_query_defs upt_rec)
  ultimately show ?thesis
    using uart_recv_drains [of sample_tty_all "\<lambda>t. t" ?v "[5]"]
    by (metis append_Cons append_Nil prod.collapse)
qed

end
