(* ===== verification/Driver_Main.thy ===== *)
theory Driver_Main
  imports Driver_Uart
begin

text \<open>
  The proc-file half of the kernel driver: driver/adv_main.c, driver/adv_mmap.c, the command
  numbers of driver/advioctl.h and \<open>flush_attr_info\<close> of driver/advvcom.h. One ioctl is one
  atomic state change of the port; user memory is a parameter (whether the address range is
  valid, whether a write faults, what a read finds). The step relation \<open>drv_step\<close> collects every
  way the state of a port changes: the tty layer's calls, the ioctls of the daemon and the
  daemon's stores into the mapped pages. \<open>drv_inv\<close> holds in every reachable state.
\<close>

subsection \<open>Command numbers\<close>

definition IOC :: "u32 \<Rightarrow> u32 \<Rightarrow> u32 \<Rightarrow> u32 \<Rightarrow> u32" where
  "IOC dir ty nr sz = push_bit 30 dir OR push_bit 8 ty OR nr OR push_bit 16 sz"

definition IOC_DIR :: "u32 \<Rightarrow> u32" where "IOC_DIR cmd = drop_bit 30 cmd AND 0x3"
definition IOC_TYPE :: "u32 \<Rightarrow> u32" where "IOC_TYPE cmd = drop_bit 8 cmd AND 0xFF"
definition IOC_NR :: "u32 \<Rightarrow> u32" where "IOC_NR cmd = cmd AND 0xFF"

abbreviation (input) IOC_WRITE :: u32 where "IOC_WRITE \<equiv> 1"
abbreviation (input) IOC_READ :: u32 where "IOC_READ \<equiv> 2"

definition ADVVCOM_IOC_MAGIC :: u32 where "ADVVCOM_IOC_MAGIC = 0x41"
definition ADVVCOM_IOCMAX :: u32 where "ADVVCOM_IOCMAX = 15"

definition IOR_int :: "u32 \<Rightarrow> u32" where "IOR_int nr = IOC IOC_READ ADVVCOM_IOC_MAGIC nr 4"
definition IOW_int :: "u32 \<Rightarrow> u32" where "IOW_int nr = IOC IOC_WRITE ADVVCOM_IOC_MAGIC nr 4"

definition ADVVCOM_IOCGTXHEAD :: u32 where "ADVVCOM_IOCGTXHEAD = IOR_int 1"
definition ADVVCOM_IOCGTXTAIL :: u32 where "ADVVCOM_IOCGTXTAIL = IOR_int 2"
definition ADVVCOM_IOCGTXSIZE :: u32 where "ADVVCOM_IOCGTXSIZE = IOR_int 3"
definition ADVVCOM_IOCGRXHEAD :: u32 where "ADVVCOM_IOCGRXHEAD = IOR_int 4"
definition ADVVCOM_IOCGRXTAIL :: u32 where "ADVVCOM_IOCGRXTAIL = IOR_int 5"
definition ADVVCOM_IOCGRXSIZE :: u32 where "ADVVCOM_IOCGRXSIZE = IOR_int 6"
definition ADVVCOM_IOCSTXTAIL :: u32 where "ADVVCOM_IOCSTXTAIL = IOW_int 7"
definition ADVVCOM_IOCSRXHEAD :: u32 where "ADVVCOM_IOCSRXHEAD = IOW_int 8"
definition ADVVCOM_IOCGTXBEGIN :: u32 where "ADVVCOM_IOCGTXBEGIN = IOR_int 9"
definition ADVVCOM_IOCGRXBEGIN :: u32 where "ADVVCOM_IOCGRXBEGIN = IOR_int 10"
definition ADVVCOM_IOCGATTRBEGIN :: u32 where "ADVVCOM_IOCGATTRBEGIN = IOR_int 11"
definition ADVVCOM_IOCGATTRPTR :: u32 where "ADVVCOM_IOCGATTRPTR = IOR_int 12"
definition ADVVCOM_IOCSINTER :: u32 where "ADVVCOM_IOCSINTER = IOW_int 13"
definition ADVVCOM_IOCSMCTRL :: u32 where "ADVVCOM_IOCSMCTRL = IOW_int 14"
definition ADVVCOM_IOCSCLR :: u32 where "ADVVCOM_IOCSCLR = IOW_int 15"

lemmas ioc_defs = ADVVCOM_IOCGTXHEAD_def ADVVCOM_IOCGTXTAIL_def ADVVCOM_IOCGTXSIZE_def
  ADVVCOM_IOCGRXHEAD_def ADVVCOM_IOCGRXTAIL_def ADVVCOM_IOCGRXSIZE_def ADVVCOM_IOCSTXTAIL_def
  ADVVCOM_IOCSRXHEAD_def ADVVCOM_IOCGTXBEGIN_def ADVVCOM_IOCGRXBEGIN_def
  ADVVCOM_IOCGATTRBEGIN_def ADVVCOM_IOCGATTRPTR_def ADVVCOM_IOCSINTER_def
  ADVVCOM_IOCSMCTRL_def ADVVCOM_IOCSCLR_def

definition ADV_INT_RX :: int where "ADV_INT_RX = 1"
definition ADV_INT_TX :: int where "ADV_INT_TX = 2"
definition ADV_CLR_RX :: int where "ADV_CLR_RX = 1"
definition ADV_CLR_TX :: int where "ADV_CLR_TX = 2"

abbreviation (input) ENOTTY :: int where "ENOTTY \<equiv> 25"
abbreviation (input) EFAULT :: int where "EFAULT \<equiv> 14"

subsection \<open>Attributes handed to the daemon\<close>

definition ADV_ATTRBUF_NUM :: int where "ADV_ATTRBUF_NUM = 2"

definition flush_attr_info :: "adv_port_att \<Rightarrow> int \<times> adv_port_att" where
  "flush_attr_info attr =
     (let attr1 = (if at_newbie attr then attr\<lparr>at_newbie := False\<rparr>
                   else attr\<lparr>at_usr_ptr := (at_usr_ptr attr + 1) smod ADV_ATTRBUF_NUM\<rparr>);
          attr2 = attr1\<lparr>at_data := (at_data attr1)[nat (at_usr_ptr attr1) := at_attr attr1]\<rparr>
      in (at_usr_ptr attr2, attr2))"

subsection \<open>Requests of the daemon\<close>

text \<open>
  The user argument of an ioctl: whether \<^verbatim>\<open>access_ok\<close> accepts it, whether \<^verbatim>\<open>__put_user\<close>
  succeeds, and the four bytes \<^verbatim>\<open>__get_user\<close> finds, None when it faults. A faulting
  \<^verbatim>\<open>__get_user\<close> sets its variable to zero.
\<close>

record uarg =
  ua_access_ok :: bool
  ua_put_ok :: bool
  ua_get :: "u32 option"

definition put_user :: "uarg \<Rightarrow> int \<Rightarrow> int \<times> int option" where
  "put_user u x = (if ua_put_ok u then (0, Some x) else (- EFAULT, None))"

definition get_user :: "uarg \<Rightarrow> int \<times> int" where
  "get_user u = (case ua_get u of Some w \<Rightarrow> (0, c_of_u32 w) | None \<Rightarrow> (- EFAULT, 0))"

definition adv_main_interrupt ::
    "(byte list \<Rightarrow> nat \<Rightarrow> nat) \<Rightarrow> 't tty_ops \<Rightarrow> int \<Rightarrow> adv_vcom \<Rightarrow> 't \<Rightarrow> adv_vcom \<times> 't" where
  "adv_main_interrupt lin ops msk v t =
     (let v1 = (if msk AND ADV_INT_RX \<noteq> 0 then adv_uart_update_xmit lin v else v)
      in if msk AND ADV_INT_TX \<noteq> 0 then adv_uart_recv_chars ops v1 t else (v1, t))"

definition adv_main_clear :: "int \<Rightarrow> adv_vcom \<Rightarrow> adv_vcom" where
  "adv_main_clear msk v =
     (let v1 = (if msk AND ADV_CLR_RX \<noteq> 0
                then v\<lparr>v_rx := (v_rx v)\<lparr>rb_status := rb_status (v_rx v) OR ADV_RING_BUF_CLEAN\<rparr>\<rparr>
                else v)
      in if msk AND ADV_CLR_TX \<noteq> 0
         then v1\<lparr>v_tx := move_rb_head
                ((v_tx v1)\<lparr>rb_status := rb_status (v_tx v1) OR ADV_RING_BUF_CLEAN\<rparr>) 0\<rparr>
         else v1)"

text \<open>
  The result is the return value, the value written to user memory if any, and the new states
  of the port and of the tty layer.
\<close>

type_synonym 't ioctl_res = "int \<times> int option \<times> adv_vcom \<times> 't"

definition reply :: "int \<times> int option \<Rightarrow> adv_vcom \<Rightarrow> 't \<Rightarrow> 't ioctl_res" where
  "reply r v t = (fst r, snd r, v, t)"

definition adv_proc_ioctl :: "(byte list \<Rightarrow> nat \<Rightarrow> nat) \<Rightarrow> 't tty_ops \<Rightarrow> u32 \<Rightarrow> uarg \<Rightarrow>
    adv_vcom \<Rightarrow> 't \<Rightarrow> 't ioctl_res" where
  "adv_proc_ioctl lin ops cmd u v t =
     (if IOC_TYPE cmd \<noteq> ADVVCOM_IOC_MAGIC then (- ENOTTY, None, v, t)
      else if IOC_NR cmd > ADVVCOM_IOCMAX then (- ENOTTY, None, v, t)
      else
        let err = (if IOC_DIR cmd AND IOC_READ \<noteq> 0 then \<not> ua_access_ok u
                   else if IOC_DIR cmd AND IOC_WRITE \<noteq> 0 then \<not> ua_access_ok u
                   else False)
        in if err then (- EFAULT, None, v, t)
        else if cmd = ADVVCOM_IOCGTXHEAD then reply (put_user u (get_rb_head (v_tx v))) v t
        else if cmd = ADVVCOM_IOCGTXTAIL then reply (put_user u (get_rb_tail (v_tx v))) v t
        else if cmd = ADVVCOM_IOCGTXSIZE then reply (put_user u (rb_size (v_tx v))) v t
        else if cmd = ADVVCOM_IOCGTXBEGIN then reply (put_user u (rb_begin (v_tx v))) v t
        else if cmd = ADVVCOM_IOCGRXHEAD then reply (put_user u (get_rb_head (v_rx v))) v t
        else if cmd = ADVVCOM_IOCGRXTAIL then reply (put_user u (get_rb_tail (v_rx v))) v t
        else if cmd = ADVVCOM_IOCGRXSIZE then reply (put_user u (rb_size (v_rx v))) v t
        else if cmd = ADVVCOM_IOCGRXBEGIN then reply (put_user u (rb_begin (v_rx v))) v t
        else if cmd = ADVVCOM_IOCSTXTAIL then
          (case get_user u of (ret, tmp) \<Rightarrow>
           case adv_uart_recv_chars ops (v\<lparr>v_tx := move_rb_tail (v_tx v) tmp\<rparr>) t of (v', t') \<Rightarrow>
             (ret, None, v', t'))
        else if cmd = ADVVCOM_IOCSRXHEAD then
          (case get_user u of (ret, tmp) \<Rightarrow>
             (ret, None, v\<lparr>v_rx := move_rb_head (v_rx v) tmp\<rparr>, t))
        else if cmd = ADVVCOM_IOCGATTRBEGIN then reply (put_user u (at_begin (v_attr v))) v t
        else if cmd = ADVVCOM_IOCGATTRPTR then
          (case flush_attr_info (v_attr v) of (tmp, attr) \<Rightarrow>
             reply (put_user u tmp) (v\<lparr>v_attr := attr\<rparr>) t)
        else if cmd = ADVVCOM_IOCSINTER then
          (case get_user u of (ret, tmp) \<Rightarrow>
           case adv_main_interrupt lin ops tmp v t of (v', t') \<Rightarrow> (ret, None, v', t'))
        else if cmd = ADVVCOM_IOCSMCTRL then
          (case get_user u of (ret, tmp) \<Rightarrow> (ret, None, snd (adv_uart_ms (c_uint tmp) v), t))
        else if cmd = ADVVCOM_IOCSCLR then
          (case get_user u of (ret, tmp) \<Rightarrow> (ret, None, adv_main_clear tmp v, t))
        else (- EFAULT, None, v, t))"

subsection \<open>Readiness\<close>

abbreviation (input) POLLIN :: u32 where "POLLIN \<equiv> 1"
abbreviation (input) POLLPRI :: u32 where "POLLPRI \<equiv> 2"
abbreviation (input) POLLOUT :: u32 where "POLLOUT \<equiv> 4"

definition adv_proc_poll :: "adv_vcom \<Rightarrow> u32" where
  "adv_proc_poll v =
     (let m1 = (if rb_status (v_rx v) AND ADV_RING_BUF_ENABLED \<noteq> 0
                then 0 OR (if is_rb_empty (v_rx v) then 0 else POLLIN) else 0);
          m2 = (if rb_status (v_tx v) AND ADV_RING_BUF_ENABLED \<noteq> 0
                then m1 OR (if is_rb_empty (v_tx v) then POLLOUT else 0) else m1);
          m3 = (if at_throttled (v_attr v) then m2 AND NOT POLLOUT else m2);
          attr_usr = at_data (v_attr v) ! nat (at_usr_ptr (v_attr v))
      in if info v \<noteq> attr_usr
         then (if ai_is_open (info v) = 1 then m3 OR POLLPRI
               else if ai_is_open (info v) \<noteq> ai_is_open attr_usr then m3 OR POLLPRI else m3)
         else m3)"

subsection \<open>Mapped pages\<close>

datatype page = TxPage | RxPage | AttrPage

text \<open>\<^verbatim>\<open>adv_vma_nopage\<close>: the page set in the fault record; None when it is left unset.\<close>

definition adv_vma_nopage :: "adv_vcom \<Rightarrow> u64 \<Rightarrow> u64 \<Rightarrow> u64 \<Rightarrow> page option" where
  "adv_vma_nopage v address vm_start vm_pgoff =
     (let offset = (address - vm_start) + push_bit 12 vm_pgoff in
      if offset < word_of_int (rb_size (v_tx v) + rb_begin (v_tx v)) then Some TxPage
      else if offset < word_of_int (rb_size (v_rx v) + rb_begin (v_rx v)) then Some RxPage
      else if offset < word_of_int (at_size (v_attr v) + at_begin (v_attr v)) then Some AttrPage
      else None)"

subsection \<open>Module start and end\<close>

definition PAGE_SIZE :: int where "PAGE_SIZE = 4096"
definition VCOM_PORTS :: nat where "VCOM_PORTS = 256"

text \<open>
  \<^verbatim>\<open>adv_main_init\<close> followed by \<^verbatim>\<open>adv_uart_init\<close>: what \<^verbatim>\<open>kmalloc\<close> and the page allocator leave
  in memory that the code does not set is an argument (\<open>mctrl0\<close>, the two ring pages, and the
  icount and status of the port, which are cleared with the port).
\<close>

definition adv_main_init :: "u32 \<Rightarrow> byte list \<Rightarrow> byte list \<Rightarrow> nat \<Rightarrow> adv_vcom" where
  "adv_main_init mctrl0 txd rxd port =
     \<lparr>v_attr = \<lparr>at_attr = zero_port_info, at_mctrl = mctrl0, at_newbie = True,
        at_index = int port, at_throttled = False, at_size = PAGE_SIZE, at_begin = 2 * PAGE_SIZE,
        at_usr_ptr = 0, at_data = replicate (nat ADV_ATTRBUF_NUM) zero_port_info\<rparr>,
      v_tx = \<lparr>rb_head = 0, rb_tail = 0, rb_begin = 0, rb_size = PAGE_SIZE, rb_status = 0,
        rb_data = txd\<rparr>,
      v_rx = \<lparr>rb_head = 0, rb_tail = 0, rb_begin = PAGE_SIZE, rb_size = PAGE_SIZE, rb_status = 0,
        rb_data = rxd\<rparr>,
      u_icount = \<lparr>ic_cts = 0, ic_dsr = 0, ic_dcd = 0, ic_rng = 0, ic_tx = 0\<rparr>, u_status = 0,
      u_fifo = []\<rparr>"

text \<open>
  The port list: \<open>list_add\<close> puts a port in front. \<^verbatim>\<open>adv_main_release\<close> unlinks what its search
  ends on before it looks whether the port was found; a search that finds nothing ends on the
  list head, which is no port.
\<close>

fun adv_vcom_init :: "(nat \<Rightarrow> adv_vcom) \<Rightarrow> nat \<Rightarrow> adv_vcom list" where
  "adv_vcom_init mk 0 = []"
| "adv_vcom_init mk (Suc i) = mk i # adv_vcom_init mk i"

fun adv_main_release :: "int \<Rightarrow> adv_vcom list \<Rightarrow> adv_vcom list out" where
  "adv_main_release port [] = Crash"
| "adv_main_release port (v # vs) =
     (if at_index (v_attr v) = port then Ok vs
      else out_bind (adv_main_release port vs) (\<lambda>vs'. Ok (v # vs')))"

fun adv_vcom_exit :: "nat \<Rightarrow> nat \<Rightarrow> adv_vcom list \<Rightarrow> adv_vcom list out" where
  "adv_vcom_exit i 0 vs = Ok vs"
| "adv_vcom_exit i (Suc n) vs =
     out_bind (adv_main_release (int i) vs) (adv_vcom_exit (Suc i) n)"

subsection \<open>What each request does\<close>

lemma ioc_vals:
  "ADVVCOM_IOCGTXHEAD = 0x80044101" "ADVVCOM_IOCGTXTAIL = 0x80044102"
  "ADVVCOM_IOCGTXSIZE = 0x80044103" "ADVVCOM_IOCGRXHEAD = 0x80044104"
  "ADVVCOM_IOCGRXTAIL = 0x80044105" "ADVVCOM_IOCGRXSIZE = 0x80044106"
  "ADVVCOM_IOCSTXTAIL = 0x40044107" "ADVVCOM_IOCSRXHEAD = 0x40044108"
  "ADVVCOM_IOCGTXBEGIN = 0x80044109" "ADVVCOM_IOCGRXBEGIN = 0x8004410A"
  "ADVVCOM_IOCGATTRBEGIN = 0x8004410B" "ADVVCOM_IOCGATTRPTR = 0x8004410C"
  "ADVVCOM_IOCSINTER = 0x4004410D" "ADVVCOM_IOCSMCTRL = 0x4004410E"
  "ADVVCOM_IOCSCLR = 0x4004410F"
  by (simp_all add: ioc_defs IOR_int_def IOW_int_def IOC_def ADVVCOM_IOC_MAGIC_def)

lemma ioctl_get:
  assumes "ua_access_ok u"
  shows "adv_proc_ioctl lin ops ADVVCOM_IOCGTXHEAD u v t = reply (put_user u (rb_head (v_tx v))) v t"
    "adv_proc_ioctl lin ops ADVVCOM_IOCGTXTAIL u v t = reply (put_user u (rb_tail (v_tx v))) v t"
    "adv_proc_ioctl lin ops ADVVCOM_IOCGTXSIZE u v t = reply (put_user u (rb_size (v_tx v))) v t"
    "adv_proc_ioctl lin ops ADVVCOM_IOCGTXBEGIN u v t = reply (put_user u (rb_begin (v_tx v))) v t"
    "adv_proc_ioctl lin ops ADVVCOM_IOCGRXHEAD u v t = reply (put_user u (rb_head (v_rx v))) v t"
    "adv_proc_ioctl lin ops ADVVCOM_IOCGRXTAIL u v t = reply (put_user u (rb_tail (v_rx v))) v t"
    "adv_proc_ioctl lin ops ADVVCOM_IOCGRXSIZE u v t = reply (put_user u (rb_size (v_rx v))) v t"
    "adv_proc_ioctl lin ops ADVVCOM_IOCGRXBEGIN u v t = reply (put_user u (rb_begin (v_rx v))) v t"
    "adv_proc_ioctl lin ops ADVVCOM_IOCGATTRBEGIN u v t = reply (put_user u (at_begin (v_attr v))) v t"
  using assms
  by (simp_all add: adv_proc_ioctl_def ioc_vals IOC_DIR_def IOC_TYPE_def IOC_NR_def
      ADVVCOM_IOC_MAGIC_def ADVVCOM_IOCMAX_def get_rb_head_def get_rb_tail_def)

lemma ioctl_set:
  assumes "ua_access_ok u"
  shows "adv_proc_ioctl lin ops ADVVCOM_IOCSTXTAIL u v t =
      (case adv_uart_recv_chars ops (v\<lparr>v_tx := move_rb_tail (v_tx v) (snd (get_user u))\<rparr>) t of
         (v', t') \<Rightarrow> (fst (get_user u), None, v', t'))"
    "adv_proc_ioctl lin ops ADVVCOM_IOCSRXHEAD u v t =
      (fst (get_user u), None, v\<lparr>v_rx := move_rb_head (v_rx v) (snd (get_user u))\<rparr>, t)"
    "adv_proc_ioctl lin ops ADVVCOM_IOCGATTRPTR u v t =
      reply (put_user u (fst (flush_attr_info (v_attr v))))
        (v\<lparr>v_attr := snd (flush_attr_info (v_attr v))\<rparr>) t"
    "adv_proc_ioctl lin ops ADVVCOM_IOCSINTER u v t =
      (case adv_main_interrupt lin ops (snd (get_user u)) v t of
         (v', t') \<Rightarrow> (fst (get_user u), None, v', t'))"
    "adv_proc_ioctl lin ops ADVVCOM_IOCSMCTRL u v t =
      (fst (get_user u), None, snd (adv_uart_ms (c_uint (snd (get_user u))) v), t)"
    "adv_proc_ioctl lin ops ADVVCOM_IOCSCLR u v t =
      (fst (get_user u), None, adv_main_clear (snd (get_user u)) v, t)"
  using assms
  by (simp_all add: adv_proc_ioctl_def ioc_vals IOC_DIR_def IOC_TYPE_def IOC_NR_def
      ADVVCOM_IOC_MAGIC_def ADVVCOM_IOCMAX_def split: prod.splits)

subsection \<open>Invariant\<close>

definition drv_inv :: "adv_vcom \<Rightarrow> bool" where
  "drv_inv v \<longleftrightarrow> kr_ready (v_tx v) \<and> kr_inv (v_rx v) \<and>
     rb_size (v_tx v) = PAGE_SIZE \<and> rb_begin (v_tx v) = 0 \<and>
     rb_size (v_rx v) = PAGE_SIZE \<and> rb_begin (v_rx v) = PAGE_SIZE \<and>
     at_size (v_attr v) = PAGE_SIZE \<and> at_begin (v_attr v) = 2 * PAGE_SIZE \<and>
     at_usr_ptr (v_attr v) \<in> {0, 1} \<and> length (at_data (v_attr v)) = 2"

lemma rb_clean_bit: "rb_clean b \<longleftrightarrow> bit (rb_status b) 1"
  by (simp add: rb_clean_def ADV_RING_BUF_CLEAN_def flag_bits)

lemma kr_inv_status [simp]: "kr_inv (b\<lparr>rb_status := s\<rparr>) = kr_inv b"
  by (simp add: kr_inv_def rb_inv_def)

lemma rb_contents_status [simp]: "rb_contents (b\<lparr>rb_status := s\<rparr>) = rb_contents b"
  by (simp add: rb_contents_def get_rb_length_def)

lemma kr_ready_enable [simp]:
  "kr_ready (b\<lparr>rb_status := rb_status b OR ADV_RING_BUF_ENABLED\<rparr>) = kr_ready b"
  "kr_ready (b\<lparr>rb_status := rb_status b AND NOT ADV_RING_BUF_ENABLED\<rparr>) = kr_ready b"
  by (simp_all add: kr_ready_def rb_clean_bit ADV_RING_BUF_ENABLED_def bit_simps)

lemma drv_inv_init:
  assumes "length txd = 4096" "length rxd = 4096"
  shows "drv_inv (adv_main_init m txd rxd i)"
  using assms by (simp add: drv_inv_def adv_main_init_def kr_ready_def kr_inv_def rb_inv_def
      rb_clean_def PAGE_SIZE_def ADV_ATTRBUF_NUM_def)

lemma drv_inv_xmit:
  assumes "lin_law lin" "drv_inv v"
  shows "drv_inv (adv_uart_xmit lin v)"
  using adv_uart_xmit_spec [OF assms(1), of v] assms(2) by (simp add: drv_inv_def same_ring_def)

lemma drv_inv_update_xmit: "lin_law lin \<Longrightarrow> drv_inv v \<Longrightarrow> drv_inv (adv_uart_update_xmit lin v)"
  by (simp add: adv_uart_update_xmit_def drv_inv_xmit)

lemma drv_inv_recv:
  assumes "tty_law ops received" "drv_inv v" "adv_uart_recv_chars ops v t = (v', t')"
  shows "drv_inv v'"
  using adv_uart_recv_chars_spec [OF assms(1) _ assms(3)] adv_uart_recv_chars_frame [OF assms(3)]
    assms(2) by (auto simp: drv_inv_def simp del: length_rb_contents)

lemma drv_inv_interrupt:
  assumes "lin_law lin" "tty_law ops received" "drv_inv v"
    "adv_main_interrupt lin ops m v t = (v', t')"
  shows "drv_inv v'"
  using assms(3,4) unfolding adv_main_interrupt_def Let_def
  by (auto split: if_splits intro: drv_inv_recv [OF assms(2)] drv_inv_update_xmit [OF assms(1)])

lemma drv_inv_clear: "drv_inv v \<Longrightarrow> drv_inv (adv_main_clear m v)"
  using move_rb_head_clean [of "(v_tx v)\<lparr>rb_status := rb_status (v_tx v) OR ADV_RING_BUF_CLEAN\<rparr>" 0]
  by (auto simp: drv_inv_def adv_main_clear_def kr_ready_def kr_inv_def rb_clean_bit rb_inv_def
      ADV_RING_BUF_CLEAN_def bit_simps Let_def)

lemma drv_inv_flush: "drv_inv v \<Longrightarrow> drv_inv (v\<lparr>v_attr := snd (flush_attr_info (v_attr v))\<rparr>)"
  by (auto simp: drv_inv_def flush_attr_info_def ADV_ATTRBUF_NUM_def Let_def smod_nonneg)

lemma drv_inv_ms: "drv_inv v \<Longrightarrow> drv_inv (snd (adv_uart_ms s v))"
  by (simp add: drv_inv_def adv_uart_ms_eq)

lemma kr_inv_move:
  assumes "0 \<le> n" "n \<le> rb_size b"
  shows "kr_ready b \<Longrightarrow> kr_ready (move_rb_tail b n)" "kr_inv b \<Longrightarrow> kr_inv (move_rb_head b n)"
  using assms move_rb_tail_inv [of b n] move_rb_head_inv [of b n]
  by (auto simp: kr_ready_def kr_inv_def)

text \<open>The ring indices are only in range if the daemon moves them by at most a ring's size.\<close>

definition ioctl_legal :: "u32 \<Rightarrow> uarg \<Rightarrow> bool" where
  "ioctl_legal cmd u \<longleftrightarrow> cmd \<in> {ADVVCOM_IOCSTXTAIL, ADVVCOM_IOCSRXHEAD} \<longrightarrow>
     0 \<le> snd (get_user u) \<and> snd (get_user u) \<le> PAGE_SIZE"

lemma ioctl_cases:
  assumes "adv_proc_ioctl lin ops cmd u v t = (r, w, v', t')"
  obtains "v' = v" "t' = t" "cmd \<noteq> ADVVCOM_IOCSTXTAIL \<or> \<not> ua_access_ok u"
  | "cmd = ADVVCOM_IOCSTXTAIL" "ua_access_ok u"
    "adv_uart_recv_chars ops (v\<lparr>v_tx := move_rb_tail (v_tx v) (snd (get_user u))\<rparr>) t = (v', t')"
  | "cmd = ADVVCOM_IOCSRXHEAD" "v' = v\<lparr>v_rx := move_rb_head (v_rx v) (snd (get_user u))\<rparr>" "t' = t"
  | "cmd = ADVVCOM_IOCGATTRPTR" "v' = v\<lparr>v_attr := snd (flush_attr_info (v_attr v))\<rparr>" "t' = t"
  | "cmd = ADVVCOM_IOCSINTER" "adv_main_interrupt lin ops (snd (get_user u)) v t = (v', t')"
  | "cmd = ADVVCOM_IOCSMCTRL" "v' = snd (adv_uart_ms (c_uint (snd (get_user u))) v)" "t' = t"
  | "cmd = ADVVCOM_IOCSCLR" "v' = adv_main_clear (snd (get_user u)) v" "t' = t"
proof (cases "ua_access_ok u \<and> cmd \<in> {ADVVCOM_IOCSTXTAIL, ADVVCOM_IOCSRXHEAD, ADVVCOM_IOCGATTRPTR,
    ADVVCOM_IOCSINTER, ADVVCOM_IOCSMCTRL, ADVVCOM_IOCSCLR}")
  case True
  then show ?thesis
    using assms that by (auto simp: ioctl_set reply_def split: prod.splits)
next
  case False
  then have "v' = v \<and> t' = t"
    using assms unfolding adv_proc_ioctl_def reply_def Let_def
    by (auto simp: ioc_vals IOC_DIR_def IOC_TYPE_def IOC_NR_def split: if_splits prod.splits)
  with that(1) False show ?thesis by blast
qed

lemma drv_inv_ioctl:
  assumes "lin_law lin" "tty_law ops received" "drv_inv v" "ioctl_legal cmd u"
    "adv_proc_ioctl lin ops cmd u v t = (r, w, v', t')"
  shows "drv_inv v'"
  using assms(5)
proof (cases rule: ioctl_cases)
  case 2
  have "drv_inv (v\<lparr>v_tx := move_rb_tail (v_tx v) (snd (get_user u))\<rparr>)"
    using assms(3,4) 2(1) kr_inv_move(1) [of "snd (get_user u)" "v_tx v"]
    by (simp add: ioctl_legal_def drv_inv_def)
  from drv_inv_recv [OF assms(2) this 2(3)] show ?thesis .
next
  case 3
  with assms(3,4) kr_inv_move(2) [of "snd (get_user u)" "v_rx v"] show ?thesis
    by (simp add: ioctl_legal_def drv_inv_def)
qed (use assms in \<open>auto intro: drv_inv_interrupt drv_inv_clear drv_inv_flush drv_inv_ms\<close>)

subsection \<open>Steps and reachable states\<close>

inductive drv_step :: "(byte list \<Rightarrow> nat \<Rightarrow> nat) \<Rightarrow> 't tty_ops \<Rightarrow>
    adv_vcom \<times> 't \<Rightarrow> adv_vcom \<times> 't \<Rightarrow> bool" for lin ops where
  ds_ioctl: "ioctl_legal cmd u \<Longrightarrow> adv_proc_ioctl lin ops cmd u v t = (r, w, v', t') \<Longrightarrow>
    drv_step lin ops (v, t) (v', t')"
| ds_write: "drv_step lin ops (v, t) (v\<lparr>u_fifo := u_fifo v @ bs\<rparr>, t)"
| ds_start_tx: "drv_step lin ops (v, t) (adv_uart_start_tx lin v, t)"
| ds_stop_tx: "drv_step lin ops (v, t) (adv_uart_stop_tx v, t)"
| ds_stop_rx: "drv_step lin ops (v, t) (adv_uart_stop_rx v, t)"
| ds_startup: "drv_step lin ops (v, t) (adv_uart_startup v, t)"
| ds_shutdown: "drv_step lin ops (v, t) (adv_uart_shutdown v, t)"
| ds_termios: "drv_step lin ops (v, t) (adv_uart_set_termios k baud v, t)"
| ds_mctrl: "drv_step lin ops (v, t) (adv_uart_set_mctrl m v, t)"
| ds_throttle: "drv_step lin ops (v, t) (adv_uart_throttle v, t)"
| ds_unthrottle: "adv_uart_unthrottle ops v t = (v', t') \<Longrightarrow> drv_step lin ops (v, t) (v', t')"
| ds_map_tx: "length d = length (rb_data (v_tx v)) \<Longrightarrow>
    drv_step lin ops (v, t) (v\<lparr>v_tx := (v_tx v)\<lparr>rb_data := d\<rparr>\<rparr>, t)"
| ds_map_rx: "length d = length (rb_data (v_rx v)) \<Longrightarrow>
    drv_step lin ops (v, t) (v\<lparr>v_rx := (v_rx v)\<lparr>rb_data := d\<rparr>\<rparr>, t)"
| ds_map_attr: "length d = length (at_data (v_attr v)) \<Longrightarrow>
    drv_step lin ops (v, t) (v\<lparr>v_attr := (v_attr v)\<lparr>at_data := d\<rparr>\<rparr>, t)"

lemma kr_inv_data: "kr_inv b \<Longrightarrow> length d = length (rb_data b) \<Longrightarrow> kr_inv (b\<lparr>rb_data := d\<rparr>)"
  by (simp add: kr_inv_def rb_inv_def)

lemma drv_step_inv:
  assumes "lin_law lin" "tty_law ops received"
  shows "drv_step lin ops s s' \<Longrightarrow> drv_inv (fst s) \<Longrightarrow> drv_inv (fst s')"
proof (induction rule: drv_step.induct)
  case (ds_ioctl cmd u v t r w v' t')
  then show ?case using drv_inv_ioctl [OF assms] by simp
next
  case (ds_start_tx v t)
  have "drv_inv (set_up_tx ((up_tx v)\<lparr>rb_status := rb_status (up_tx v) OR ADV_RING_BUF_ENABLED\<rparr>) v)"
    using ds_start_tx by (simp add: drv_inv_def up_defs)
  then show ?case by (simp add: adv_uart_start_tx_def drv_inv_xmit [OF assms(1)])
next
  case (ds_unthrottle v t v' t')
  have "drv_inv (v\<lparr>v_attr := (v_attr v)\<lparr>at_throttled := False\<rparr>\<rparr>)"
    using ds_unthrottle by (simp add: drv_inv_def)
  from drv_inv_recv [OF assms(2) this] ds_unthrottle show ?case
    by (simp add: adv_uart_unthrottle_def)
qed (simp_all add: drv_inv_def adv_uart_stop_tx_def adv_uart_stop_rx_def adv_uart_startup_def
    adv_uart_shutdown_def adv_uart_set_termios_def adv_uart_set_mctrl_def adv_uart_throttle_def
    up_defs Let_def kr_ready_def kr_inv_data rb_clean_bit ADV_RING_BUF_ENABLED_def bit_simps)

lemma drv_reach_inv:
  assumes "lin_law lin" "tty_law ops received" "(drv_step lin ops)\<^sup>*\<^sup>* s s'" "drv_inv (fst s)"
  shows "drv_inv (fst s')"
  using assms(3,4) by (induction rule: rtranclp_induct) (auto intro: drv_step_inv [OF assms(1,2)])

subsection \<open>Properties of the proc file\<close>



definition adv_cmds :: "u32 set" where
  "adv_cmds = IOR_int ` {1, 2, 3, 4, 5, 6, 9, 10, 11, 12} \<union> IOW_int ` {7, 8, 13, 14, 15}"

text \<open>
  Requests the driver refuses change nothing: a foreign magic number or a number above the
  last command gives ENOTTY; a bad user address gives EFAULT, and so does a command number that
  is in range but is none of the fifteen commands.
\<close>

lemma ioctl_rejects:
  assumes "cmd \<notin> adv_cmds \<or> \<not> ua_access_ok u"
  shows "adv_proc_ioctl lin ops cmd u v t =
    (if IOC_TYPE cmd \<noteq> ADVVCOM_IOC_MAGIC \<or> ADVVCOM_IOCMAX < IOC_NR cmd then - 25 else - 14, None, v, t)"
proof (cases "cmd \<in> adv_cmds")
  case True
  with assms show ?thesis
    by (auto simp: adv_cmds_def adv_proc_ioctl_def ioc_vals IOR_int_def IOW_int_def IOC_def
        IOC_DIR_def IOC_TYPE_def IOC_NR_def ADVVCOM_IOC_MAGIC_def ADVVCOM_IOCMAX_def)
next
  case False
  then show ?thesis
    unfolding adv_cmds_def adv_proc_ioctl_def ioc_defs by simp
qed

definition sample_idle :: adv_vcom where
  "sample_idle = sample_vcom (sample_ring 0 0 [0]) (sample_ring 0 0 [0]) []"

lemma ioctl_rejects_witness:
  "adv_proc_ioctl sample_lin sample_tty 0x80044110
     \<lparr>ua_access_ok = True, ua_put_ok = True, ua_get = None\<rparr> sample_idle [] =
   (- 25, None, sample_idle, [])"
  using ioctl_rejects [of "0x80044110" "\<lparr>ua_access_ok = True, ua_put_ok = True, ua_get = None\<rparr>"
      sample_lin sample_tty sample_idle "[]"]
  by (simp add: adv_cmds_def IOR_int_def IOW_int_def IOC_def IOC_TYPE_def IOC_NR_def
      ADVVCOM_IOC_MAGIC_def ADVVCOM_IOCMAX_def)

lemma poll_bit:
  "bit (adv_proc_poll v) i \<longleftrightarrow>
     (i = 0 \<and> bit (rb_status (v_rx v)) 0 \<and> \<not> is_rb_empty (v_rx v)) \<or>
     (i = 2 \<and> bit (rb_status (v_tx v)) 0 \<and> is_rb_empty (v_tx v) \<and> \<not> at_throttled (v_attr v)) \<or>
     (i = 1 \<and> (let usr = at_data (v_attr v) ! nat (at_usr_ptr (v_attr v)) in
        info v \<noteq> usr \<and> (ai_is_open (info v) = 1 \<or> ai_is_open (info v) \<noteq> ai_is_open usr)))"
proof -
  have en: "(s AND ADV_RING_BUF_ENABLED \<noteq> 0) = bit s 0" for s :: u32
    using and_exp_word [of s 0] by (simp add: ADV_RING_BUF_ENABLED_def)
  have b: "bit (1 :: u32) i = (i = 0)" "bit (2 :: u32) i = (i = 1)" "bit (4 :: u32) i = (i = 2)"
    by (rule bit_flag, simp, simp)+
  have nb: "bit (x AND NOT (4 :: u32)) i \<longleftrightarrow> bit x i \<and> i \<noteq> 2" for x
    by (simp only: bit_and_iff bit_not_iff b) (auto dest: bit_imp_possible_bit)
  have br: "bit (if c then x else y) i = (if c then bit x i else bit y i)" for c and x y :: u32
    by simp
  show ?thesis
    unfolding adv_proc_poll_def en Let_def
    by (simp only: br nb bit_or_iff b bit_0_eq bot_apply) auto
qed

text \<open>
  Readiness is exact: POLLIN iff the transmitting side is enabled and has bytes for the
  daemon, POLLOUT iff the receiving side is enabled, drained and not throttled, POLLPRI iff the
  attributes differ from the copy the daemon holds and the port is open or its open state
  changed; no other bit is set.
\<close>

lemma poll_exact:
  "bit (adv_proc_poll v) i \<longleftrightarrow>
     (i = 0 \<and> bit (rb_status (v_rx v)) 0 \<and> \<not> is_rb_empty (v_rx v)) \<or>
     (i = 2 \<and> bit (rb_status (v_tx v)) 0 \<and> is_rb_empty (v_tx v) \<and> \<not> at_throttled (v_attr v)) \<or>
     (i = 1 \<and> (let usr = at_data (v_attr v) ! nat (at_usr_ptr (v_attr v)) in
        info v \<noteq> usr \<and> (ai_is_open (info v) = 1 \<or> ai_is_open (info v) \<noteq> ai_is_open usr)))"
  by (rule poll_bit)

lemma poll_exact_witness: "\<not> bit (adv_proc_poll sample_idle) 0"
  using poll_exact [of sample_idle 0] by (simp add: sample_idle_def sample_defs is_rb_empty_def)

text \<open>
  C33. Attribute hand-over: a successful IOCGATTRPTR returns the index of a slot that holds the
  current attributes, alternating between the two slots so that the slot handed out before
  stays as it is, and it withdraws the POLLPRI condition.
\<close>

theorem attr_handover:
  assumes "drv_inv v" "ua_access_ok u" "ua_put_ok u"
    and "adv_proc_ioctl lin ops ADVVCOM_IOCGATTRPTR u v t = (r, w, v', t')"
  shows "\<exists>p < 2. r = 0 \<and> w = Some (int p) \<and> at_data (v_attr v') ! p = info v \<and> info v' = info v \<and>
    (\<not> at_newbie (v_attr v) \<longrightarrow> int p \<noteq> at_usr_ptr (v_attr v) \<and>
       at_data (v_attr v') ! nat (at_usr_ptr (v_attr v)) =
       at_data (v_attr v) ! nat (at_usr_ptr (v_attr v))) \<and>
    \<not> bit (adv_proc_poll v') 1"
proof -
  have v': "v' = v\<lparr>v_attr := snd (flush_attr_info (v_attr v))\<rparr>" "r = 0"
    "w = Some (fst (flush_attr_info (v_attr v)))"
    using assms by (auto simp: ioctl_set reply_def put_user_def)
  have "at_usr_ptr (v_attr v) = 0 \<or> at_usr_ptr (v_attr v) = 1" "length (at_data (v_attr v)) = 2"
    using assms(1) by (auto simp: drv_inv_def)
  then show ?thesis
    unfolding v' poll_bit
    by (cases "at_newbie (v_attr v)"; elim disjE)
      (auto simp: flush_attr_info_def Let_def ADV_ATTRBUF_NUM_def smod_nonneg
        intro: exI [of _ 0] exI [of _ "1 :: nat"])
qed

definition sample_uarg :: "u32 \<Rightarrow> uarg" where
  "sample_uarg x = \<lparr>ua_access_ok = True, ua_put_ok = True, ua_get = Some x\<rparr>"

definition sample_port :: adv_vcom where
  "sample_port = adv_main_init 0 (replicate 4096 0) (replicate 4096 0) 0"

lemma sample_port_inv: "drv_inv sample_port"
  unfolding sample_port_def by (rule drv_inv_init) simp_all

lemma attr_handover_witness:
  "\<exists>p < 2. fst (snd (adv_proc_ioctl sample_lin sample_tty ADVVCOM_IOCGATTRPTR (sample_uarg 0)
      sample_port [])) = Some (int p)"
proof -
  obtain r w v' t' where "adv_proc_ioctl sample_lin sample_tty ADVVCOM_IOCGATTRPTR (sample_uarg 0)
      sample_port [] = (r, w, v', t')" by (metis prod_cases4)
  with attr_handover [OF sample_port_inv _ _ this] show ?thesis by (auto simp: sample_uarg_def)
qed

text \<open>
  The page a fault installs is the page the begin offsets promise: the first page of the
  mapping is the daemon's transmit ring, the second its receive ring, the third the attributes,
  and there is no fourth.
\<close>

lemma mmap_layout:
  assumes "drv_inv v" and "off < 0x8000000000000000"
  shows "adv_vma_nopage v (vm_start + off) vm_start 0 =
      (if unat off < 4096 then Some TxPage else if unat off < 8192 then Some RxPage
       else if unat off < 12288 then Some AttrPage else None) \<and>
    rb_begin (v_tx v) = 0 \<and> rb_begin (v_rx v) = 4096 \<and> at_begin (v_attr v) = 8192"
  using assms
  by (simp add: adv_vma_nopage_def drv_inv_def PAGE_SIZE_def Let_def word_less_nat_alt)

lemma mmap_layout_witness:
  "adv_vma_nopage sample_port 0x7f0000001fff 0x7f0000000000 0 = Some RxPage"
  using mmap_layout [OF sample_port_inv, of "0x1fff" "0x7f0000000000"] by simp

text \<open>
  Clearing: a clear of the daemon's transmit ring empties it at once; a clear of its
  receive ring leaves the bytes in place until the daemon next moves the head, and that move
  then empties the ring whatever length it carries. The other ring keeps its contents.
\<close>

lemma clear_semantics:
  assumes "drv_inv v"
  shows "is_rb_empty (v_tx (adv_main_clear ADV_CLR_TX v)) \<and>
    v_rx (adv_main_clear ADV_CLR_TX v) = v_rx v \<and>
    rb_contents (v_rx (adv_main_clear ADV_CLR_RX v)) = rb_contents (v_rx v) \<and>
    is_rb_empty (move_rb_head (v_rx (adv_main_clear ADV_CLR_RX v)) n) \<and>
    \<not> rb_clean (move_rb_head (v_rx (adv_main_clear ADV_CLR_RX v)) n) \<and>
    v_tx (adv_main_clear ADV_CLR_RX v) = v_tx v"
proof -
  let ?c = "\<lambda>b. b\<lparr>rb_status := rb_status b OR ADV_RING_BUF_CLEAN\<rparr>"
  have c: "rb_clean (?c b)" "rb_inv b \<Longrightarrow> rb_inv (?c b)" for b
    by (simp_all add: rb_clean_bit ADV_RING_BUF_CLEAN_def bit_simps rb_inv_def)
  have i: "rb_inv (v_tx v)" "rb_inv (v_rx v)"
    using assms by (auto simp: drv_inv_def kr_ready_def kr_inv_def)
  have "adv_main_clear ADV_CLR_TX v = v\<lparr>v_tx := move_rb_head (?c (v_tx v)) 0\<rparr>"
    "adv_main_clear ADV_CLR_RX v = v\<lparr>v_rx := ?c (v_rx v)\<rparr>"
    by (simp_all add: adv_main_clear_def ADV_CLR_TX_def ADV_CLR_RX_def)
  then show ?thesis
    using move_rb_head_clean [OF c(1) c(2) [OF i(1)]] move_rb_head_clean [OF c(1) c(2) [OF i(2)]]
    by simp
qed

lemma clear_semantics_witness: "is_rb_empty (v_tx (adv_main_clear ADV_CLR_TX sample_port))"
  using clear_semantics [OF sample_port_inv] by simp



lemma release_last:
  assumes "\<forall>v \<in> set vs. at_index (v_attr v) \<noteq> p" "at_index (v_attr x) = p"
  shows "adv_main_release p (vs @ [x]) = Ok vs"
  using assms by (induction vs) auto

lemma adv_vcom_init_eq: "adv_vcom_init mk n = rev (map mk [0..<n])"
  by (induction n) simp_all

lemma exit_all:
  assumes "\<And>j. at_index (v_attr (mk j)) = int j"
  shows "adv_vcom_exit i k (rev (map mk [i..<i + k])) = Ok []"
proof (induction k arbitrary: i)
  case (Suc k)
  have "rev (map mk [i..<i + Suc k]) = rev (map mk [Suc i..<Suc i + k]) @ [mk i]"
    by (simp add: upt_conv_Cons del: upt_Suc)
  moreover have "adv_main_release (int i) (rev (map mk [Suc i..<Suc i + k]) @ [mk i])
      = Ok (rev (map mk [Suc i..<Suc i + k]))"
    by (rule release_last) (auto simp: assms)
  ultimately show ?case using Suc.IH [of "Suc i"] by simp
qed simp

text \<open>
  Module exit undoes module start: every port created is found and released, the search
  never runs past the list, and no port is left.
\<close>

lemma module_exit_releases_all:
  "adv_vcom_exit 0 VCOM_PORTS (adv_vcom_init (adv_main_init m txd rxd) VCOM_PORTS) = Ok []"
  using exit_all [of "adv_main_init m txd rxd" 0 VCOM_PORTS]
  by (simp add: adv_vcom_init_eq adv_main_init_def)

end
