(* ===== verification/Driver_Legacy.thy ===== *)
theory Driver_Legacy
  imports Driver_Main
begin

text \<open>
  The variants of the driver for older kernels (driver/legacy): the transmit routine for the
  circular buffer the serial core had before 6.10, the ioctl handler for kernels before 5.0 and
  the two older page-fault handlers. Each is shown to agree with the current code.
\<close>

subsection \<open>Transmit from the circular buffer\<close>

record circ_buf =
  cb_buf :: "byte list"
  cb_head :: int
  cb_tail :: int

definition UART_XMIT_SIZE :: int where "UART_XMIT_SIZE = 4096"

definition uart_circ_empty :: "circ_buf \<Rightarrow> bool" where
  "uart_circ_empty c \<longleftrightarrow> cb_head c = cb_tail c"

definition uart_circ_chars_pending :: "circ_buf \<Rightarrow> int" where
  "uart_circ_chars_pending c = (cb_head c - cb_tail c) AND (UART_XMIT_SIZE - 1)"

fun legacy_loop :: "nat \<Rightarrow> int \<Rightarrow> int \<Rightarrow> kring \<Rightarrow> circ_buf \<Rightarrow> kring \<times> circ_buf" where
  "legacy_loop 0 count tx_lsize tx c = (tx, c)"
| "legacy_loop (Suc max_retry) count tx_lsize tx c =
     (let m1 = (if count > tx_lsize then tx_lsize else count);
          mcplen = (if (cb_tail c + m1) AND (UART_XMIT_SIZE - 1) < cb_tail c
                    then UART_XMIT_SIZE - cb_tail c else m1);
          tx' = move_rb_tail (rb_put tx (get_bytes (nat (cb_tail c)) (nat mcplen) (cb_buf c))) mcplen;
          c' = c\<lparr>cb_tail := (cb_tail c + mcplen) AND (UART_XMIT_SIZE - 1)\<rparr>;
          count' = count - mcplen
      in if count' > 0 then legacy_loop max_retry count' (get_rb_lroom tx') tx' c' else (tx', c'))"

definition adv_uart_xmit_legacy :: "kring \<Rightarrow> circ_buf \<Rightarrow> kring \<times> circ_buf" where
  "adv_uart_xmit_legacy tx c =
     (if uart_circ_empty c then (tx, c)
      else if get_rb_room tx = 0 then (tx, c)
      else let count = uart_circ_chars_pending c; tx_size = get_rb_room tx;
               tx_lsize = get_rb_lroom tx;
               count1 = (if count < tx_size then count else tx_size)
           in legacy_loop 3 count1 tx_lsize tx c)"

subsection \<open>The older ioctl and fault handlers\<close>

text \<open>
  Before 5.0 \<^verbatim>\<open>access_ok\<close> took the kind of access: a read command checks that user memory may be
  written, a write command that it may be read.
\<close>

record uarg_rw = uarg +
  ua_write_ok :: bool
  ua_read_ok :: bool

definition adv_proc_ioctl_legacy :: "(byte list \<Rightarrow> nat \<Rightarrow> nat) \<Rightarrow> 't tty_ops \<Rightarrow> u32 \<Rightarrow> uarg_rw \<Rightarrow>
    adv_vcom \<Rightarrow> 't \<Rightarrow> 't ioctl_res" where
  "adv_proc_ioctl_legacy lin ops cmd ux v t =
     (let u = uarg.truncate ux in
     (if IOC_TYPE cmd \<noteq> ADVVCOM_IOC_MAGIC then (- ENOTTY, None, v, t)
      else if IOC_NR cmd > ADVVCOM_IOCMAX then (- ENOTTY, None, v, t)
      else
        let err = (if IOC_DIR cmd AND IOC_READ \<noteq> 0 then \<not> ua_write_ok ux
                   else if IOC_DIR cmd AND IOC_WRITE \<noteq> 0 then \<not> ua_read_ok ux
                   else False)
        in if err then (- EFAULT, None, v, t)
        else if cmd = ADVVCOM_IOCGTXHEAD then reply (put_user u (get_rb_head (v_tx v))) v t
        else if cmd = ADVVCOM_IOCGTXTAIL then reply (put_user u (get_rb_tail (v_tx v))) v t
        else if cmd = ADVVCOM_IOCGTXSIZE then reply (put_user u (rb_size (v_tx v))) v t
        else if cmd = ADVVCOM_IOCGTXBEGIN then reply (put_user u (rb_begin (v_tx v))) v t
        else if cmd = ADVVCOM_IOCGRXHEAD then reply (put_user u (get_rb_head (v_rx v))) v t
        else if cmd = ADVVCOM_IOCGRXTAIL then reply (put_user u (get_rb_tail (v_rx v))) v t
        else if cmd = ADVVCOM_IOCGRXSIZE then reply (put_user u (rb_size (v_rx v))) v t
        else if cmd = ADVVCOM_IOCGRXBEGIN then reply (put_user u (rb_begin (v_rx v))) v t
        else if cmd = ADVVCOM_IOCSTXTAIL then
          (case get_user u of (ret, tmp) \<Rightarrow>
           case adv_uart_recv_chars ops (v\<lparr>v_tx := move_rb_tail (v_tx v) tmp\<rparr>) t of (v', t') \<Rightarrow>
             (ret, None, v', t'))
        else if cmd = ADVVCOM_IOCSRXHEAD then
          (case get_user u of (ret, tmp) \<Rightarrow>
             (ret, None, v\<lparr>v_rx := move_rb_head (v_rx v) tmp\<rparr>, t))
        else if cmd = ADVVCOM_IOCGATTRBEGIN then reply (put_user u (at_begin (v_attr v))) v t
        else if cmd = ADVVCOM_IOCGATTRPTR then
          (case flush_attr_info (v_attr v) of (tmp, attr) \<Rightarrow>
             reply (put_user u tmp) (v\<lparr>v_attr := attr\<rparr>) t)
        else if cmd = ADVVCOM_IOCSINTER then
          (case get_user u of (ret, tmp) \<Rightarrow>
           case adv_main_interrupt lin ops tmp v t of (v', t') \<Rightarrow> (ret, None, v', t'))
        else if cmd = ADVVCOM_IOCSMCTRL then
          (case get_user u of (ret, tmp) \<Rightarrow> (ret, None, snd (adv_uart_ms (c_uint tmp) v), t))
        else if cmd = ADVVCOM_IOCSCLR then
          (case get_user u of (ret, tmp) \<Rightarrow> (ret, None, adv_main_clear tmp v, t))
        else (- EFAULT, None, v, t)))"

definition adv_vma_nopage_4_10 :: "adv_vcom \<Rightarrow> u64 \<Rightarrow> u64 \<Rightarrow> u64 \<Rightarrow> page option" where
  "adv_vma_nopage_4_10 v address vm_start vm_pgoff =
     (let offset = (address - vm_start) + push_bit 12 vm_pgoff in
      if offset < word_of_int (rb_size (v_tx v) + rb_begin (v_tx v)) then Some TxPage
      else if offset < word_of_int (rb_size (v_rx v) + rb_begin (v_rx v)) then Some RxPage
      else if offset < word_of_int (at_size (v_attr v) + at_begin (v_attr v)) then Some AttrPage
      else None)"

definition adv_vma_nopage_old :: "adv_vcom \<Rightarrow> u64 \<Rightarrow> u64 \<Rightarrow> u64 \<Rightarrow> page option" where
  "adv_vma_nopage_old v virtual_address vm_start vm_pgoff =
     (let offset = (virtual_address - vm_start) + push_bit 12 vm_pgoff in
      if offset < word_of_int (rb_size (v_tx v) + rb_begin (v_tx v)) then Some TxPage
      else if offset < word_of_int (rb_size (v_rx v) + rb_begin (v_rx v)) then Some RxPage
      else if offset < word_of_int (at_size (v_attr v) + at_begin (v_attr v)) then Some AttrPage
      else None)"

text \<open>The set_termios of kernels from 4.0 to 6.0.\<close>

definition adv_uart_set_termios_4_0 :: "ktermios \<Rightarrow> int \<Rightarrow> adv_vcom \<Rightarrow> adv_vcom" where
  "adv_uart_set_termios_4_0 t baud v =
     (set_info (\<lambda>i. i\<lparr>ai_baud := baud, ai_byte := termios_byte t, ai_flowctl := termios_flow t,
        ai_pair := termios_pair t, ai_stop := termios_stop t\<rparr>) v)
       \<lparr>u_status := termios_upstat t (u_status v)\<rparr>"

subsection \<open>The circular buffer as a ring\<close>

text \<open>A circular buffer read as a ring: its tail is the consuming end.\<close>

definition circ_ring :: "circ_buf \<Rightarrow> kring" where
  "circ_ring c = \<lparr>rb_head = cb_tail c, rb_tail = cb_head c, rb_begin = 0, rb_size = UART_XMIT_SIZE,
     rb_status = 0, rb_data = cb_buf c\<rparr>"

lemma and_4095: "x AND 4095 = x mod 4096" for x :: int
  using take_bit_eq_mask [of 12 x] by (simp add: take_bit_eq_mod mask_eq_exp_minus_1)

lemma circ_pending:
  assumes "kr_ready (circ_ring c)"
  shows "uart_circ_chars_pending c = get_rb_length (circ_ring c)"
    and "uart_circ_empty c = is_rb_empty (circ_ring c)"
proof -
  have b: "0 \<le> cb_head c" "cb_head c < 4096" "0 \<le> cb_tail c" "cb_tail c < 4096"
    using assms by (auto simp: kr_ready_def kr_inv_def rb_inv_def circ_ring_def UART_XMIT_SIZE_def)
  show "uart_circ_chars_pending c = get_rb_length (circ_ring c)"
  proof (cases "cb_head c < cb_tail c")
    case True
    then have "(cb_head c - cb_tail c) mod 4096 = (cb_head c - cb_tail c + 4096) mod 4096" by simp
    also have "\<dots> = cb_head c - cb_tail c + 4096"
      using True b by (intro mod_pos_pos_trivial) auto
    finally show ?thesis using True
      by (simp add: uart_circ_chars_pending_def UART_XMIT_SIZE_def and_4095 get_rb_length_def circ_ring_def)
  next
    case False
    with b show ?thesis
      by (simp add: uart_circ_chars_pending_def UART_XMIT_SIZE_def and_4095 get_rb_length_def circ_ring_def)
  qed
  show "uart_circ_empty c = is_rb_empty (circ_ring c)"
    by (auto simp: uart_circ_empty_def is_rb_empty_def circ_ring_def)
qed

text \<open>One round copies the shorter of the two linear segments.\<close>

lemma legacy_chunk:
  assumes "kr_ready (circ_ring c)" "0 \<le> m1" "m1 \<le> get_rb_length (circ_ring c)"
  shows "(if (cb_tail c + m1) AND (UART_XMIT_SIZE - 1) < cb_tail c then UART_XMIT_SIZE - cb_tail c
      else m1) = min m1 (get_rb_llength (circ_ring c))"
proof -
  have b: "0 \<le> cb_tail c" "cb_tail c < 4096" "m1 < 4096"
    using assms rb_length_bounds(2) [of "circ_ring c"]
    by (auto simp: kr_ready_def kr_inv_def rb_inv_def circ_ring_def UART_XMIT_SIZE_def)
  have "(cb_tail c + m1) mod 4096 = (if cb_tail c + m1 < 4096 then cb_tail c + m1
      else cb_tail c + m1 - 4096)"
    using wrap_add [of "cb_tail c" 4096 m1] c_int_small [of "cb_tail c + m1"]
      smod_nonneg [of "cb_tail c + m1" 4096] b assms(2) by simp
  then show ?thesis
    using b assms(2,3)
    by (auto simp: and_4095 UART_XMIT_SIZE_def get_rb_llength_def circ_ring_def Let_def)
qed

lemma circ_pop:
  assumes "kr_ready (circ_ring c)" "0 \<le> n" "n \<le> get_rb_llength (circ_ring c)"
  shows "circ_ring (c\<lparr>cb_tail := (cb_tail c + n) AND (UART_XMIT_SIZE - 1)\<rparr>)
      = move_rb_head (circ_ring c) n"
    and "get_bytes (nat (cb_tail c)) (nat n) (cb_buf c) = rb_get (circ_ring c) n"
proof -
  have b: "0 \<le> cb_tail c" "cb_tail c < 4096" "n \<le> 4096"
    using assms rb_length_bounds(7,2) [of "circ_ring c"]
    by (auto simp: kr_ready_def kr_inv_def rb_inv_def circ_ring_def UART_XMIT_SIZE_def)
  then show "circ_ring (c\<lparr>cb_tail := (cb_tail c + n) AND (UART_XMIT_SIZE - 1)\<rparr>)
      = move_rb_head (circ_ring c) n"
    using assms(2) c_int_small [of "cb_tail c + n"] smod_nonneg [of "cb_tail c + n" 4096]
    by (simp add: move_rb_head_def circ_ring_def and_4095 UART_XMIT_SIZE_def)
  show "get_bytes (nat (cb_tail c)) (nat n) (cb_buf c) = rb_get (circ_ring c) n"
    by (simp add: rb_get_def circ_ring_def)
qed

text \<open>Rounds still needed: each segment boundary inside the copy costs one.\<close>

definition rounds :: "int \<Rightarrow> kring \<Rightarrow> kring \<Rightarrow> nat" where
  "rounds count tx q = 1 + of_bool (get_rb_lroom tx < count) + of_bool (get_rb_llength q < count)"

lemma legacy_round:
  fixes tx c count
  defines "q \<equiv> circ_ring c"
  defines "m \<equiv> min (min count (get_rb_lroom tx)) (get_rb_llength q)"
  assumes tx: "kr_inv tx" and q: "kr_ready q"
    and cnt: "0 < count" "count \<le> get_rb_room tx" "count \<le> get_rb_length q"
  shows "0 < m \<and> m \<le> count \<and> (\<exists>c'. kr_ready (circ_ring c') \<and>
      rb_contents (circ_ring c') = drop (nat m) (rb_contents q) \<and>
      legacy_loop (Suc k) count (get_rb_lroom tx) tx c =
        (if m < count then legacy_loop k (count - m) (get_rb_lroom (kr_push (take (nat m) (rb_contents q)) tx))
             (kr_push (take (nat m) (rb_contents q)) tx) c'
         else (kr_push (take (nat m) (rb_contents q)) tx, c')) \<and>
      circ_ring c' = move_rb_head q m)"
proof -
  have qi: "kr_inv q" "rb_inv q" "rb_inv tx" using q tx by (auto simp: kr_ready_def kr_inv_def)
  note bq = rb_length_bounds [OF qi(2)] and bt = rb_length_bounds [OF qi(3)]
  have pos: "0 < get_rb_lroom tx" "0 < get_rb_llength q"
    using rb_lroom_pos [OF qi(3)] cnt rb_llength_pos [OF qi(2)] rb_empty_iff [OF qi(2)] by auto
  have m: "0 < m" "m \<le> count" "m \<le> get_rb_llength q" "m \<le> get_rb_lroom tx"
    using pos cnt(1) by (auto simp: m_def)
  let ?c' = "c\<lparr>cb_tail := (cb_tail c + m) AND (UART_XMIT_SIZE - 1)\<rparr>"
  have pop: "circ_ring ?c' = move_rb_head q m"
    "get_bytes (nat (cb_tail c)) (nat m) (cb_buf c) = take (nat m) (rb_contents q)"
    using circ_pop [of c m] q m ring.peek_contents [OF q, of "nat m"] by (auto simp: q_def)
  have pop': "kr_ready (circ_ring ?c')" "rb_contents (circ_ring ?c') = drop (nat m) (rb_contents q)"
    using ring.pop_inv [OF q, of "nat m"] ring.pop_contents [OF q, of "nat m"] m pop(1) by auto
  have len: "int (length (take (nat m) (rb_contents q))) = m"
    using m bq(7) by simp
  have m1: "(if get_rb_lroom tx < count then get_rb_lroom tx else count) = min count (get_rb_lroom tx)"
    by simp
  have chunk: "(if (cb_tail c + min count (get_rb_lroom tx)) AND (UART_XMIT_SIZE - 1) < cb_tail c
      then UART_XMIT_SIZE - cb_tail c else min count (get_rb_lroom tx)) = m"
    using legacy_chunk [of c "min count (get_rb_lroom tx)"] q cnt pos by (simp add: m_def q_def)
  have "legacy_loop (Suc k) count (get_rb_lroom tx) tx c =
      (if m < count then legacy_loop k (count - m) (get_rb_lroom (kr_push (take (nat m) (rb_contents q)) tx))
             (kr_push (take (nat m) (rb_contents q)) tx) ?c'
         else (kr_push (take (nat m) (rb_contents q)) tx, ?c'))"
    unfolding legacy_loop.simps m1 Let_def chunk pop(2) kr_push_def len by simp
  with m pop pop' show ?thesis by blast
qed

lemma kr_push_room:
  assumes "kr_inv tx" "int (length bs) \<le> get_rb_room tx"
  shows "get_rb_room (kr_push bs tx) = get_rb_room tx - int (length bs)"
  using kr_push_length [OF assms] unfolding get_rb_room_def by (simp add: kr_push_def)

lemma lroom_push_ge:
  assumes "kr_inv tx" "int (length bs) \<le> get_rb_lroom tx"
  shows "get_rb_lroom tx - int (length bs) \<le> get_rb_lroom (kr_push bs tx)"
proof -
  have ri: "rb_inv tx" using assms(1) by (simp add: kr_inv_def)
  note b = rb_length_bounds [OF ri]
  have room: "get_rb_room (kr_push bs tx) = get_rb_room tx - int (length bs)"
    using kr_push_room [OF assms(1)] assms(2) b(5) by simp
  have tl: "rb_tail (kr_push bs tx) = (if rb_tail tx + int (length bs) < rb_size tx
      then rb_tail tx + int (length bs) else rb_tail tx + int (length bs) - rb_size tx)"
    using wrap_add [of "rb_tail tx" "rb_size tx" "int (length bs)"] ri assms(2) b(8)
    by (auto simp: kr_push_def move_rb_tail_def rb_inv_def)
  have sz: "rb_size (kr_push bs tx) = rb_size tx" by (simp add: kr_push_def)
  show ?thesis
    using assms(2) b(5,8) ri unfolding get_rb_lroom_def [of "kr_push bs tx"] Let_def room sz tl
    by (auto simp: rb_inv_def)
qed

lemma llength_pop_ge:
  assumes "kr_ready q" "0 \<le> m" "m \<le> get_rb_llength q"
  shows "get_rb_llength q - m \<le> get_rb_llength (move_rb_head q m)"
proof -
  have ri: "rb_inv q" "\<not> rb_clean q" using assms(1) by (auto simp: kr_ready_def kr_inv_def)
  note b = rb_length_bounds [OF ri(1)]
  have len: "get_rb_length (move_rb_head q m) = get_rb_length q - m"
    using rb_length_move_head [OF ri(1) assms(2) _ ri(2)] assms(3) b(7) by simp
  have hd: "rb_head (move_rb_head q m) = (if rb_head q + m < rb_size q then rb_head q + m
      else rb_head q + m - rb_size q)"
    using wrap_add [of "rb_head q" "rb_size q" m] ri assms b(9)
    by (auto simp: move_rb_head_def rb_inv_def rb_clean_def)
  show ?thesis
    using assms(3) b(7,9) ri(1) unfolding get_rb_llength_def [of "move_rb_head q m"] Let_def len hd
    by (auto simp: rb_inv_def)
qed

lemma rounds_less:
  assumes "kr_inv tx" "kr_ready q" "count \<le> get_rb_room tx" "count \<le> get_rb_length q"
    and m: "m = min (min count (get_rb_lroom tx)) (get_rb_llength q)" "m < count" "0 < m"
    and bs: "int (length bs) = m"
  shows "rounds (count - m) (kr_push bs tx) (move_rb_head q m) < rounds count tx q"
proof -
  have qi: "kr_inv q" "\<not> rb_clean q" "rb_inv q" "rb_inv tx"
    using assms(1,2) by (auto simp: kr_ready_def kr_inv_def)
  have room: "get_rb_room (kr_push bs tx) = get_rb_room tx - m"
    using kr_push_room [OF assms(1), of bs] bs m(2) assms(3) by simp
  have mb: "m \<le> get_rb_lroom tx" "m \<le> get_rb_llength q" using m(1) by simp_all
  have a: "get_rb_lroom (kr_push bs tx) < count - m \<Longrightarrow> get_rb_lroom tx < count"
    using lroom_push_ge [OF assms(1), of bs] bs mb by linarith
  have b: "get_rb_llength (move_rb_head q m) < count - m \<Longrightarrow> get_rb_llength q < count"
    using llength_pop_ge [OF assms(2), of m] mb m(3) by linarith
  consider "m = get_rb_lroom tx" | "m = get_rb_llength q" using m by (auto simp: min_def split: if_splits)
  then show ?thesis
  proof cases
    case 1
    then have "get_rb_lroom (kr_push bs tx) = get_rb_room tx - m"
      using kr_push_wrap [OF qi(4), of bs] room bs m(2) assms(3) by simp
    then show ?thesis using 1 m(2) assms(3) b by (auto simp: rounds_def)
  next
    case 2
    then have "get_rb_llength (move_rb_head q m) = get_rb_length q - m"
      using rb_pop_wrap [OF qi(1,2)] m(2) assms(4) by simp
    then show ?thesis using 2 m(2) assms(4) a by (auto simp: rounds_def)
  qed
qed

lemma legacy_loop_spec:
  assumes "kr_inv tx" "kr_ready (circ_ring c)" "0 < count" "count \<le> get_rb_room tx"
    "count \<le> get_rb_length (circ_ring c)" "rounds count tx (circ_ring c) \<le> k"
  shows "\<exists>tx' c'. legacy_loop k count (get_rb_lroom tx) tx c = (tx', c') \<and> kr_inv tx' \<and>
    kr_ready (circ_ring c') \<and>
    rb_contents tx' = rb_contents tx @ take (nat count) (rb_contents (circ_ring c)) \<and>
    rb_contents (circ_ring c') = drop (nat count) (rb_contents (circ_ring c))"
  using assms
proof (induction k arbitrary: count tx c)
  case 0
  then show ?case by (simp add: rounds_def)
next
  case (Suc k)
  let ?q = "circ_ring c"
  define m where "m = min (min count (get_rb_lroom tx)) (get_rb_llength ?q)"
  define tx1 where "tx1 = kr_push (take (nat m) (rb_contents ?q)) tx"
  from legacy_round [OF Suc.prems(1-5), of k] obtain c1 where m: "0 < m" "m \<le> count"
    and c1: "kr_ready (circ_ring c1)" "rb_contents (circ_ring c1) = drop (nat m) (rb_contents ?q)"
    "circ_ring c1 = move_rb_head ?q m"
    and step: "legacy_loop (Suc k) count (get_rb_lroom tx) tx c =
      (if m < count then legacy_loop k (count - m) (get_rb_lroom tx1) tx1 c1 else (tx1, c1))"
    unfolding m_def [symmetric] tx1_def [symmetric] by blast
  have len: "int (length (take (nat m) (rb_contents ?q))) = m" using m Suc.prems(5) by simp
  have "length (take (nat m) (rb_contents ?q)) \<le> nat (get_rb_lroom tx)"
    using len m(1) by (auto simp: m_def min_def split: if_splits)
  note push = kprod.push_inv [OF Suc.prems(1) this] kprod.push_contents [OF Suc.prems(1) this]
  show ?case
  proof (cases "m < count")
    case False
    then have "m = count" using m by simp
    with step push c1 show ?thesis by (auto simp: tx1_def)
  next
    case True
    have room: "get_rb_room tx1 = get_rb_room tx - m"
      using kr_push_room [OF Suc.prems(1), of "take (nat m) (rb_contents ?q)"] True Suc.prems(4)
      unfolding len tx1_def by simp
    have lq: "get_rb_length (circ_ring c1) = get_rb_length ?q - m"
      using rb_length_move_head [of ?q m] Suc.prems(2,5) m c1(3)
      by (simp add: kr_ready_def kr_inv_def)
    have rd: "rounds (count - m) tx1 (circ_ring c1) \<le> k"
      using rounds_less [OF Suc.prems(1,2,4,5) m_def True m(1) len] Suc.prems(6)
      unfolding c1(3) tx1_def by simp
    have "0 < count - m" "count - m \<le> get_rb_room tx1" "count - m \<le> get_rb_length (circ_ring c1)"
      using True Suc.prems(4,5) room lq by linarith+
    from Suc.IH [OF push(1) [folded tx1_def] c1(1) this rd]
    obtain tx' c' where fin: "legacy_loop k (count - m) (get_rb_lroom tx1) tx1 c1 = (tx', c')"
      "kr_inv tx'" "kr_ready (circ_ring c')"
      "rb_contents tx' = rb_contents tx1 @ take (nat (count - m)) (rb_contents (circ_ring c1))"
      "rb_contents (circ_ring c') = drop (nat (count - m)) (rb_contents (circ_ring c1))"
      by blast
    have split: "nat count = nat m + nat (count - m)" using m by simp
    have "rb_contents tx' = rb_contents tx @ take (nat count) (rb_contents ?q)"
      unfolding fin(4) c1(2) split take_add push(2) [folded tx1_def] by simp
    moreover have "rb_contents (circ_ring c') = drop (nat count) (rb_contents ?q)"
      unfolding fin(5) c1(2) split drop_drop by (simp add: add.commute)
    ultimately show ?thesis using step True fin(1-3) by auto
  qed
qed

lemma adv_uart_xmit_legacy_spec:
  assumes "kr_inv tx" "kr_ready (circ_ring c)"
  defines "n \<equiv> xmit_count tx (rb_contents (circ_ring c))"
  shows "\<exists>tx' c'. adv_uart_xmit_legacy tx c = (tx', c') \<and> kr_inv tx' \<and> kr_ready (circ_ring c') \<and>
    rb_contents tx' = rb_contents tx @ take n (rb_contents (circ_ring c)) \<and>
    rb_contents (circ_ring c') = drop n (rb_contents (circ_ring c))"
proof -
  let ?q = "circ_ring c"
  have ri: "rb_inv ?q" "rb_inv tx" using assms(1,2) by (auto simp: kr_ready_def kr_inv_def)
  note b = rb_length_bounds [OF ri(2)] and bq = rb_length_bounds [OF ri(1)]
  show ?thesis
  proof (cases "is_rb_empty ?q \<or> get_rb_room tx = 0")
    case True
    then have "n = 0" "adv_uart_xmit_legacy tx c = (tx, c)"
      using circ_pending [OF assms(2)] rb_empty_iff [OF ri(1)]
      by (auto simp: n_def xmit_count_def adv_uart_xmit_legacy_def)
    with assms(1,2) show ?thesis by simp
  next
    case False
    let ?cnt = "min (get_rb_length ?q) (get_rb_room tx)"
    have "0 < ?cnt" using False rb_empty_iff [OF ri(1)] b(3) bq(1) by auto
    moreover have "rounds ?cnt tx ?q \<le> 3" by (simp add: rounds_def)
    moreover have "nat ?cnt = n" by (auto simp: n_def xmit_count_def min_def)
    moreover have "adv_uart_xmit_legacy tx c = legacy_loop 3 ?cnt (get_rb_lroom tx) tx c"
      using False circ_pending [OF assms(2)]
      by (auto simp: adv_uart_xmit_legacy_def Let_def min_def)
    ultimately show ?thesis using legacy_loop_spec [OF assms(1,2), of ?cnt 3] by simp
  qed
qed

subsection \<open>Properties\<close>

text \<open>
  C35. The transmit routine for the circular buffer agrees with the current one: from a buffer
  holding the bytes of the fifo it appends the same bytes to the ring and leaves the same bytes
  behind. Its three rounds are enough, since ring and buffer have one wrap-around each.
\<close>

theorem legacy_xmit_equiv:
  assumes "lin_law lin" "kr_inv (v_rx v)" "kr_ready (circ_ring c)"
    and "u_fifo v = rb_contents (circ_ring c)"
  shows "rb_contents (fst (adv_uart_xmit_legacy (v_rx v) c)) = rb_contents (v_rx (adv_uart_xmit lin v)) \<and>
    rb_contents (circ_ring (snd (adv_uart_xmit_legacy (v_rx v) c))) = u_fifo (adv_uart_xmit lin v)"
  using adv_uart_xmit_legacy_spec [OF assms(2,3)] adv_uart_xmit_spec(2,3) [OF assms(1,2)]
  unfolding assms(4) by auto

definition sample_circ :: circ_buf where
  "sample_circ = \<lparr>cb_buf = replicate 4096 5, cb_head = 1, cb_tail = 4095\<rparr>"

lemma legacy_xmit_equiv_witness:
  "rb_contents (fst (adv_uart_xmit_legacy (sample_ring 2 3 [9, 9, 7, 9, 9]) sample_circ)) = [7, 5, 5]"
proof -
  let ?v = "sample_vcom (sample_ring 0 0 [0]) (sample_ring 2 3 [9, 9, 7, 9, 9]) [5, 5]"
  have q: "kr_ready (circ_ring sample_circ)"
    by (simp add: sample_circ_def circ_ring_def kr_ready_def kr_inv_def rb_inv_def rb_clean_def
        UART_XMIT_SIZE_def)
  have r: "kr_inv (v_rx ?v)" "rb_contents (sample_ring 2 3 [9, 9, 7, 9, 9]) = [7]"
    "xmit_count (sample_ring 2 3 [9, 9, 7, 9, 9]) [5, 5] = 2" "v_rx ?v = sample_ring 2 3 [9, 9, 7, 9, 9]" "u_fifo ?v = [5, 5]"
    by (simp_all add: sample_defs kr_inv_def rb_inv_def rb_contents_def rb_query_defs xmit_count_def)
  have "u_fifo ?v = rb_contents (circ_ring sample_circ)"
    by (simp add: sample_vcom_def sample_circ_def circ_ring_def rb_contents_def rb_query_defs
        UART_XMIT_SIZE_def upt_rec)
  from legacy_xmit_equiv [OF sample_lin_law r(1) q this] adv_uart_xmit_spec(2) [OF sample_lin_law r(1)]
  show ?thesis by (simp add: r)
qed

text \<open>
  On a kernel whose access check gives the same answer for both kinds of access, the ioctl
  handler for kernels before 5.0 does exactly what the current one does, and all three fault
  handlers install the same page; the set_termios of the 4.0 to 6.0 kernels is the current one.
\<close>

lemma legacy_handlers_equiv:
  assumes "ua_write_ok ux = ua_access_ok ux" "ua_read_ok ux = ua_access_ok ux"
  shows "adv_proc_ioctl_legacy lin ops cmd ux v t = adv_proc_ioctl lin ops cmd (uarg.truncate ux) v t \<and>
    adv_vma_nopage_4_10 v a s p = adv_vma_nopage v a s p \<and>
    adv_vma_nopage_old v a s p = adv_vma_nopage v a s p \<and>
    adv_uart_set_termios_4_0 k baud v = adv_uart_set_termios k baud v"
proof (intro conjI)
  show "adv_proc_ioctl_legacy lin ops cmd ux v t = adv_proc_ioctl lin ops cmd (uarg.truncate ux) v t"
    unfolding adv_proc_ioctl_legacy_def adv_proc_ioctl_def Let_def assms
    by (simp only: uarg.truncate_def uarg.simps)
qed (simp_all add: adv_uart_set_termios_4_0_def adv_uart_set_termios_def adv_vma_nopage_4_10_def
    adv_vma_nopage_old_def adv_vma_nopage_def)

lemma legacy_handlers_equiv_witness:
  "fst (adv_proc_ioctl_legacy sample_lin sample_tty ADVVCOM_IOCGRXBEGIN
     \<lparr>ua_access_ok = True, ua_put_ok = True, ua_get = None, ua_write_ok = True, ua_read_ok = True\<rparr>
     sample_port []) = 0"
  using legacy_handlers_equiv [of "\<lparr>ua_access_ok = True, ua_put_ok = True, ua_get = None,
      ua_write_ok = True, ua_read_ok = True\<rparr>" sample_lin sample_tty ADVVCOM_IOCGRXBEGIN sample_port "[]"]
  by (simp add: uarg.truncate_def ioctl_get reply_def put_user_def)

end
