(* ===== verification/Driver_Module.thy ===== *)
theory Driver_Module
  imports Driver_Main "HOL-Library.Multiset"
begin

text \<open>
  The life of the module in driver/adv_main.c and driver/adv_uart.c: registration with the serial core and the proc
  file system, the two lists of ports, module start and module end, with the older registration code of
  driver/legacy. The results of the kernel are parameters; every call the module makes is recorded in order, and
  \<open>live_after\<close> reads such a record as the acquisition and release of resources.
\<close>

subsection \<open>Calls of the kernel\<close>

datatype page_of = TX_PAGE | RX_PAGE | ATTR_PAGE

datatype kcall =
    K_mkdir | K_proc_remove_root
  | K_register_driver int | K_unregister_driver
  | K_pdev_alloc bool | K_pdev_add int | K_pdev_del | K_pdev_put
  | K_alloc_vcom int | K_free_vcom int
  | K_alloc_page page_of int | K_free_page page_of int
  | K_proc_create int | K_proc_remove int
  | K_alloc_uart int
  | K_add_port int int | K_remove_port int

text \<open>What the kernel answers: the registration, the platform device, and the addition of each port.\<close>

record kapi =
  ka_register :: int
  ka_pdev_alloc :: bool
  ka_pdev_add :: int
  ka_add_port :: "int \<Rightarrow> int"

text \<open>\<open>km_vcom_list\<close> and \<open>km_uart_list\<close> are the indices on the two lists, \<open>km_devs\<close> whether \<^verbatim>\<open>adv_vcom_devs\<close> is not null.\<close>

record kmod =
  km_calls :: "kcall list"
  km_vcom_list :: "int list"
  km_uart_list :: "int list"
  km_devs :: bool

definition calls :: "kcall list \<Rightarrow> kmod \<Rightarrow> kmod" where
  "calls cs s = s\<lparr>km_calls := km_calls s @ cs\<rparr>"

subsection \<open>The serial core\<close>

definition adv_uart_register :: "kapi \<Rightarrow> kmod \<Rightarrow> int \<times> kmod" where
  "adv_uart_register api s =
     (let ret = ka_register api; s1 = calls [K_register_driver ret] s in
      if ret < 0 then (ret, calls [K_unregister_driver] s1)
      else let s2 = (calls [K_pdev_alloc (ka_pdev_alloc api)] s1)\<lparr>km_devs := ka_pdev_alloc api\<rparr> in
        if \<not> ka_pdev_alloc api then (- 1, s2)
        else let ret2 = ka_pdev_add api; s3 = calls [K_pdev_add ret2] s2 in
          if ret2 < 0 then (ret2, calls [K_pdev_put] s3) else (ret2, s3))"

definition adv_uart_init :: "kapi \<Rightarrow> int \<Rightarrow> kmod \<Rightarrow> int \<times> kmod" where
  "adv_uart_init api index s =
     (let ret = ka_add_port api index;
          s1 = calls [K_alloc_uart index, K_add_port index ret] s
      in (ret, s1\<lparr>km_uart_list := index # km_uart_list s1\<rparr>))"

text \<open>A search that finds nothing ends on the list head and reads a line number from the memory around it.\<close>

definition adv_uart_rm_port :: "int \<Rightarrow> kmod \<Rightarrow> (int \<times> kmod) out" where
  "adv_uart_rm_port index s =
     (case find (\<lambda>line. line = index) (km_uart_list s) of
        None \<Rightarrow> Crash
      | Some line \<Rightarrow> Ok (0, calls [K_remove_port line] s))"

definition adv_uart_release :: "kmod \<Rightarrow> int \<times> kmod" where
  "adv_uart_release s = (0, calls ((if km_devs s then [K_pdev_del, K_pdev_put] else []) @ [K_unregister_driver]) s)"

subsection \<open>Ports\<close>

definition main_init_calls :: "int \<Rightarrow> kmod \<Rightarrow> kmod" where
  "main_init_calls port s =
     (let s1 = calls [K_alloc_vcom port, K_alloc_page TX_PAGE port, K_alloc_page RX_PAGE port, K_alloc_page ATTR_PAGE port,
                      K_proc_create port] s
      in s1\<lparr>km_vcom_list := port # km_vcom_list s1\<rparr>)"

definition main_release_calls :: "int \<Rightarrow> kmod \<Rightarrow> (int \<times> kmod) out" where
  "main_release_calls port s =
     (if port \<in> set (km_vcom_list s)
      then Ok (0, (calls [K_proc_remove port, K_free_page RX_PAGE port, K_free_page TX_PAGE port, K_free_page ATTR_PAGE port,
                          K_free_vcom port] s)\<lparr>km_vcom_list := remove1 port (km_vcom_list s)\<rparr>)
      else Crash)"

subsection \<open>Module start and end\<close>

fun init_ports :: "kapi \<Rightarrow> int list \<Rightarrow> kmod \<Rightarrow> kmod" where
  "init_ports api [] s = s"
| "init_ports api (i # is) s = init_ports api is (snd (adv_uart_init api i (main_init_calls i s)))"

definition module_start :: "kapi \<Rightarrow> kmod \<Rightarrow> int \<times> kmod" where
  "module_start api s =
     (0, init_ports api (map int [0..<VCOM_PORTS]) (snd (adv_uart_register api (calls [K_mkdir] s))))"

fun exit_ports :: "int list \<Rightarrow> kmod \<Rightarrow> kmod out" where
  "exit_ports [] s = Ok s"
| "exit_ports (i # is) s =
     out_bind (adv_uart_rm_port i s) (\<lambda>(r, s1). out_bind (main_release_calls i s1) (\<lambda>(r', s2). exit_ports is s2))"

definition module_end :: "kmod \<Rightarrow> kmod out" where
  "module_end s =
     out_bind (exit_ports (map int [0..<VCOM_PORTS]) s) (\<lambda>s1. Ok (calls [K_proc_remove_root] (snd (adv_uart_release s1))))"

definition module_loaded :: kmod where
  "module_loaded = \<lparr>km_calls = [], km_vcom_list = [], km_uart_list = [], km_devs = False\<rparr>"

subsection \<open>Older kernels\<close>

definition adv_uart_register_legacy :: "kapi \<Rightarrow> kmod \<Rightarrow> int \<times> kmod" where
  "adv_uart_register_legacy api s =
     (let ret = ka_register api; s1 = calls [K_register_driver ret] s in
      if ret < 0 then (ret, calls [K_unregister_driver] s1) else (ret, s1))"

definition adv_uart_init_legacy :: "kapi \<Rightarrow> int \<Rightarrow> kmod \<Rightarrow> int \<times> kmod" where
  "adv_uart_init_legacy api index s =
     (let ret = ka_add_port api index;
          s1 = calls [K_alloc_uart index, K_add_port index ret] s
      in (ret, s1\<lparr>km_uart_list := index # km_uart_list s1\<rparr>))"

definition adv_uart_release_legacy :: "kmod \<Rightarrow> int \<times> kmod" where
  "adv_uart_release_legacy s = (0, calls [K_unregister_driver] s)"

subsection \<open>Files and the remaining operations\<close>

text \<open>An open file and a mapping carry the port they belong to.\<close>

record 'd kfile =
  kf_private :: "'d option"

record 'd kvma =
  vma_ops :: bool
  vma_private :: "'d option"

definition adv_proc_open :: "'d \<Rightarrow> 'd kfile \<Rightarrow> int \<times> 'd kfile" where
  "adv_proc_open data filp = (0, filp\<lparr>kf_private := Some data\<rparr>)"

definition adv_proc_open_legacy :: "'d \<Rightarrow> 'd kfile \<Rightarrow> int \<times> 'd kfile" where
  "adv_proc_open_legacy data filp = (0, filp\<lparr>kf_private := Some data\<rparr>)"

definition adv_proc_release :: "'d kfile \<Rightarrow> int \<times> 'd kfile" where
  "adv_proc_release filp = (0, filp)"

definition adv_proc_mmap :: "'d kfile \<Rightarrow> 'd kvma \<Rightarrow> int \<times> 'd kvma" where
  "adv_proc_mmap filp vma = (0, vma\<lparr>vma_ops := True, vma_private := kf_private filp\<rparr>)"

definition ENOIOCTLCMD :: int where "ENOIOCTLCMD = 515"

definition adv_uart_ioctl :: "u32 \<Rightarrow> u64 \<Rightarrow> adv_vcom \<Rightarrow> int \<times> adv_vcom" where
  "adv_uart_ioctl cmd arg v = (- ENOIOCTLCMD, v)"

definition adv_uart_request_port :: "adv_vcom \<Rightarrow> int \<times> adv_vcom" where
  "adv_uart_request_port v = (0, v)"

definition adv_uart_type :: "adv_vcom \<Rightarrow> string" where
  "adv_uart_type v = ''Advantech VCOM''"

subsection \<open>Resources\<close>

text \<open>
  A record of calls as acquisitions and releases: None means that something is released or used that is not
  there, acquired twice, or released while another resource still depends on it. A port depends on the
  driver, on its platform device and on the memory of both structures; a proc entry on its directory and on the
  structure it hands to its callers.
\<close>

datatype resource = R_root | R_driver | R_pdev | R_pdev_added | R_vcom int | R_page page_of int | R_entry int | R_uart int | R_port int

definition acquire :: "resource set \<Rightarrow> resource \<Rightarrow> resource set \<Rightarrow> resource set option" where
  "acquire needs r live = (if needs \<subseteq> live \<and> r \<notin> live then Some (insert r live) else None)"

definition release :: "(resource \<Rightarrow> bool) \<Rightarrow> resource \<Rightarrow> resource set \<Rightarrow> resource set option" where
  "release dep r live = (if r \<in> live \<and> (\<forall>x\<in>live. \<not> dep x) then Some (live - {r}) else None)"

fun is_port :: "resource \<Rightarrow> bool" where
  "is_port (R_port i) = True"
| "is_port _ = False"

fun is_entry :: "resource \<Rightarrow> bool" where
  "is_entry (R_entry i) = True"
| "is_entry _ = False"

fun kstep :: "kcall \<Rightarrow> resource set \<Rightarrow> resource set option" where
  "kstep K_mkdir live = acquire {} R_root live"
| "kstep K_proc_remove_root live = release is_entry R_root live"
| "kstep (K_register_driver r) live = (if r < 0 then Some live else acquire {} R_driver live)"
| "kstep K_unregister_driver live = release is_port R_driver live"
| "kstep (K_pdev_alloc b) live = (if b then acquire {} R_pdev live else Some live)"
| "kstep (K_pdev_add r) live = (if r < 0 then Some live else acquire {R_pdev} R_pdev_added live)"
| "kstep K_pdev_del live = release is_port R_pdev_added live"
| "kstep K_pdev_put live = release (\<lambda>x. is_port x \<or> x = R_pdev_added) R_pdev live"
| "kstep (K_alloc_vcom i) live = acquire {} (R_vcom i) live"
| "kstep (K_free_vcom i) live = release (\<lambda>x. x \<in> {R_entry i, R_port i}) (R_vcom i) live"
| "kstep (K_alloc_page p i) live = acquire {R_vcom i} (R_page p i) live"
| "kstep (K_free_page p i) live = release (\<lambda>x. x \<in> {R_entry i, R_port i}) (R_page p i) live"
| "kstep (K_proc_create i) live = acquire {R_root, R_vcom i} (R_entry i) live"
| "kstep (K_proc_remove i) live = release (\<lambda>x. False) (R_entry i) live"
| "kstep (K_alloc_uart i) live = acquire {} (R_uart i) live"
| "kstep (K_add_port i r) live = (if r < 0 then Some live else acquire {R_driver, R_pdev, R_vcom i, R_uart i} (R_port i) live)"
| "kstep (K_remove_port i) live = release (\<lambda>x. False) (R_port i) live"

fun live_after :: "kcall list \<Rightarrow> resource set \<Rightarrow> resource set option" where
  "live_after [] live = Some live"
| "live_after (c # cs) live = Option.bind (kstep c live) (live_after cs)"

subsection \<open>The calls of one port\<close>

definition port_resources :: "int \<Rightarrow> resource set" where
  "port_resources i = {R_vcom i, R_page TX_PAGE i, R_page RX_PAGE i, R_page ATTR_PAGE i, R_entry i, R_uart i, R_port i}"

definition base_resources :: "resource set" where
  "base_resources = {R_root, R_driver, R_pdev, R_pdev_added}"

definition start_calls :: "kapi \<Rightarrow> int \<Rightarrow> kcall list" where
  "start_calls api i = [K_alloc_vcom i, K_alloc_page TX_PAGE i, K_alloc_page RX_PAGE i, K_alloc_page ATTR_PAGE i, K_proc_create i,
     K_alloc_uart i, K_add_port i (ka_add_port api i)]"

definition end_calls :: "int \<Rightarrow> kcall list" where
  "end_calls i = [K_remove_port i, K_proc_remove i, K_free_page RX_PAGE i, K_free_page TX_PAGE i, K_free_page ATTR_PAGE i, K_free_vcom i]"

lemma live_after_append: "live_after (xs @ ys) L = Option.bind (live_after xs L) (live_after ys)"
  by (induction xs arbitrary: L) (auto split: Option.bind_splits)

lemma init_ports_eq:
  "init_ports api is s = s\<lparr>km_calls := km_calls s @ concat (map (start_calls api) is), km_vcom_list := rev is @ km_vcom_list s,
     km_uart_list := rev is @ km_uart_list s\<rparr>"
  by (induction "is" arbitrary: s) (simp_all add: adv_uart_init_def main_init_calls_def calls_def start_calls_def Let_def)

lemma find_same: "i \<in> set xs \<Longrightarrow> find (\<lambda>x. x = i) xs = Some i"
  by (induction xs) auto

lemma exit_ports_eq:
  assumes "distinct is" "set is \<subseteq> set (km_uart_list s)" "set is \<subseteq> set (km_vcom_list s)"
  shows "\<exists>vs. exit_ports is s = Ok (s\<lparr>km_calls := km_calls s @ concat (map end_calls is), km_vcom_list := vs\<rparr>) \<and>
    mset vs = mset (km_vcom_list s) - mset is"
  using assms
proof (induction "is" arbitrary: s)
  case Nil
  show ?case by (intro exI [of _ "km_vcom_list s"]) simp
next
  case (Cons i "is")
  let ?s = "s\<lparr>km_calls := km_calls s @ end_calls i, km_vcom_list := remove1 i (km_vcom_list s)\<rparr>"
  have f: "find (\<lambda>line. line = i) (km_uart_list s) = Some i" using Cons.prems(2) by (simp add: find_same)
  have st: "exit_ports (i # is) s = exit_ports is ?s"
    using f Cons.prems(3) by (simp add: adv_uart_rm_port_def main_release_calls_def calls_def end_calls_def)
  have "x \<in> set (remove1 i (km_vcom_list s))" if "x \<in> set is" for x
  proof -
    have "x \<noteq> i" "x \<in> set (km_vcom_list s)" using Cons.prems(1,3) that by auto
    thus ?thesis by simp
  qed
  hence "set is \<subseteq> set (km_vcom_list ?s)" by auto
  with Cons.IH [of ?s] Cons.prems(1,2) st show ?case by auto
qed

lemmas port_sets = port_resources_def base_resources_def acquire_def release_def

lemma start_port_live:
  assumes "base_resources \<subseteq> L" "port_resources i \<inter> L = {}" "0 \<le> ka_add_port api i"
  shows "live_after (start_calls api i) L = Some (L \<union> port_resources i)"
  using assms by (simp add: start_calls_def port_sets insert_commute)

lemma end_port_live:
  assumes "port_resources i \<subseteq> L"
  shows "live_after (end_calls i) L = Some (L - (port_resources i - {R_uart i}))"
proof -
  have "L - {R_port i} - {R_entry i} - {R_page RX_PAGE i} - {R_page TX_PAGE i} - {R_page ATTR_PAGE i} - {R_vcom i} =
      L - (port_resources i - {R_uart i})" by (auto simp: port_resources_def)
  thus ?thesis using assms by (simp add: end_calls_def port_sets)
qed

lemma ports_disjoint: "i \<noteq> j \<Longrightarrow> port_resources i \<inter> port_resources j = {}"
  by (auto simp: port_resources_def)

lemma start_ports_live:
  assumes "distinct is" "base_resources \<subseteq> L" "\<forall>i\<in>set is. port_resources i \<inter> L = {}" "\<forall>i\<in>set is. 0 \<le> ka_add_port api i"
  shows "live_after (concat (map (start_calls api) is)) L = Some (L \<union> (\<Union>i\<in>set is. port_resources i))"
  using assms
proof (induction "is" arbitrary: L)
  case (Cons i "is")
  have "live_after (start_calls api i) L = Some (L \<union> port_resources i)" using Cons.prems by (intro start_port_live) auto
  moreover have "\<forall>j\<in>set is. port_resources j \<inter> (L \<union> port_resources i) = {}"
  proof
    fix j assume "j \<in> set is"
    hence "port_resources j \<inter> L = {}" "port_resources j \<inter> port_resources i = {}" using Cons.prems(1,3) ports_disjoint [of j i] by auto
    thus "port_resources j \<inter> (L \<union> port_resources i) = {}" by blast
  qed
  moreover have "base_resources \<subseteq> L \<union> port_resources i" using Cons.prems(2) by blast
  ultimately show ?case using Cons.IH [of "L \<union> port_resources i"] Cons.prems(1,4) by (simp add: live_after_append Un_assoc)
qed simp

lemma end_ports_live:
  assumes "distinct is" "\<forall>i\<in>set is. port_resources i \<subseteq> L"
  shows "live_after (concat (map end_calls is)) L = Some (L - (\<Union>i\<in>set is. port_resources i - {R_uart i}))"
  using assms
proof (induction "is" arbitrary: L)
  case (Cons i "is")
  let ?L = "L - (port_resources i - {R_uart i})"
  have "\<forall>j\<in>set is. port_resources j \<subseteq> ?L"
  proof
    fix j assume "j \<in> set is"
    hence "port_resources j \<subseteq> L" "port_resources j \<inter> port_resources i = {}" using Cons.prems ports_disjoint [of j i] by auto
    thus "port_resources j \<subseteq> ?L" by blast
  qed
  with Cons.IH [of ?L] end_port_live [of i L] Cons.prems show ?case by (simp add: live_after_append Diff_Un Diff_eq Int_assoc)
qed simp

subsection \<open>Properties\<close>

definition kapi_ok :: "kapi \<Rightarrow> bool" where
  "kapi_ok api \<longleftrightarrow> 0 \<le> ka_register api \<and> ka_pdev_alloc api \<and> 0 \<le> ka_pdev_add api"

abbreviation (input) all_ports :: "int list" where
  "all_ports \<equiv> map int [0..<VCOM_PORTS]"

definition running :: "kapi \<Rightarrow> kmod" where
  "running api = \<lparr>km_calls = [K_mkdir, K_register_driver (ka_register api), K_pdev_alloc True, K_pdev_add (ka_pdev_add api)] @
       concat (map (start_calls api) all_ports), km_vcom_list = rev all_ports, km_uart_list = rev all_ports, km_devs = True\<rparr>"

lemma module_start_eq: "kapi_ok api \<Longrightarrow> module_start api module_loaded = (0, running api)"
  by (simp add: module_start_def adv_uart_register_def init_ports_eq running_def module_loaded_def calls_def kapi_ok_def Let_def)

lemma running_live:
  assumes "kapi_ok api" "\<forall>i. 0 \<le> ka_add_port api i"
  shows "live_after (km_calls (running api)) {} = Some (base_resources \<union> (\<Union>i\<in>set all_ports. port_resources i))"
proof -
  have "live_after [K_mkdir, K_register_driver (ka_register api), K_pdev_alloc True, K_pdev_add (ka_pdev_add api)] {} = Some base_resources"
    using assms(1) by (auto simp: kapi_ok_def acquire_def base_resources_def)
  moreover have "live_after (concat (map (start_calls api) all_ports)) base_resources =
      Some (base_resources \<union> (\<Union>i\<in>set all_ports. port_resources i))"
    using assms(2) by (intro start_ports_live) (auto simp: distinct_map port_resources_def base_resources_def)
  ultimately show ?thesis by (simp only: running_def kmod.simps live_after_append bind.bind_lunit)
qed

lemma module_end_eq:
  "\<exists>s. module_end (running api) = Ok s \<and> km_vcom_list s = [] \<and> km_uart_list s = rev all_ports \<and>
    km_calls s = km_calls (running api) @ concat (map end_calls all_ports) @ [K_pdev_del, K_pdev_put, K_unregister_driver, K_proc_remove_root]"
proof -
  obtain vs where vs: "exit_ports all_ports (running api) =
      Ok ((running api)\<lparr>km_calls := km_calls (running api) @ concat (map end_calls all_ports), km_vcom_list := vs\<rparr>)"
    "mset vs = mset (km_vcom_list (running api)) - mset all_ports"
    using exit_ports_eq [of all_ports "running api"] by (auto simp: distinct_map running_def)
  have "vs = []" using vs(2) by (simp add: running_def)
  with vs(1) show ?thesis by (simp add: module_end_def adv_uart_release_def calls_def running_def del: map_map)
qed

text \<open>
  C32. Loading and unloading the module: when the kernel accepts the driver and its ports, module start acquires the
  proc directory, the driver, the platform device and for each of the 256 ports its structures, pages, proc
  entry and serial port, everything it depends on first; module end releases all of it in an order in
  which nothing is used or freed too early or twice, except the 256 structures of the serial ports, which
  are never freed.
\<close>

theorem module_lifecycle:
  assumes "kapi_ok api" "\<forall>i. 0 \<le> ka_add_port api i"
  shows "\<exists>s0 s. module_start api module_loaded = (0, s0) \<and> module_end s0 = Ok s \<and> km_vcom_list s = [] \<and>
    live_after (km_calls s0) {} = Some (base_resources \<union> (\<Union>i\<in>int ` {..<256}. port_resources i)) \<and>
    live_after (km_calls s) {} = Some (R_uart ` int ` {..<256})"
proof -
  obtain s where s: "module_end (running api) = Ok s" "km_vcom_list s = []"
    "km_calls s = km_calls (running api) @ concat (map end_calls all_ports) @ [K_pdev_del, K_pdev_put, K_unregister_driver, K_proc_remove_root]"
    using module_end_eq by blast
  let ?P = "\<Union>i\<in>set all_ports. port_resources i"
  have ports: "set all_ports = int ` {..<256}" by (auto simp: VCOM_PORTS_def)
  have "live_after (concat (map end_calls all_ports)) (base_resources \<union> ?P) =
      Some (base_resources \<union> ?P - (\<Union>i\<in>set all_ports. port_resources i - {R_uart i}))"
    by (intro end_ports_live) (auto simp: distinct_map)
  moreover have "base_resources \<union> ?P - (\<Union>i\<in>set all_ports. port_resources i - {R_uart i}) = base_resources \<union> R_uart ` set all_ports"
    by (auto simp: port_resources_def base_resources_def)
  moreover have "live_after [K_pdev_del, K_pdev_put, K_unregister_driver, K_proc_remove_root] (base_resources \<union> R_uart ` set all_ports) =
      Some (R_uart ` set all_ports)"
    by (auto simp: release_def base_resources_def)
  ultimately have "live_after (km_calls s) {} = Some (R_uart ` int ` {..<256})"
    using running_live [OF assms] by (simp only: s(3) live_after_append bind.bind_lunit ports)
  thus ?thesis using module_start_eq [OF assms(1)] running_live [OF assms] s(1,2) by (simp only: ports) blast
qed

definition sample_kapi :: kapi where
  "sample_kapi = \<lparr>ka_register = 0, ka_pdev_alloc = True, ka_pdev_add = 0, ka_add_port = (\<lambda>i. 0)\<rparr>"

lemma module_lifecycle_witness:
  "\<exists>s0 s. module_start sample_kapi module_loaded = (0, s0) \<and> module_end s0 = Ok s \<and> live_after (km_calls s) {} = Some (R_uart ` int ` {..<256})"
  using module_lifecycle [of sample_kapi] by (auto simp: kapi_ok_def sample_kapi_def)

text \<open>
  When the platform device cannot be added, adv_uart_register drops its last reference but keeps the pointer, and
  adv_vcom_init ignores the error: the first port that is added refers to the released device.
\<close>

lemma register_failure_ignored:
  assumes "0 \<le> ka_register api" "ka_pdev_alloc api" "ka_pdev_add api < 0" "0 \<le> ka_add_port api 0"
  shows "fst (module_start api module_loaded) = 0 \<and> live_after (km_calls (snd (module_start api module_loaded))) {} = None"
proof -
  let ?pre = "[K_mkdir, K_register_driver (ka_register api), K_pdev_alloc True, K_pdev_add (ka_pdev_add api), K_pdev_put]"
  have p: "all_ports = 0 # map int [1..<256]" by (simp add: VCOM_PORTS_def upt_conv_Cons)
  have "km_calls (snd (module_start api module_loaded)) = ?pre @ start_calls api 0 @ concat (map (start_calls api) (map int [1..<256]))"
    using assms(1-3) by (simp add: module_start_def adv_uart_register_def init_ports_eq module_loaded_def calls_def Let_def p)
  moreover have "live_after (?pre @ start_calls api 0) {} = None"
    using assms by (simp add: acquire_def release_def start_calls_def)
  ultimately show ?thesis by (simp only: append_assoc [symmetric] live_after_append [of "?pre @ start_calls api 0"]) (simp add: module_start_def)
qed

text \<open>The structure a file handler finds is the one its proc entry was created with, and a mapping keeps it.\<close>

lemma file_reaches_port:
  "snd (adv_proc_open data filp) = filp' \<Longrightarrow> kf_private (snd (adv_proc_release filp')) = Some data \<and>
    vma_private (snd (adv_proc_mmap filp' vma)) = Some data \<and> snd (adv_proc_open_legacy data filp) = filp'"
  by (auto simp: adv_proc_open_def adv_proc_release_def adv_proc_mmap_def adv_proc_open_legacy_def)

end
