(* ===== verification/Vcom_Os.thy ===== *)
theory Vcom_Os
  imports Driver_Uart
begin

text \<open>
  What the daemon uses of the operating system, as a record of functions on a world \<open>'w\<close>: the
  ioctls and the mapped pages of the proc file, sockets, \<^verbatim>\<open>select\<close>, name resolution, time and
  OpenSSL. The daemon's definitions take the record as an argument; \<open>select_law\<close> and \<open>io_law\<close> state
  the documented behaviour some of the theorems need. Vcom_Link provides an instance whose
  ioctls and pages are those of the driver model.
\<close>

subsection \<open>Descriptor sets\<close>

text \<open>
  A descriptor set is the list of its members. \<^verbatim>\<open>FD_SET\<close> of a negative descriptor is undefined
  in C; it adds no member here.
\<close>

definition FD_SET :: "int \<Rightarrow> int list \<Rightarrow> int list" where
  "FD_SET fd s = (if fd < 0 then s else fd # s)"

definition FD_ISSET :: "int \<Rightarrow> int list \<Rightarrow> bool" where
  "FD_ISSET fd s \<longleftrightarrow> fd \<in> set s"

text \<open>A time value: seconds and microseconds.\<close>

type_synonym timeval = "int \<times> int"

record fdsel =
  fs_ret :: int
  fs_r :: "int list"
  fs_w :: "int list"
  fs_e :: "int list"
  fs_tv :: timeval

subsection \<open>Interfaces and addresses\<close>

record ifaddr =
  ifa_name :: string
  ifa_family :: int

record addrinfo =
  ai_family :: int
  ai_addr :: string

subsection \<open>The operating system\<close>

text \<open>
  \<open>os_ioctl cmd arg w\<close> returns the result, the value of the argument afterwards and the new
  world. \<open>os_recv sk n w\<close> returns the result and the bytes stored. A call that fails leaves its
  reason in the world. \<open>os_uninit n w\<close> is what a local array of \<open>n\<close> bytes holds before it is
  written.
\<close>

record 'w os =
  os_ioctl :: "u32 \<Rightarrow> int \<Rightarrow> 'w \<Rightarrow> int \<times> int \<times> 'w"
  os_mread :: "int \<Rightarrow> nat \<Rightarrow> 'w \<Rightarrow> byte list"
  os_mwrite :: "int \<Rightarrow> byte list \<Rightarrow> 'w \<Rightarrow> 'w"
  os_attr :: "int \<Rightarrow> int \<Rightarrow> 'w \<Rightarrow> adv_port_info"
  os_uninit :: "nat \<Rightarrow> 'w \<Rightarrow> byte list"
  os_select :: "int \<Rightarrow> int list \<Rightarrow> int list \<Rightarrow> int list \<Rightarrow> timeval \<Rightarrow> 'w \<Rightarrow> fdsel \<times> 'w"
  os_send :: "int \<Rightarrow> byte list \<Rightarrow> 'w \<Rightarrow> int \<times> 'w"
  os_recv :: "int \<Rightarrow> nat \<Rightarrow> 'w \<Rightarrow> int \<times> byte list \<times> 'w"
  os_close :: "int \<Rightarrow> 'w \<Rightarrow> 'w"
  os_getfl :: "int \<Rightarrow> 'w \<Rightarrow> int"
  os_setfl :: "int \<Rightarrow> int \<Rightarrow> 'w \<Rightarrow> int \<times> 'w"
  os_time :: "'w \<Rightarrow> int \<times> 'w"
  os_sleep :: "nat \<Rightarrow> 'w \<Rightarrow> 'w"
  os_getifaddrs :: "'w \<Rightarrow> ifaddr list option \<times> 'w"
  os_getaddrinfo :: "string \<Rightarrow> 'w \<Rightarrow> addrinfo list option \<times> 'w"
  os_socket :: "int \<Rightarrow> 'w \<Rightarrow> int \<times> 'w"
  os_bind :: "int \<Rightarrow> ifaddr \<Rightarrow> 'w \<Rightarrow> int \<times> 'w"
  os_connect :: "int \<Rightarrow> addrinfo \<Rightarrow> 'w \<Rightarrow> int \<times> bool \<times> 'w"
  os_so_error :: "int \<Rightarrow> 'w \<Rightarrow> int \<times> int \<times> 'w"
  os_nodelay :: "int \<Rightarrow> 'w \<Rightarrow> 'w"
  os_SSL_new :: "'w \<Rightarrow> bool \<times> 'w"
  os_SSL_set_fd :: "int \<Rightarrow> 'w \<Rightarrow> int \<times> 'w"
  os_SSL_connect :: "'w \<Rightarrow> int \<times> 'w"
  os_SSL_accept :: "'w \<Rightarrow> int \<times> 'w"
  os_SSL_read :: "nat \<Rightarrow> 'w \<Rightarrow> int \<times> byte list \<times> 'w"
  os_SSL_write :: "byte list \<Rightarrow> 'w \<Rightarrow> int \<times> 'w"
  os_SSL_get_error :: "int \<Rightarrow> 'w \<Rightarrow> int"
  os_SSL_pending :: "'w \<Rightarrow> int"
  os_SSL_shutdown :: "'w \<Rightarrow> 'w"
  os_SSL_free :: "'w \<Rightarrow> 'w"

text \<open>
  \<^verbatim>\<open>select\<close>: a positive result means that what it leaves in the sets is part of what it was
  given and not empty.
\<close>

definition select_law :: "'w os \<Rightarrow> bool" where
  "select_law os \<longleftrightarrow> (\<forall>n r wr e tv w. let s = fst (os_select os n r wr e tv w) in
     0 < fs_ret s \<longrightarrow> set (fs_r s) \<subseteq> set r \<and> set (fs_w s) \<subseteq> set wr \<and> set (fs_e s) \<subseteq> set e \<and>
       (fs_r s \<noteq> [] \<or> fs_w s \<noteq> [] \<or> fs_e s \<noteq> []))"

text \<open>
  Reading from a socket or an SSL object stores as many bytes as it reports and at most as many
  as asked for; an uninitialised array has its size, and so has a read of mapped memory.
\<close>

definition io_law :: "'w os \<Rightarrow> bool" where
  "io_law os \<longleftrightarrow>
     (\<forall>sk n w. fst (os_recv os sk n w) \<le> int n \<and>
        length (fst (snd (os_recv os sk n w))) = nat (fst (os_recv os sk n w))) \<and>
     (\<forall>n w. fst (os_SSL_read os n w) \<le> int n \<and>
        length (fst (snd (os_SSL_read os n w))) = nat (fst (os_SSL_read os n w))) \<and>
     (\<forall>n w. length (os_uninit os n w) = n) \<and> (\<forall>o' n w. length (os_mread os o' n w) = n)"

end
