(* ===== verification/Ssl_Select.thy ===== *)
theory Ssl_Select
  imports Vcom_Os
begin

text \<open>
  shared/ssl_select/ssl_select.c: non-blocking TLS on top of OpenSSL. The three macro families
  of the source (one attempt, attempts until a timeout, the same with milliseconds) are one
  definition each, instantiated for connect, accept, send and receive. An SSL object is a flag
  in \<open>ssl_info\<close>, True while it is allocated; a call on an object that is not is \<open>Crash\<close>. A wait
  loop that never ends is \<open>Hang\<close>.
\<close>

subsection \<open>Data\<close>

definition SSL_OPS_FAIL :: int where "SSL_OPS_FAIL = - 1"
definition SSL_OPS_SELECT :: int where "SSL_OPS_SELECT = - 2"

abbreviation (input) SSL_ERROR_WANT_READ :: int where "SSL_ERROR_WANT_READ \<equiv> 2"
abbreviation (input) SSL_ERROR_WANT_WRITE :: int where "SSL_ERROR_WANT_WRITE \<equiv> 3"

record wait_event =
  we_write :: bool
  we_read :: bool

record ssl_info =
  si_sk :: int
  si_ssl :: bool
  si_recv :: wait_event
  si_send :: wait_event
  si_connect :: wait_event
  si_accept :: wait_event

datatype ssl_action = Accept | Connect | Recv | Send

fun get_wev :: "ssl_action \<Rightarrow> ssl_info \<Rightarrow> wait_event" where
  "get_wev Accept i = si_accept i"
| "get_wev Connect i = si_connect i"
| "get_wev Recv i = si_recv i"
| "get_wev Send i = si_send i"

fun set_wev :: "ssl_action \<Rightarrow> wait_event \<Rightarrow> ssl_info \<Rightarrow> ssl_info" where
  "set_wev Accept e i = i\<lparr>si_accept := e\<rparr>"
| "set_wev Connect e i = i\<lparr>si_connect := e\<rparr>"
| "set_wev Recv e i = i\<lparr>si_recv := e\<rparr>"
| "set_wev Send e i = i\<lparr>si_send := e\<rparr>"

definition no_event :: wait_event where
  "no_event = \<lparr>we_write = False, we_read = False\<rparr>"

definition sslinfo_alloc :: ssl_info where
  "sslinfo_alloc = \<lparr>si_sk = - 1, si_ssl = False, si_recv = no_event, si_send = no_event,
     si_connect = no_event, si_accept = no_event\<rparr>"

subsection \<open>Descriptors to wait for\<close>

definition ssl_set_fds :: "ssl_info \<Rightarrow> int \<Rightarrow> int list \<Rightarrow> int list \<Rightarrow> int \<times> int list \<times> int list" where
  "ssl_set_fds i maxfd rfds wfds =
     (let wr = we_write (si_recv i) \<or> we_write (si_connect i) \<or> we_write (si_send i) \<or> we_write (si_accept i);
          rd = we_read (si_recv i) \<or> we_read (si_connect i) \<or> we_read (si_send i) \<or> we_read (si_accept i)
      in (if wr \<or> rd then (if maxfd > si_sk i then maxfd else si_sk i) else maxfd,
          if rd then FD_SET (si_sk i) rfds else rfds,
          if wr then FD_SET (si_sk i) wfds else wfds))"

abbreviation (input) O_NONBLOCK :: int where "O_NONBLOCK \<equiv> 0x800"

definition set_block :: "'w os \<Rightarrow> int \<Rightarrow> 'w \<Rightarrow> int \<times> 'w" where
  "set_block os sock w =
     (let arg = os_getfl os sock w in
      if arg < 0 then (- 1, w)
      else case os_setfl os sock (arg AND NOT O_NONBLOCK) w of (r, w') \<Rightarrow>
        (if r < 0 then - 1 else 0, w'))"

definition set_nonblock :: "'w os \<Rightarrow> int \<Rightarrow> 'w \<Rightarrow> int \<times> 'w" where
  "set_nonblock os sock w =
     (let arg = os_getfl os sock w in
      if arg < 0 then (- 1, w)
      else case os_setfl os sock (arg OR O_NONBLOCK) w of (r, w') \<Rightarrow>
        (if r < 0 then - 1 else 0, w'))"

subsection \<open>One attempt\<close>

definition do_ssl_update_wait_event :: "ssl_action \<Rightarrow> int \<Rightarrow> ssl_info \<Rightarrow> int \<times> ssl_info" where
  "do_ssl_update_wait_event act ssl_errno i =
     (if ssl_errno = SSL_ERROR_WANT_READ
      then (SSL_OPS_SELECT, set_wev act ((get_wev act i)\<lparr>we_read := True\<rparr>) i)
      else if ssl_errno = SSL_ERROR_WANT_WRITE
      then (SSL_OPS_SELECT, set_wev act ((get_wev act i)\<lparr>we_write := True\<rparr>) i)
      else (SSL_OPS_FAIL, i))"

text \<open>
  \<open>f\<close> is the OpenSSL call, with the bytes it stored if any; the result is the return value,
  those bytes, the SSL error if one was reported, and the new states.
\<close>

type_synonym ('b, 'w) ssl_res = "int \<times> 'b \<times> int option \<times> ssl_info \<times> 'w"

definition ssl_action_direct :: "'w os \<Rightarrow> ssl_action \<Rightarrow> ('w \<Rightarrow> int \<times> 'b \<times> 'w) \<Rightarrow> (int \<Rightarrow> bool) \<Rightarrow>
    ssl_info \<Rightarrow> 'w \<Rightarrow> ('b, 'w) ssl_res out" where
  "ssl_action_direct os act f succ i w =
     (let i0 = set_wev act no_event i in
      if \<not> si_ssl i then Crash
      else case f w of (ret, b, w') \<Rightarrow>
        if succ ret then Ok (ret, b, None, i0, w')
        else let ssl_errno = os_SSL_get_error os ret w' in
          case do_ssl_update_wait_event act ssl_errno i0 of (r, i') \<Rightarrow> Ok (r, b, Some ssl_errno, i', w'))"

definition ssl_accept_direct :: "'w os \<Rightarrow> ssl_info \<Rightarrow> 'w \<Rightarrow> (unit, 'w) ssl_res out" where
  "ssl_accept_direct os =
     ssl_action_direct os Accept (\<lambda>w. case os_SSL_accept os w of (r, w') \<Rightarrow> (r, (), w')) (\<lambda>r. r = 1)"

definition ssl_connect_direct :: "'w os \<Rightarrow> ssl_info \<Rightarrow> 'w \<Rightarrow> (unit, 'w) ssl_res out" where
  "ssl_connect_direct os =
     ssl_action_direct os Connect (\<lambda>w. case os_SSL_connect os w of (r, w') \<Rightarrow> (r, (), w')) (\<lambda>r. r = 1)"

definition ssl_recv_direct :: "'w os \<Rightarrow> nat \<Rightarrow> ssl_info \<Rightarrow> 'w \<Rightarrow> (byte list, 'w) ssl_res out" where
  "ssl_recv_direct os len = ssl_action_direct os Recv (os_SSL_read os len) (\<lambda>r. r > 0)"

definition ssl_send_direct :: "'w os \<Rightarrow> byte list \<Rightarrow> ssl_info \<Rightarrow> 'w \<Rightarrow> (unit, 'w) ssl_res out" where
  "ssl_send_direct os buf =
     ssl_action_direct os Send (\<lambda>w. case os_SSL_write os buf w of (r, w') \<Rightarrow> (r, (), w')) (\<lambda>r. r > 0)"

subsection \<open>Attempts until a timeout\<close>

partial_function (option) ssl_simple_tv :: "'w os \<Rightarrow>
    (ssl_info \<Rightarrow> 'w \<Rightarrow> ('b, 'w) ssl_res out) \<Rightarrow> (int \<Rightarrow> bool) \<Rightarrow> timeval \<Rightarrow> ssl_info \<Rightarrow> 'w \<Rightarrow>
    ('b, 'w) ssl_res out option" where
  "ssl_simple_tv os d succ tv i w =
     (case d i w of
        Ok (ret, b, en, i', w') \<Rightarrow>
          (if succ ret then Some (Ok (ret, b, en, i', w'))
           else if ret = SSL_OPS_FAIL then Some (Ok (ret, b, en, i', w'))
           else case ssl_set_fds i' 0 [] [] of (_, rfds, wfds) \<Rightarrow>
             case os_select os (si_sk i' + 1) rfds wfds [] tv w' of (s, w'') \<Rightarrow>
               if fs_ret s > 0 then ssl_simple_tv os d succ (fs_tv s) i' w''
               else Some (Ok (ret, b, en, i', w'')))
      | Exit \<Rightarrow> Some Exit | Crash \<Rightarrow> Some Crash | Hang \<Rightarrow> Some Hang)"

definition ssl_action_simple :: "'w os \<Rightarrow> (ssl_info \<Rightarrow> 'w \<Rightarrow> ('b, 'w) ssl_res out) \<Rightarrow>
    (int \<Rightarrow> bool) \<Rightarrow> int \<Rightarrow> ssl_info \<Rightarrow> 'w \<Rightarrow> ('b, 'w) ssl_res out" where
  "ssl_action_simple os d succ to_ms i w =
     (case ssl_simple_tv os d succ (to_ms div 1000, (to_ms mod 1000) * 1000) i w of
        None \<Rightarrow> Hang | Some r \<Rightarrow> r)"

definition ssl_connect_simple :: "'w os \<Rightarrow> int \<Rightarrow> ssl_info \<Rightarrow> 'w \<Rightarrow> (unit, 'w) ssl_res out" where
  "ssl_connect_simple os = ssl_action_simple os (ssl_connect_direct os) (\<lambda>r. r = 1)"

definition ssl_accept_simple :: "'w os \<Rightarrow> int \<Rightarrow> ssl_info \<Rightarrow> 'w \<Rightarrow> (unit, 'w) ssl_res out" where
  "ssl_accept_simple os = ssl_action_simple os (ssl_accept_direct os) (\<lambda>r. r = 1)"

definition ssl_recv_simple :: "'w os \<Rightarrow> nat \<Rightarrow> int \<Rightarrow> ssl_info \<Rightarrow> 'w \<Rightarrow> (byte list, 'w) ssl_res out" where
  "ssl_recv_simple os len = ssl_action_simple os (ssl_recv_direct os len) (\<lambda>r. r > 0)"

definition ssl_send_simple :: "'w os \<Rightarrow> byte list \<Rightarrow> int \<Rightarrow> ssl_info \<Rightarrow> 'w \<Rightarrow> (unit, 'w) ssl_res out" where
  "ssl_send_simple os buf = ssl_action_simple os (ssl_send_direct os buf) (\<lambda>r. r > 0)"

subsection \<open>What became ready\<close>

definition invoke_ssl_send :: int where "invoke_ssl_send = 1"
definition invoke_ssl_recv :: int where "invoke_ssl_recv = 2"
definition invoke_ssl_connect :: int where "invoke_ssl_connect = 4"
definition invoke_ssl_accept :: int where "invoke_ssl_accept = 8"

definition handle_flag :: "bool \<Rightarrow> int \<Rightarrow> int \<Rightarrow> int" where
  "handle_flag b flag ret = (if b then ret OR flag else ret)"

definition ssl_handle_fds :: "'w os \<Rightarrow> ssl_info \<Rightarrow> int list \<Rightarrow> int list \<Rightarrow> 'w \<Rightarrow> int out" where
  "ssl_handle_fds os i rfds wfds w =
     (let r1 = (if FD_ISSET (si_sk i) rfds then
                  handle_flag (we_read (si_accept i)) invoke_ssl_accept
                   (handle_flag (we_read (si_recv i)) invoke_ssl_recv
                    (handle_flag (we_read (si_send i)) invoke_ssl_send
                     (handle_flag (we_read (si_connect i)) invoke_ssl_connect 0))) else 0);
          r2 = (if FD_ISSET (si_sk i) wfds then
                  handle_flag (we_write (si_accept i)) invoke_ssl_accept
                   (handle_flag (we_write (si_recv i)) invoke_ssl_recv
                    (handle_flag (we_write (si_send i)) invoke_ssl_send
                     (handle_flag (we_write (si_connect i)) invoke_ssl_connect r1))) else r1)
      in if \<not> si_ssl i then Crash
      else Ok (if os_SSL_pending os w \<noteq> 0
               then handle_flag (we_write (si_recv i)) invoke_ssl_recv
                      (handle_flag (we_read (si_recv i)) invoke_ssl_recv r2)
               else r2))"

end
