(* ===== verification/Vcom_Proto.thy ===== *)
theory Vcom_Proto
  imports VC_Prelude
begin

text \<open>
  The wire protocol of the daemon: daemon/protocol/vcom_proto.h, vcom_proto_cmd.h and
  vcom_proto_ioctl.h. A packet is built in place in a byte buffer (whose former contents the
  model keeps, as the C code does) and checked in place. \<open>vc_frame\<close> is the wire format the
  packing functions are meant to produce; the lemmas show that each of them produces it and
  stays inside its buffer, and what each check accepts.
\<close>

subsection \<open>Constants\<close>

definition VCOM_MAGIC :: "byte list" where "VCOM_MAGIC = be32 0x4d414441"

definition STATUS_SUCCESS :: u32 where "STATUS_SUCCESS = 0x00000000"
definition STATUS_INVALID_PARAMETER :: u32 where "STATUS_INVALID_PARAMETER = 0xC000000D"
definition STATUS_DEVICE_BUSY :: u32 where "STATUS_DEVICE_BUSY = 0x80000011"

definition VCOM_CMD_CREATE :: u16 where "VCOM_CMD_CREATE = 0x0000"
definition VCOM_CMD_CLOSE :: u16 where "VCOM_CMD_CLOSE = 0x0002"
definition VCOM_CMD_WRITE :: u16 where "VCOM_CMD_WRITE = 0x0004"
definition VCOM_CMD_IOCTL :: u16 where "VCOM_CMD_IOCTL = 0x000e"
definition VCOM_CMD_QUEUEFREE :: u16 where "VCOM_CMD_QUEUEFREE = 0x0900"
definition VCOM_CMD_DATAREADY :: u16 where "VCOM_CMD_DATAREADY = 0x0800"

definition VCOM_IOCTL_SET_BAUD_RATE :: u32 where "VCOM_IOCTL_SET_BAUD_RATE = 0x01"
definition VCOM_IOCTL_SET_LINE_CONTROL :: u32 where "VCOM_IOCTL_SET_LINE_CONTROL = 0x03"
definition VCOM_IOCTL_SET_DTR :: u32 where "VCOM_IOCTL_SET_DTR = 0x09"
definition VCOM_IOCTL_CLR_DTR :: u32 where "VCOM_IOCTL_CLR_DTR = 0x0a"
definition VCOM_IOCTL_SET_RTS :: u32 where "VCOM_IOCTL_SET_RTS = 0x0c"
definition VCOM_IOCTL_CLR_RTS :: u32 where "VCOM_IOCTL_CLR_RTS = 0x0d"
definition VCOM_IOCTL_GET_WAIT_MASK :: u32 where "VCOM_IOCTL_GET_WAIT_MASK = 0x10"
definition VCOM_IOCTL_SET_WAIT_MASK :: u32 where "VCOM_IOCTL_SET_WAIT_MASK = 0x11"
definition VCOM_IOCTL_WAIT_ON_MASK :: u32 where "VCOM_IOCTL_WAIT_ON_MASK = 0x12"
definition VCOM_IOCTL_PURGE :: u32 where "VCOM_IOCTL_PURGE = 0x13"
definition VCOM_IOCTL_SET_HANDFLOW :: u32 where "VCOM_IOCTL_SET_HANDFLOW = 0x19"
definition VCOM_IOCTL_GET_MODEMSTATUS :: u32 where "VCOM_IOCTL_GET_MODEMSTATUS = 0x1a"

lemmas vcom_status_defs = STATUS_SUCCESS_def STATUS_INVALID_PARAMETER_def STATUS_DEVICE_BUSY_def
lemmas vcom_cmd_defs = VCOM_CMD_CREATE_def VCOM_CMD_CLOSE_def VCOM_CMD_WRITE_def
  VCOM_CMD_IOCTL_def VCOM_CMD_QUEUEFREE_def VCOM_CMD_DATAREADY_def
lemmas vcom_ioctl_defs = VCOM_IOCTL_SET_BAUD_RATE_def VCOM_IOCTL_SET_LINE_CONTROL_def
  VCOM_IOCTL_SET_DTR_def VCOM_IOCTL_CLR_DTR_def VCOM_IOCTL_SET_RTS_def VCOM_IOCTL_CLR_RTS_def
  VCOM_IOCTL_GET_WAIT_MASK_def VCOM_IOCTL_SET_WAIT_MASK_def VCOM_IOCTL_WAIT_ON_MASK_def
  VCOM_IOCTL_PURGE_def VCOM_IOCTL_SET_HANDFLOW_def VCOM_IOCTL_GET_MODEMSTATUS_def

subsection \<open>Layout of a packet\<close>

text \<open>
  The packed structures: the header has pid, tid, cmd and len at offsets 0, 4, 8 and 10; every
  attachment starts with p1 at 12 and p2 at 16; what follows starts at 20. Sizes of the
  attachments: param 8, uint32 12, hflow 24, lctrl 11.
\<close>

abbreviation (input) sizeof_hdr :: int where "sizeof_hdr \<equiv> 12"
abbreviation (input) sizeof_param :: int where "sizeof_param \<equiv> 8"
abbreviation (input) sizeof_uint32 :: int where "sizeof_uint32 \<equiv> 12"
abbreviation (input) sizeof_hflow :: int where "sizeof_hflow \<equiv> 24"
abbreviation (input) sizeof_lctrl :: int where "sizeof_lctrl \<equiv> 11"

definition vc_pack_size :: "int \<Rightarrow> int" where "vc_pack_size a = sizeof_hdr + a"
definition vc_ext_size :: "int \<Rightarrow> u16" where "vc_ext_size a = word_of_int (a - sizeof_param)"

definition pkt_tid :: "byte list \<Rightarrow> u32" where "pkt_tid p = of_be32 (get_bytes 4 4 p)"
definition pkt_cmd :: "byte list \<Rightarrow> u16" where "pkt_cmd p = of_be16 (get_bytes 8 2 p)"
definition pkt_len :: "byte list \<Rightarrow> u16" where "pkt_len p = of_be16 (get_bytes 10 2 p)"
definition pkt_p1 :: "byte list \<Rightarrow> u32" where "pkt_p1 p = of_be32 (get_bytes 12 4 p)"
definition pkt_p2 :: "byte list \<Rightarrow> u32" where "pkt_p2 p = of_be32 (get_bytes 16 4 p)"

definition vc_init_hdr :: "byte list \<Rightarrow> u32 \<Rightarrow> u16 \<Rightarrow> u16 \<Rightarrow> byte list" where
  "vc_init_hdr pbuf tid cmd len =
     (let b1 = put_bytes 0 VCOM_MAGIC pbuf;
          b2 = put_bytes 4 (be32 tid) b1;
          b3 = put_bytes 8 (be16 cmd) b2
      in put_bytes 10 (be16 len) b3)"

definition vc_check_hdr :: "byte list \<Rightarrow> u16 \<Rightarrow> u16 \<Rightarrow> int" where
  "vc_check_hdr pbuf cmd len =
     (if get_bytes 0 4 pbuf \<noteq> VCOM_MAGIC then - 1
      else if get_bytes 8 2 pbuf \<noteq> be16 cmd then - 1
      else if get_bytes 10 2 pbuf \<noteq> be16 len then - 1
      else 0)"

text \<open>The two parameters every attachment starts with.\<close>

definition put_params :: "u32 \<Rightarrow> u32 \<Rightarrow> byte list \<Rightarrow> byte list" where
  "put_params p1 p2 pbuf = put_bytes 16 (be32 p2) (put_bytes 12 (be32 p1) pbuf)"

subsection \<open>Commands\<close>

definition vc_pack_qfsize :: "byte list \<Rightarrow> u32 \<Rightarrow> int \<Rightarrow> int \<Rightarrow> int \<times> byte list" where
  "vc_pack_qfsize pbuf tid fsize buflen =
     (let plen = vc_pack_size sizeof_param; len = vc_ext_size sizeof_param in
      if plen > buflen then (0, pbuf)
      else (plen, put_params 0 (c_uint fsize) (vc_init_hdr pbuf tid VCOM_CMD_QUEUEFREE len)))"

definition vc_pack_close :: "byte list \<Rightarrow> u32 \<Rightarrow> int \<Rightarrow> int \<times> byte list" where
  "vc_pack_close pbuf tid buflen =
     (let plen = vc_pack_size sizeof_param; len = vc_ext_size sizeof_param in
      if plen > buflen then (0, pbuf)
      else (plen, put_params 0 0 (vc_init_hdr pbuf tid VCOM_CMD_CLOSE len)))"

text \<open>\<open>data\<close> is None for a null pointer, otherwise the memory it points to.\<close>

definition vc_pack_xmit :: "byte list \<Rightarrow> u32 \<Rightarrow> int \<Rightarrow> byte list option \<Rightarrow> int \<Rightarrow> int \<times> byte list" where
  "vc_pack_xmit pbuf tid datalen data buflen =
     (let plen = vc_pack_size sizeof_param + datalen; len = word_of_int datalen in
      if plen > buflen then (0, pbuf)
      else let b = put_params (c_uint datalen) 0 (vc_init_hdr pbuf tid VCOM_CMD_WRITE len) in
        (plen, case data of None \<Rightarrow> b | Some d \<Rightarrow> put_bytes 20 (take (nat datalen) d) b))"

definition vc_check_xmit :: "byte list \<Rightarrow> int \<Rightarrow> u32 \<Rightarrow> int \<Rightarrow> int" where
  "vc_check_xmit pbuf datalen stat buflen =
     (let plen = vc_pack_size sizeof_param; len = vc_ext_size sizeof_param;
          p1 = stat; p2 = c_uint datalen in
      if plen > buflen then - 1
      else if vc_check_hdr pbuf VCOM_CMD_WRITE len \<noteq> 0 then - 1
      else if get_bytes 12 4 pbuf \<noteq> be32 p1 then - 1
      else if get_bytes 16 4 pbuf \<noteq> be32 p2 then - 1
      else 0)"

text \<open>The length of a received payload, None when the check fails.\<close>

definition vc_check_recv :: "byte list \<Rightarrow> int option" where
  "vc_check_recv pbuf =
     (let plen = uint (pkt_len pbuf); status = c_of_u32 (pkt_p1 pbuf); alen = c_of_u32 (pkt_p2 pbuf) in
      if status \<noteq> c_of_u32 STATUS_SUCCESS then None
      else if plen \<noteq> alen then None
      else Some alen)"

definition vc_pack_open :: "byte list \<Rightarrow> u32 \<Rightarrow> u16 \<Rightarrow> u32 \<Rightarrow> int \<Rightarrow> int \<times> byte list" where
  "vc_pack_open pbuf tid dev port buflen =
     (let plen = vc_pack_size sizeof_param; len = vc_ext_size sizeof_param in
      if plen > buflen then (0, pbuf)
      else (plen, put_params (push_bit 16 (ucast dev)) port
              (vc_init_hdr pbuf tid VCOM_CMD_CREATE len)))"

definition vc_check_open :: "byte list \<Rightarrow> u16 \<Rightarrow> u32 \<Rightarrow> int \<Rightarrow> int" where
  "vc_check_open pbuf dev port buflen =
     (let plen = vc_pack_size sizeof_param; len = vc_ext_size sizeof_param;
          p1 = STATUS_SUCCESS; p2 = port in
      if plen > buflen then - 1
      else if vc_check_hdr pbuf VCOM_CMD_CREATE len \<noteq> 0 then - 1
      else if get_bytes 12 4 pbuf \<noteq> be32 p1 then - 1
      else if get_bytes 16 4 pbuf \<noteq> be32 p2 then - 1
      else 0)"

subsection \<open>Line settings\<close>

definition vc_pack_purge :: "byte list \<Rightarrow> u32 \<Rightarrow> u32 \<Rightarrow> int \<Rightarrow> int \<times> byte list" where
  "vc_pack_purge pbuf tid pflags buflen =
     (let plen = vc_pack_size sizeof_uint32; len = vc_ext_size sizeof_uint32 in
      if plen > buflen then (0, pbuf)
      else (plen, put_bytes 20 (le32 pflags)
              (put_params VCOM_IOCTL_PURGE 0 (vc_init_hdr pbuf tid VCOM_CMD_IOCTL len))))"

text \<open>\<open>func\<close> is None for a null function pointer; its result is the check's and a new state.\<close>

definition vc_check_ioctl :: "byte list \<Rightarrow> int \<Rightarrow>
    (byte list \<Rightarrow> int \<Rightarrow> 's \<Rightarrow> (int \<times> 's) out) option \<Rightarrow> 's \<Rightarrow> (int \<times> 's) out" where
  "vc_check_ioctl pbuf buflen func s =
     (if vc_pack_size sizeof_param > buflen then Ok (- 1, s)
      else case func of Some f \<Rightarrow> f pbuf buflen s | None \<Rightarrow> Ok (0, s))"

definition vc_pack_sbaud :: "byte list \<Rightarrow> u32 \<Rightarrow> u32 \<Rightarrow> int \<Rightarrow> int \<times> byte list" where
  "vc_pack_sbaud pbuf tid baud buflen =
     (let plen = vc_pack_size sizeof_uint32; len = vc_ext_size sizeof_uint32 in
      if plen > buflen then (0, pbuf)
      else (plen, put_bytes 20 (le32 baud)
              (put_params VCOM_IOCTL_SET_BAUD_RATE 0 (vc_init_hdr pbuf tid VCOM_CMD_IOCTL len))))"

definition pack_ioctl_param :: "byte list \<Rightarrow> u32 \<Rightarrow> u32 \<Rightarrow> int \<Rightarrow> int \<times> byte list" where
  "pack_ioctl_param pbuf tid subcmd buflen =
     (let plen = vc_pack_size sizeof_param; len = vc_ext_size sizeof_param in
      if plen > buflen then (0, pbuf)
      else (plen, put_params subcmd 0 (vc_init_hdr pbuf tid VCOM_CMD_IOCTL len)))"

definition vc_pack_womask :: "byte list \<Rightarrow> u32 \<Rightarrow> int \<Rightarrow> int \<times> byte list" where
  "vc_pack_womask pbuf tid buflen = pack_ioctl_param pbuf tid VCOM_IOCTL_WAIT_ON_MASK buflen"

definition vc_pack_setrts :: "byte list \<Rightarrow> u32 \<Rightarrow> int \<Rightarrow> int \<times> byte list" where
  "vc_pack_setrts pbuf tid buflen = pack_ioctl_param pbuf tid VCOM_IOCTL_SET_RTS buflen"

definition vc_pack_setdtr :: "byte list \<Rightarrow> u32 \<Rightarrow> int \<Rightarrow> int \<times> byte list" where
  "vc_pack_setdtr pbuf tid buflen = pack_ioctl_param pbuf tid VCOM_IOCTL_SET_DTR buflen"

definition vc_pack_clrrts :: "byte list \<Rightarrow> u32 \<Rightarrow> int \<Rightarrow> int \<times> byte list" where
  "vc_pack_clrrts pbuf tid buflen = pack_ioctl_param pbuf tid VCOM_IOCTL_CLR_RTS buflen"

definition vc_pack_clrdtr :: "byte list \<Rightarrow> u32 \<Rightarrow> int \<Rightarrow> int \<times> byte list" where
  "vc_pack_clrdtr pbuf tid buflen = pack_ioctl_param pbuf tid VCOM_IOCTL_CLR_DTR buflen"

definition vc_pack_getmodem :: "byte list \<Rightarrow> u32 \<Rightarrow> int \<Rightarrow> int \<times> byte list" where
  "vc_pack_getmodem pbuf tid buflen = pack_ioctl_param pbuf tid VCOM_IOCTL_GET_MODEMSTATUS buflen"

text \<open>
  The handshake settings: xonlimit (offset 28) is stored twice, xofflimit (offset 32) never.
\<close>

definition vc_pack_hflow :: "byte list \<Rightarrow> u32 \<Rightarrow> u32 \<Rightarrow> u32 \<Rightarrow> int \<Rightarrow> int \<times> byte list" where
  "vc_pack_hflow pbuf tid chflow flowrep buflen =
     (let plen = vc_pack_size sizeof_hflow; len = vc_ext_size sizeof_hflow in
      if plen > buflen then (0, pbuf)
      else let b0 = put_params VCOM_IOCTL_SET_HANDFLOW 0 (vc_init_hdr pbuf tid VCOM_CMD_IOCTL len);
               b1 = put_bytes 20 (be32 chflow) b0;
               b2 = put_bytes 24 (be32 flowrep) b1;
               b3 = put_bytes 28 (be32 1024) b2
           in (plen, put_bytes 28 (be32 512) b3))"

definition vc_pack_setwmask :: "byte list \<Rightarrow> u32 \<Rightarrow> u32 \<Rightarrow> int \<Rightarrow> int \<times> byte list" where
  "vc_pack_setwmask pbuf tid msk buflen =
     (let plen = vc_pack_size sizeof_uint32; len = vc_ext_size sizeof_uint32 in
      if plen > buflen then (0, pbuf)
      else (plen, put_bytes 20 (be32 msk)
              (put_params VCOM_IOCTL_SET_WAIT_MASK 0 (vc_init_hdr pbuf tid VCOM_CMD_IOCTL len))))"

definition vc_pack_getwmask :: "byte list \<Rightarrow> u32 \<Rightarrow> int \<Rightarrow> int \<times> byte list" where
  "vc_pack_getwmask pbuf tid buflen =
     (let plen = vc_pack_size sizeof_param; len = vc_ext_size sizeof_param in
      if plen > buflen then (0, pbuf)
      else (plen, put_params VCOM_IOCTL_GET_WAIT_MASK 0 (vc_init_hdr pbuf tid VCOM_CMD_IOCTL len)))"

definition vc_pack_setlctl :: "byte list \<Rightarrow> u32 \<Rightarrow> byte \<Rightarrow> byte \<Rightarrow> byte \<Rightarrow> int \<Rightarrow> int \<times> byte list" where
  "vc_pack_setlctl pbuf tid pair dbit sbit buflen =
     (let plen = vc_pack_size sizeof_lctrl; len = vc_ext_size sizeof_lctrl in
      if plen > buflen then (0, pbuf)
      else let b0 = put_params VCOM_IOCTL_SET_LINE_CONTROL 0 (vc_init_hdr pbuf tid VCOM_CMD_IOCTL len);
               b1 = put_bytes 21 [pair] b0;
               b2 = put_bytes 22 [dbit] b1
           in (plen, put_bytes 20 [sbit] b2))"

subsection \<open>The wire format\<close>

definition vc_frame :: "u32 \<Rightarrow> u16 \<Rightarrow> u32 \<Rightarrow> u32 \<Rightarrow> byte list \<Rightarrow> byte list" where
  "vc_frame tid cmd p1 p2 ext =
     VCOM_MAGIC @ be32 tid @ be16 cmd @ be16 (of_nat (length ext)) @ be32 p1 @ be32 p2 @ ext"

lemma put_bytes_skip [buf_simps]:
  "length xs \<le> off \<Longrightarrow> put_bytes off bs (xs @ ys) = xs @ put_bytes (off - length xs) bs ys"
  by (simp add: put_bytes_def)

lemma put_bytes_front [buf_simps]: "put_bytes 0 bs ys = bs @ drop (length bs) ys"
  by (simp add: put_bytes_def)

lemma get_bytes_skip [buf_simps]:
  "length xs \<le> off \<Longrightarrow> get_bytes off n (xs @ ys) = get_bytes (off - length xs) n ys"
  by (simp add: get_bytes_def)

lemma get_bytes_front [buf_simps]: "length xs = n \<Longrightarrow> get_bytes 0 n (xs @ ys) = xs"
  by (simp add: get_bytes_def)

lemma drop_split: "drop a xs = get_bytes a n xs @ drop (a + n) xs"
  by (metis append_take_drop_id drop_drop add.commute get_bytes_def)

lemma length_magic [simp]: "length VCOM_MAGIC = 4"
  by (simp add: VCOM_MAGIC_def)

lemma length_vc_frame [simp]: "length (vc_frame tid cmd p1 p2 ext) = 20 + length ext"
  by (simp add: vc_frame_def)

lemma hdr_frame:
  "put_params p1 p2 (vc_init_hdr pbuf tid cmd len) =
     VCOM_MAGIC @ be32 tid @ be16 cmd @ be16 len @ be32 p1 @ be32 p2 @ drop 20 pbuf"
  by (simp add: put_params_def vc_init_hdr_def Let_def put_bytes_skip put_bytes_front)

lemma pkt_fields [simp]:
  "get_bytes 0 4 (vc_frame tid cmd p1 p2 ext @ r) = VCOM_MAGIC"
  "get_bytes 8 2 (vc_frame tid cmd p1 p2 ext @ r) = be16 cmd"
  "get_bytes 10 2 (vc_frame tid cmd p1 p2 ext @ r) = be16 (of_nat (length ext))"
  "get_bytes 12 4 (vc_frame tid cmd p1 p2 ext @ r) = be32 p1"
  "get_bytes 16 4 (vc_frame tid cmd p1 p2 ext @ r) = be32 p2"
  "pkt_tid (vc_frame tid cmd p1 p2 ext @ r) = tid"
  "pkt_cmd (vc_frame tid cmd p1 p2 ext @ r) = cmd"
  "pkt_len (vc_frame tid cmd p1 p2 ext @ r) = of_nat (length ext)"
  "pkt_p1 (vc_frame tid cmd p1 p2 ext @ r) = p1"
  "pkt_p2 (vc_frame tid cmd p1 p2 ext @ r) = p2"
  "get_bytes 20 (length ext) (vc_frame tid cmd p1 p2 ext @ r) = ext"
  by (simp_all add: vc_frame_def get_bytes_skip get_bytes_front pkt_tid_def pkt_cmd_def
      pkt_len_def pkt_p1_def pkt_p2_def)

lemmas pack_defs = vc_pack_size_def vc_ext_size_def hdr_frame vc_frame_def Let_def
  put_bytes_skip put_bytes_front

lemma pack_close_eq:
  "20 \<le> buflen \<Longrightarrow> vc_pack_close pbuf tid buflen =
     (20, vc_frame tid VCOM_CMD_CLOSE 0 0 [] @ drop 20 pbuf)"
  by (simp add: vc_pack_close_def pack_defs)

lemma pack_open_eq:
  "20 \<le> buflen \<Longrightarrow> vc_pack_open pbuf tid dev port buflen =
     (20, vc_frame tid VCOM_CMD_CREATE (push_bit 16 (ucast dev)) port [] @ drop 20 pbuf)"
  by (simp add: vc_pack_open_def pack_defs)

lemma pack_qfsize_eq:
  "20 \<le> buflen \<Longrightarrow> vc_pack_qfsize pbuf tid fsize buflen =
     (20, vc_frame tid VCOM_CMD_QUEUEFREE 0 (c_uint fsize) [] @ drop 20 pbuf)"
  by (simp add: vc_pack_qfsize_def pack_defs)

lemma pack_xmit_eq:
  assumes "20 + int n \<le> buflen" "n \<le> length d"
  shows "vc_pack_xmit pbuf tid (int n) (Some d) buflen =
     (20 + int n, vc_frame tid VCOM_CMD_WRITE (of_nat n) 0 (take n d) @ drop (20 + n) pbuf)"
  using assms by (simp add: vc_pack_xmit_def pack_defs c_uint_def add.commute)

text \<open>With a null pointer the payload is what the caller already stored behind the header.\<close>

lemma pack_xmit_null_eq:
  assumes "20 + int n \<le> buflen" "20 + n \<le> length pbuf"
  shows "vc_pack_xmit pbuf tid (int n) None buflen =
     (20 + int n, vc_frame tid VCOM_CMD_WRITE (of_nat n) 0 (get_bytes 20 n pbuf) @ drop (20 + n) pbuf)"
proof -
  have "drop 20 pbuf = get_bytes 20 n pbuf @ drop (20 + n) pbuf"
    by (rule drop_split)
  with assms show ?thesis
    by (simp add: vc_pack_xmit_def vc_pack_size_def hdr_frame vc_frame_def Let_def c_uint_def)
qed

lemma pack_param_eq:
  "20 \<le> buflen \<Longrightarrow> pack_ioctl_param pbuf tid sub buflen =
     (20, vc_frame tid VCOM_CMD_IOCTL sub 0 [] @ drop 20 pbuf)"
  by (simp add: pack_ioctl_param_def pack_defs)

lemma pack_sbaud_eq:
  "24 \<le> buflen \<Longrightarrow> vc_pack_sbaud pbuf tid baud buflen =
     (24, vc_frame tid VCOM_CMD_IOCTL VCOM_IOCTL_SET_BAUD_RATE 0 (le32 baud) @ drop 24 pbuf)"
  by (simp add: vc_pack_sbaud_def pack_defs)

lemma pack_purge_eq:
  "24 \<le> buflen \<Longrightarrow> vc_pack_purge pbuf tid fl buflen =
     (24, vc_frame tid VCOM_CMD_IOCTL VCOM_IOCTL_PURGE 0 (le32 fl) @ drop 24 pbuf)"
  by (simp add: vc_pack_purge_def pack_defs)

lemma pack_setwmask_eq:
  "24 \<le> buflen \<Longrightarrow> vc_pack_setwmask pbuf tid m buflen =
     (24, vc_frame tid VCOM_CMD_IOCTL VCOM_IOCTL_SET_WAIT_MASK 0 (be32 m) @ drop 24 pbuf)"
  by (simp add: vc_pack_setwmask_def pack_defs)

lemma pack_getwmask_eq:
  "20 \<le> buflen \<Longrightarrow> vc_pack_getwmask pbuf tid buflen =
     (20, vc_frame tid VCOM_CMD_IOCTL VCOM_IOCTL_GET_WAIT_MASK 0 [] @ drop 20 pbuf)"
  by (simp add: vc_pack_getwmask_def pack_defs)

lemma pack_setlctl_eq:
  assumes "23 \<le> buflen" "23 \<le> length pbuf"
  shows "vc_pack_setlctl pbuf tid pair dbit sbit buflen =
     (23, vc_frame tid VCOM_CMD_IOCTL VCOM_IOCTL_SET_LINE_CONTROL 0 [sbit, pair, dbit] @ drop 23 pbuf)"
proof -
  obtain a b c r where "drop 20 pbuf = a # b # c # r"
    using assms(2) by (cases "drop 20 pbuf"; cases "tl (drop 20 pbuf)"; cases "tl (tl (drop 20 pbuf))")
      (auto dest: arg_cong [of _ _ length])
  moreover from this have "drop 23 pbuf = r"
    using drop_drop [of 3 20 pbuf] by (simp add: numeral_3_eq_3)
  ultimately show ?thesis
    using assms by (simp add: vc_pack_setlctl_def pack_defs put_bytes_def)
qed

lemma pack_hflow_eq:
  assumes "36 \<le> buflen" "36 \<le> length pbuf"
  shows "vc_pack_hflow pbuf tid ch fr buflen =
     (36, vc_frame tid VCOM_CMD_IOCTL VCOM_IOCTL_SET_HANDFLOW 0
        (be32 ch @ be32 fr @ be32 512 @ get_bytes 32 4 pbuf) @ drop 36 pbuf)"
proof -
  have "drop 32 pbuf = get_bytes 32 4 pbuf @ drop 36 pbuf"
    using drop_split [of 32 pbuf 4] by simp
  with assms show ?thesis
    by (simp add: vc_pack_hflow_def pack_defs)
qed

lemma uint_len16: "n < 65536 \<Longrightarrow> uint (of_nat n :: u16) = int n"
  by (simp add: unsigned_of_nat take_bit_nat_eq_self)

lemma sint_len32: "n < 65536 \<Longrightarrow> sint (of_nat n :: u32) = int n"
  using c_of_u32_c_uint [of "int n"] by (simp add: c_of_u32_def c_uint_def is_c_int_def)

lemma len16_0: "n < 65536 \<Longrightarrow> (of_nat n = (0 :: u16)) = (n = 0)"
  using uint_len16 [of n] by (auto simp del: of_nat_0)

lemma check_hdr_frame:
  assumes "length ext < 65536"
  shows "vc_check_hdr (vc_frame tid cmd p1 p2 ext @ r) cmd' 0 = 0 \<longleftrightarrow> cmd = cmd' \<and> ext = []"
  using len16_0 [OF assms] by (simp add: vc_check_hdr_def)

lemma check_recv_frame:
  assumes "length ext < 65536"
  shows "vc_check_recv (vc_frame tid cmd p1 p2 ext @ r) = Some k \<longleftrightarrow>
      p1 = STATUS_SUCCESS \<and> p2 = of_nat (length ext) \<and> k = int (length ext)"
proof -
  have p2: "(int (length ext) = sint p2) = (p2 = of_nat (length ext))"
    unfolding sint_len32 [OF assms, symmetric] by (metis signed_word_eqI)
  have p1: "(sint p1 = sint STATUS_SUCCESS) = (p1 = STATUS_SUCCESS)"
    by (metis signed_word_eqI)
  show ?thesis
    unfolding vc_check_recv_def pkt_fields uint_len16 [OF assms] c_of_u32_def Let_def p1 p2
    by (auto simp: sint_len32 [OF assms])
qed

subsection \<open>Properties\<close>

text \<open>
  C13. Commands on the wire: in a buffer that is large enough, packing an open, close,
  queue-size or write command stores exactly the protocol's frame (magic, transaction, command,
  length of the payload, the two parameters, the payload, all in network order), returns its
  length, and leaves every byte behind it alone.
\<close>

theorem pack_commands_wire:
  assumes "20 + int n \<le> buflen" "buflen \<le> int (length pbuf)" "n \<le> length d"
  shows "vc_pack_open pbuf tid dev port buflen =
      (20, vc_frame tid VCOM_CMD_CREATE (push_bit 16 (ucast dev)) port [] @ drop 20 pbuf) \<and>
    vc_pack_close pbuf tid buflen = (20, vc_frame tid VCOM_CMD_CLOSE 0 0 [] @ drop 20 pbuf) \<and>
    vc_pack_qfsize pbuf tid q buflen =
      (20, vc_frame tid VCOM_CMD_QUEUEFREE 0 (c_uint q) [] @ drop 20 pbuf) \<and>
    vc_pack_xmit pbuf tid (int n) (Some d) buflen =
      (20 + int n, vc_frame tid VCOM_CMD_WRITE (of_nat n) 0 (take n d) @ drop (20 + n) pbuf) \<and>
    length (snd (vc_pack_xmit pbuf tid (int n) (Some d) buflen)) = length pbuf"
  using assms by (simp add: pack_open_eq pack_close_eq pack_qfsize_eq pack_xmit_eq)

lemma pack_commands_wire_witness:
  "vc_pack_xmit (replicate 30 9) 7 2 (Some [65, 66, 67]) 30 =
    (22, vc_frame 7 VCOM_CMD_WRITE 2 0 [65, 66] @ replicate 8 9)"
  using pack_commands_wire [of 2 30 "replicate 30 9" "[65, 66, 67]" 7 0 0 0] by simp

text \<open>
  C14. Line settings on the wire: baud rate, purge flags, wait mask, line control and the
  parameterless requests are packed as the protocol's frames, each value in the byte order and
  position of its structure, without touching what follows.
\<close>

theorem pack_ioctl_wire:
  assumes "24 \<le> buflen" "buflen \<le> int (length pbuf)"
  shows "vc_pack_sbaud pbuf tid baud buflen =
      (24, vc_frame tid VCOM_CMD_IOCTL VCOM_IOCTL_SET_BAUD_RATE 0 (le32 baud) @ drop 24 pbuf) \<and>
    vc_pack_purge pbuf tid fl buflen =
      (24, vc_frame tid VCOM_CMD_IOCTL VCOM_IOCTL_PURGE 0 (le32 fl) @ drop 24 pbuf) \<and>
    vc_pack_setwmask pbuf tid m buflen =
      (24, vc_frame tid VCOM_CMD_IOCTL VCOM_IOCTL_SET_WAIT_MASK 0 (be32 m) @ drop 24 pbuf) \<and>
    vc_pack_getwmask pbuf tid buflen =
      (20, vc_frame tid VCOM_CMD_IOCTL VCOM_IOCTL_GET_WAIT_MASK 0 [] @ drop 20 pbuf) \<and>
    vc_pack_setlctl pbuf tid pair dbit sbit buflen =
      (23, vc_frame tid VCOM_CMD_IOCTL VCOM_IOCTL_SET_LINE_CONTROL 0 [sbit, pair, dbit] @ drop 23 pbuf) \<and>
    vc_pack_setrts pbuf tid buflen =
      (20, vc_frame tid VCOM_CMD_IOCTL VCOM_IOCTL_SET_RTS 0 [] @ drop 20 pbuf) \<and>
    vc_pack_clrrts pbuf tid buflen =
      (20, vc_frame tid VCOM_CMD_IOCTL VCOM_IOCTL_CLR_RTS 0 [] @ drop 20 pbuf) \<and>
    vc_pack_setdtr pbuf tid buflen =
      (20, vc_frame tid VCOM_CMD_IOCTL VCOM_IOCTL_SET_DTR 0 [] @ drop 20 pbuf) \<and>
    vc_pack_clrdtr pbuf tid buflen =
      (20, vc_frame tid VCOM_CMD_IOCTL VCOM_IOCTL_CLR_DTR 0 [] @ drop 20 pbuf) \<and>
    vc_pack_womask pbuf tid buflen =
      (20, vc_frame tid VCOM_CMD_IOCTL VCOM_IOCTL_WAIT_ON_MASK 0 [] @ drop 20 pbuf) \<and>
    vc_pack_getmodem pbuf tid buflen =
      (20, vc_frame tid VCOM_CMD_IOCTL VCOM_IOCTL_GET_MODEMSTATUS 0 [] @ drop 20 pbuf)"
  using assms
  by (simp add: pack_sbaud_eq pack_purge_eq pack_setwmask_eq pack_getwmask_eq pack_setlctl_eq
      vc_pack_setrts_def vc_pack_clrrts_def vc_pack_setdtr_def vc_pack_clrdtr_def
      vc_pack_womask_def vc_pack_getmodem_def pack_param_eq)

lemma pack_ioctl_wire_witness:
  "vc_pack_sbaud (replicate 24 0) 1 9600 24 =
    (24, vc_frame 1 VCOM_CMD_IOCTL VCOM_IOCTL_SET_BAUD_RATE 0 (le32 9600))"
  using pack_ioctl_wire [of 24 "replicate 24 0" 1 9600] by simp

text \<open>
  No packing function writes into a buffer that is too small for its packet: it returns 0
  and the buffer is unchanged.
\<close>

lemma pack_short_refused:
  "(buflen < 20 \<longrightarrow> vc_pack_open pbuf tid dev port buflen = (0, pbuf) \<and>
      vc_pack_close pbuf tid buflen = (0, pbuf) \<and> vc_pack_qfsize pbuf tid q buflen = (0, pbuf) \<and>
      pack_ioctl_param pbuf tid sub buflen = (0, pbuf) \<and> vc_pack_getwmask pbuf tid buflen = (0, pbuf)) \<and>
   (buflen < 20 + n \<longrightarrow> vc_pack_xmit pbuf tid n d buflen = (0, pbuf)) \<and>
   (buflen < 24 \<longrightarrow> vc_pack_sbaud pbuf tid baud buflen = (0, pbuf) \<and>
      vc_pack_purge pbuf tid fl buflen = (0, pbuf) \<and> vc_pack_setwmask pbuf tid m buflen = (0, pbuf)) \<and>
   (buflen < 23 \<longrightarrow> vc_pack_setlctl pbuf tid pair dbit sbit buflen = (0, pbuf)) \<and>
   (buflen < 36 \<longrightarrow> vc_pack_hflow pbuf tid ch fr buflen = (0, pbuf))"
  by (simp add: vc_pack_open_def vc_pack_close_def vc_pack_qfsize_def pack_ioctl_param_def
      vc_pack_getwmask_def vc_pack_xmit_def vc_pack_sbaud_def vc_pack_purge_def
      vc_pack_setwmask_def vc_pack_setlctl_def vc_pack_hflow_def vc_pack_size_def)

lemma pack_short_refused_witness:
  "vc_pack_hflow [1, 2, 3] 0 0 0 3 = (0, [1, 2, 3]) \<and> vc_pack_close [1, 2, 3] 0 3 = (0, [1, 2, 3])"
  using pack_short_refused [of 3 "[1, 2, 3]" 0 0 0 0 0 0 None 0 0 0 0 0 0 0 0] by simp

text \<open>
  The handshake packet does not carry an xoff limit: the field is sent as whatever bytes
  the buffer held before, and the xon limit sent is 512, not the 1024 stored first.
\<close>

lemma hflow_xofflimit_unset:
  assumes "36 \<le> buflen" "36 \<le> length pbuf"
  shows "vc_pack_hflow pbuf tid ch fr buflen =
     (36, vc_frame tid VCOM_CMD_IOCTL VCOM_IOCTL_SET_HANDFLOW 0
        (be32 ch @ be32 fr @ be32 512 @ get_bytes 32 4 pbuf) @ drop 36 pbuf)"
  using assms by (rule pack_hflow_eq)

lemma hflow_xofflimit_unset_witness:
  "get_bytes 32 4 (snd (vc_pack_hflow (replicate 40 0xAA) 0 1 2 40)) = [0xAA, 0xAA, 0xAA, 0xAA]"
  using hflow_xofflimit_unset [of 40 "replicate 40 0xAA" 0 1 2]
  by (simp add: get_bytes_skip vc_frame_def get_bytes_def numeral_eq_Suc)



end
