(* ===== verification/Vcom_Stack.thy ===== *)
theory Vcom_Stack
  imports Ssl_Select Vcom_Proto Driver_Main
begin

text \<open>
  daemon/vcom.h: the state of one port's daemon, its stack of protocol states, sending, and the
  daemon's view of the rings. A handler of the source returns a pointer to the current state
  that every caller ignores; a handler here returns the new state of the daemon. Writing the
  monitor file is left out.
\<close>

subsection \<open>Data\<close>

text \<open>The five tables of handlers: vc_netdown_ops, vc_netup_ops, vc_pause_ops, vc_sync_ops, vc_idle_ops.\<close>

datatype vc_ops = NETDOWN | NETUP | PAUSE | SYNC | IDLE

text \<open>
  \<open>va_top\<close> and \<open>va_stk\<close> are the stack (None is an array slot not written yet), \<open>va_attr_base\<close> is the
  offset of the attribute page in the mapping, \<open>va_pre_excp_t\<close> and \<open>va_rbuf\<close> are the static
  variables of _stk_excp and vc_recv_desp, and \<open>va_w\<close> is the world.
\<close>

record 'w vc_attr =
  va_fd :: int
  va_sk :: int
  va_attr_ptr :: int
  va_xmit_pending :: int
  va_ttyid :: int
  va_ssl :: "ssl_info option"
  va_port :: u32
  va_tid :: u32
  va_devid :: u16
  va_top :: int
  va_stk :: "vc_ops option list"
  va_ip_ptr :: string
  va_ip_red :: "string option"
  va_eki :: adv_port_info
  va_attr_base :: int
  va_tx :: ring_buf
  va_rx :: ring_buf
  va_pre_excp_t :: int
  va_rbuf :: "byte list"
  va_w :: 'w

definition attr_p :: "'w os \<Rightarrow> 'w vc_attr \<Rightarrow> adv_port_info" where
  "attr_p os a = os_attr os (va_attr_base a) (va_attr_ptr a) (va_w a)"

definition tid_inc :: "'w vc_attr \<Rightarrow> 'w vc_attr" where
  "tid_inc a = a\<lparr>va_tid := va_tid a + 1\<rparr>"

definition update_eki :: "(adv_port_info \<Rightarrow> adv_port_info) \<Rightarrow> 'w vc_attr \<Rightarrow> 'w vc_attr" where
  "update_eki f a = a\<lparr>va_eki := f (va_eki a)\<rparr>"

subsection \<open>The stack of states\<close>

definition STACK_MAX :: nat where "STACK_MAX = 10"

definition stk_full :: "'w vc_attr \<Rightarrow> bool" where
  "stk_full a \<longleftrightarrow> va_top a \<ge> int STACK_MAX - 1"

definition stk_empty :: "'w vc_attr \<Rightarrow> bool" where
  "stk_empty a \<longleftrightarrow> va_top a < 0"

definition stk_bot :: "'w vc_attr \<Rightarrow> bool" where
  "stk_bot a \<longleftrightarrow> va_top a = 0"

definition stk_push :: "'w vc_attr \<Rightarrow> vc_ops \<Rightarrow> 'w vc_attr" where
  "stk_push a s =
     (if stk_full a then a
      else a\<lparr>va_top := va_top a + 1, va_stk := (va_stk a)[nat (va_top a + 1) := Some s]\<rparr>)"

definition stk_pop :: "'w vc_attr \<Rightarrow> 'w vc_attr" where
  "stk_pop a = (if stk_empty a then a else a\<lparr>va_top := va_top a - 1\<rparr>)"

definition EXCP_SLEEPTIME :: nat where "EXCP_SLEEPTIME = 3"
definition EXCP_RECONN_TIME :: int where "EXCP_RECONN_TIME = 5"

definition stk_excp :: "'w os \<Rightarrow> 'w vc_attr \<Rightarrow> 'w vc_attr" where
  "stk_excp os a =
     (if stk_bot a then a
      else let a1 = a\<lparr>va_top := 0\<rparr> in
        if va_pre_excp_t a1 = 0 then
          (case os_time os (va_w a1) of (t, w) \<Rightarrow> a1\<lparr>va_pre_excp_t := t, va_w := w\<rparr>)
        else
          (case os_time os (va_w a1) of (now, w) \<Rightarrow>
             let w' = (if now - va_pre_excp_t a1 < EXCP_RECONN_TIME
                       then os_sleep os EXCP_SLEEPTIME w else w)
             in a1\<lparr>va_pre_excp_t := now, va_w := w'\<rparr>))"

definition stk_rpls :: "'w vc_attr \<Rightarrow> vc_ops \<Rightarrow> 'w vc_attr" where
  "stk_rpls a s = a\<lparr>va_stk := (va_stk a)[nat (va_top a) := Some s]\<rparr>"

definition stk_curnt :: "'w vc_attr \<Rightarrow> vc_ops out" where
  "stk_curnt a =
     (if stk_empty a then Exit
      else case va_stk a ! nat (va_top a) of None \<Rightarrow> Crash | Some s \<Rightarrow> Ok s)"

definition stk_restart :: "'w vc_attr \<Rightarrow> 'w vc_attr" where
  "stk_restart a = (if stk_bot a then a else a\<lparr>va_top := 0\<rparr>)"

text \<open>_stk_log: only its calls of exit and of the current state's name matter here.\<close>

definition stk_log :: "'w vc_attr \<Rightarrow> 'w vc_attr out" where
  "stk_log a = (if va_top a < 0 then Exit else out_bind (stk_curnt a) (\<lambda>_. Ok a))"

subsection \<open>Sockets\<close>

definition vc_sock_enblock :: "'w os \<Rightarrow> int \<Rightarrow> bool \<Rightarrow> 'w \<Rightarrow> int \<times> 'w" where
  "vc_sock_enblock os sk enable w =
     (let skarg = os_getfl os sk w in
      if skarg < 0 then (- 1, w)
      else case os_setfl os sk (if enable then skarg AND NOT O_NONBLOCK else skarg OR O_NONBLOCK) w of
        (r, w') \<Rightarrow> if r < 0 then (- 1, w') else (0, w'))"

datatype skopt = SKOPT_BLOCK | SKOPT_NONBLOCK

text \<open>vc_config_sock for the two options the daemon uses.\<close>

definition vc_config_sock :: "'w os \<Rightarrow> int \<Rightarrow> skopt \<Rightarrow> 'w \<Rightarrow> int \<times> 'w" where
  "vc_config_sock os sk opt w = vc_sock_enblock os sk (opt = SKOPT_BLOCK) w"

definition FD_RD_RDY :: int where "FD_RD_RDY = 1"
definition FD_WR_RDY :: int where "FD_WR_RDY = 2"

definition fdcheck :: "'w os \<Rightarrow> int \<Rightarrow> int \<Rightarrow> timeval option \<Rightarrow> 'w \<Rightarrow> int \<times> 'w" where
  "fdcheck os fd type ctv w =
     (let rfds = (if type AND FD_RD_RDY \<noteq> 0 then FD_SET fd [] else []);
          wfds = (if type AND FD_WR_RDY \<noteq> 0 then FD_SET fd [] else []);
          tv = (case ctv of Some t \<Rightarrow> t | None \<Rightarrow> (0, 0))
      in case os_select os (fd + 1) rfds wfds [] tv w of (s, w') \<Rightarrow>
        if fs_ret s = 0 then (0, w')
        else let r1 = (if FD_ISSET fd (fs_r s) then 0 OR FD_RD_RDY else 0)
             in (if FD_ISSET fd (fs_w s) then r1 OR FD_WR_RDY else r1, w'))"

definition vc_check_send :: "'w os \<Rightarrow> byte list \<Rightarrow> 'w vc_attr \<Rightarrow> (int \<times> 'w vc_attr) out" where
  "vc_check_send os pkt a =
     (case va_ssl a of
        Some i \<Rightarrow>
          out_bind (ssl_send_simple os pkt 1000 i (va_w a)) (\<lambda>(ret, _, _, i', w').
            let a' = a\<lparr>va_ssl := Some i', va_w := w'\<rparr> in
            if ret \<noteq> int (length pkt) then out_bind (stk_log a') (\<lambda>a''. Ok (- 1, a''))
            else Ok (0, a'))
      | None \<Rightarrow>
          (case fdcheck os (va_sk a) FD_WR_RDY None (va_w a) of (r, w1) \<Rightarrow>
             if r = 0 then Ok (- 1, a\<lparr>va_w := w1\<rparr>)
             else case os_send os (va_sk a) pkt w1 of (n, w2) \<Rightarrow>
               if n \<noteq> int (length pkt) then Ok (- 1, a\<lparr>va_w := w2\<rparr>) else Ok (0, a\<lparr>va_w := w2\<rparr>)))"

subsection \<open>The daemon's view of the rings\<close>

datatype rb_id = VC_BUF_RX | VC_BUF_TX | VC_BUF_ATTR

definition get_ring :: "rb_id \<Rightarrow> 'w vc_attr \<Rightarrow> ring_buf" where
  "get_ring b a = (if b = VC_BUF_RX then va_rx a else va_tx a)"

definition set_ring :: "rb_id \<Rightarrow> ring_buf \<Rightarrow> 'w vc_attr \<Rightarrow> 'w vc_attr" where
  "set_ring b r a = (if b = VC_BUF_RX then a\<lparr>va_rx := r\<rparr> else a\<lparr>va_tx := r\<rparr>)"

definition vc_buf_update :: "'w os \<Rightarrow> rb_id \<Rightarrow> 'w vc_attr \<Rightarrow> int \<times> 'w vc_attr" where
  "vc_buf_update os b a =
     (if b = VC_BUF_ATTR then
        (case os_ioctl os ADVVCOM_IOCGATTRPTR (va_attr_ptr a) (va_w a) of (r, p, w) \<Rightarrow>
           (0, a\<lparr>va_attr_ptr := p, va_w := w\<rparr>))
      else
        let cmd_head = (if b = VC_BUF_RX then ADVVCOM_IOCGRXHEAD else ADVVCOM_IOCGTXHEAD);
            cmd_tail = (if b = VC_BUF_RX then ADVVCOM_IOCGRXTAIL else ADVVCOM_IOCGTXTAIL)
        in case os_ioctl os cmd_head 0 (va_w a) of (r1, head, w1) \<Rightarrow>
          if r1 < 0 then (- 1, a\<lparr>va_w := w1\<rparr>)
          else case os_ioctl os cmd_tail 0 w1 of (r2, tail, w2) \<Rightarrow>
            if r2 < 0 then (- 1, a\<lparr>va_w := w2\<rparr>)
            else (0, set_ring b ((get_ring b a)\<lparr>rb_head := head, rb_tail := tail\<rparr>) (a\<lparr>va_w := w2\<rparr>)))"

definition vc_buf_clear :: "'w os \<Rightarrow> int \<Rightarrow> 'w vc_attr \<Rightarrow> 'w vc_attr" where
  "vc_buf_clear os clrflags a =
     (case os_ioctl os ADVVCOM_IOCSCLR clrflags (va_w a) of (r, _, w) \<Rightarrow>
        let a0 = a\<lparr>va_w := w\<rparr> in
        if r < 0 then a0
        else
          let a1 = (if clrflags AND ADV_CLR_RX \<noteq> 0 then
                      (case os_ioctl os ADVVCOM_IOCSRXHEAD 0 (va_w a0) of (_, _, w1) \<Rightarrow>
                         snd (vc_buf_update os VC_BUF_RX (a0\<lparr>va_w := w1\<rparr>)))
                    else a0)
          in if clrflags AND ADV_CLR_TX \<noteq> 0 then snd (vc_buf_update os VC_BUF_TX a1) else a1)"

definition vc_buf_setup :: "'w os \<Rightarrow> rb_id \<Rightarrow> 'w vc_attr \<Rightarrow> int \<times> 'w vc_attr" where
  "vc_buf_setup os b a =
     (let cmd_begin = (case b of VC_BUF_RX \<Rightarrow> ADVVCOM_IOCGRXBEGIN | VC_BUF_TX \<Rightarrow> ADVVCOM_IOCGTXBEGIN
                       | VC_BUF_ATTR \<Rightarrow> ADVVCOM_IOCGATTRBEGIN);
          cmd_size = (if b = VC_BUF_RX then ADVVCOM_IOCGRXSIZE else ADVVCOM_IOCGTXSIZE)
      in case os_ioctl os cmd_begin 0 (va_w a) of (r, begin, w) \<Rightarrow>
        if r \<noteq> 0 then (- 1, a\<lparr>va_w := w\<rparr>)
        else if b = VC_BUF_ATTR then vc_buf_update os b (a\<lparr>va_attr_base := begin, va_w := w\<rparr>)
        else case os_ioctl os cmd_size 0 w of (r2, sz, w2) \<Rightarrow>
          if r2 \<noteq> 0 then (- 1, a\<lparr>va_w := w2\<rparr>)
          else vc_buf_update os b
                 (set_ring b ((get_ring b a)\<lparr>rb_begin := begin, rb_size := sz\<rparr>) (a\<lparr>va_w := w2\<rparr>)))"

text \<open>
  The macro stk_excp asks the current state for its name before it resets the stack. \<open>excp_init\<close>
  is \<^verbatim>\<open>stk_excp(stk); return stk_curnt(stk)->init(attr);\<close> with \<open>ini\<close> the dispatched call.
\<close>

definition excp_msg :: "'w vc_attr \<Rightarrow> unit out" where
  "excp_msg a = (if stk_empty a then Ok () else out_bind (stk_curnt a) (\<lambda>_. Ok ()))"

definition excp_init :: "'w os \<Rightarrow> ('w vc_attr \<Rightarrow> 'w vc_attr out) \<Rightarrow> 'w vc_attr \<Rightarrow> 'w vc_attr out" where
  "excp_init os ini a = out_bind (excp_msg a) (\<lambda>_. ini (stk_excp os a))"

text \<open>Evaluating \<open>stk_curnt(stk)\<close> as the result of a handler.\<close>

definition ret_curnt :: "'w vc_attr \<Rightarrow> 'w vc_attr out" where
  "ret_curnt a = out_bind (stk_curnt a) (\<lambda>_. Ok a)"

end
