(* ===== verification/Vcom_Common.thy ===== *)
theory Vcom_Common
  imports Vcom_Stack
begin

text \<open>
  daemon/state_mach/vc_client_common.c: opening, transmitting, line settings, receiving, purging
  and closing, shared by the Net Up and Pause states. The dynamic calls
  \<^verbatim>\<open>stk_curnt(stk)->init\<close> and \<^verbatim>\<open>stk_curnt(stk)->recv\<close> are the arguments \<open>ini\<close> and \<open>rcv\<close>;
  Vcom_States ties the knot.
\<close>

type_synonym 'w handler = "'w vc_attr \<Rightarrow> 'w vc_attr out"
type_synonym 'w recv_handler = "byte list \<Rightarrow> int \<Rightarrow> 'w vc_attr \<Rightarrow> 'w vc_attr out"

subsection \<open>Open\<close>

definition vc_common_open :: "'w os \<Rightarrow> 'w handler \<Rightarrow> 'w handler" where
  "vc_common_open os ini a =
     (case vc_pack_open (os_uninit os 1024 (va_w a)) 1 (va_devid a) (va_port a) 1024 of (plen, pbuf) \<Rightarrow>
        if plen = 0 then excp_init os ini a
        else out_bind (vc_check_send os (take (nat plen) pbuf) a) (\<lambda>(r, a1).
          if r \<noteq> 0 then excp_init os ini a1
          else ini (stk_push (update_eki (\<lambda>e. e\<lparr>ai_is_open := 1\<rparr>) (tid_inc a1)) SYNC)))"

subsection \<open>Transmit\<close>

definition XMIT_LEN :: int where "XMIT_LEN = 1024"

definition vc_common_xmit :: "'w os \<Rightarrow> 'w handler \<Rightarrow> 'w handler" where
  "vc_common_xmit os ini a =
     (let pbuf = os_uninit os (nat (XMIT_LEN + 20)) (va_w a);
          rx = va_rx a;
          llen = (if get_rb_llength rx > XMIT_LEN then XMIT_LEN else get_rb_llength rx);
          len = (if get_rb_length rx > XMIT_LEN then XMIT_LEN else get_rb_length rx);
          front = os_mread os (rb_begin rx + get_rb_head rx) (nat llen) (va_w a);
          (plen, pbuf') =
            (if llen = len then vc_pack_xmit pbuf (va_tid a) llen (Some front) (XMIT_LEN + 20)
             else let b1 = put_bytes 20 front pbuf;
                      b2 = put_bytes (20 + nat llen)
                             (os_mread os (rb_begin rx) (nat (len - llen)) (va_w a)) b1
                  in vc_pack_xmit b2 (va_tid a) len None (XMIT_LEN + 20))
      in if plen \<le> 0 then excp_init os ini a
         else out_bind (vc_check_send os (take (nat plen) pbuf') a) (\<lambda>(r, a1).
           if r \<noteq> 0 then excp_init os ini a1
           else ret_curnt (tid_inc (a1\<lparr>va_xmit_pending := len\<rparr>))))"

subsection \<open>Line settings\<close>

text \<open>
  _set_ms: up to two packets one behind the other. \<open>ms_packet\<close> is the switch of its loop; the
  result of the loop is the total length, the buffer and the state with the transaction number
  advanced.
\<close>

definition ms_packet :: "nat \<Rightarrow> u32 \<Rightarrow> u32 \<Rightarrow> byte list \<Rightarrow> u32 \<Rightarrow> int \<Rightarrow> int \<times> byte list" where
  "ms_packet step eki_ms uart_ms packet tid room =
     (if step = 0 then
        (if eki_ms AND ADV_MS_RTS = uart_ms AND ADV_MS_RTS then (0, packet)
         else if uart_ms AND ADV_MS_RTS \<noteq> 0 then vc_pack_setrts packet tid room
         else vc_pack_clrrts packet tid room)
      else
        (if eki_ms AND ADV_MS_DTR = uart_ms AND ADV_MS_DTR then (0, packet)
         else if uart_ms AND ADV_MS_DTR \<noteq> 0 then vc_pack_setdtr packet tid room
         else vc_pack_clrdtr packet tid room))"

function set_ms_loop :: "nat \<Rightarrow> u32 \<Rightarrow> u32 \<Rightarrow> int \<Rightarrow> byte list \<Rightarrow> int \<Rightarrow> 'w vc_attr \<Rightarrow>
    int \<times> byte list \<times> 'w vc_attr" where
  "set_ms_loop step eki_ms uart_ms buflen pbuf plen a =
     (if step > 1 then (plen, pbuf, a)
      else case ms_packet step eki_ms uart_ms (drop (nat plen) pbuf) (va_tid a) (buflen - plen) of
        (len, packet) \<Rightarrow>
          let pbuf' = take (nat plen) pbuf @ packet in
          if len \<le> 0 then set_ms_loop (Suc step) eki_ms uart_ms buflen pbuf' plen a
          else set_ms_loop (Suc step) eki_ms uart_ms buflen pbuf' (plen + len) (tid_inc a))"
  by pat_completeness auto
termination
  by (relation "measure (\<lambda>(step, _). 2 - step)") auto

declare set_ms_loop.simps [simp del]

definition set_ms :: "byte list \<Rightarrow> int \<Rightarrow> u32 \<Rightarrow> 'w vc_attr \<Rightarrow> int \<times> byte list \<times> 'w vc_attr" where
  "set_ms pbuf buflen uart_ms a = set_ms_loop 0 (ai_ms (va_eki a)) uart_ms buflen pbuf 0 a"

definition vc_check_comset :: "'w os \<Rightarrow> 'w vc_attr \<Rightarrow> bool" where
  "vc_check_comset os a \<longleftrightarrow>
     (if ai_pair (attr_p os a) \<noteq> ai_pair (va_eki a) then True
      else if ai_stop (attr_p os a) \<noteq> ai_stop (va_eki a) then True
      else if ai_byte (attr_p os a) \<noteq> ai_byte (va_eki a) then True
      else False)"

text \<open>One round of vc_common_ioctl up to the test of plen.\<close>

definition ioctl_pack :: "'w os \<Rightarrow> byte list \<Rightarrow> 'w vc_attr \<Rightarrow> int \<times> byte list \<times> 'w vc_attr" where
  "ioctl_pack os pbuf a =
     (let at = attr_p os a; eki = va_eki a in
      if ai_baud at \<noteq> ai_baud eki then
        (case vc_pack_sbaud pbuf (va_tid a) (c_uint (ai_baud at)) 1024 of (plen, p) \<Rightarrow>
           (plen, p, update_eki (\<lambda>e. e\<lparr>ai_baud := ai_baud at\<rparr>) a))
      else if vc_check_comset os a then
        (case vc_pack_setlctl pbuf (va_tid a) (word_of_int (ai_pair at)) (word_of_int (ai_byte at))
                (word_of_int (ai_stop at)) 1024 of (plen, p) \<Rightarrow>
           (plen, p, update_eki (\<lambda>e. e\<lparr>ai_pair := ai_pair at, ai_stop := ai_stop at,
                                       ai_byte := ai_byte at\<rparr>) a))
      else if ai_flowctl at \<noteq> ai_flowctl eki then
        (case (if ai_flowctl at = ADV_FLOW_RTSCTS
               then vc_pack_hflow pbuf (va_tid a) 0x09000000 0x80000080 1024
               else if ai_flowctl at = ADV_FLOW_XONXOFF
               then vc_pack_hflow pbuf (va_tid a) 0x01000000 0x43000080 1024
               else vc_pack_hflow pbuf (va_tid a) 0x01000000 0x40000080 1024) of (plen, p) \<Rightarrow>
           (plen, p, update_eki (\<lambda>e. e\<lparr>ai_flowctl := ai_flowctl at\<rparr>) a))
      else if ai_ms at \<noteq> ai_ms eki then
        (case set_ms pbuf 1024 (ai_ms at) a of (plen, p, a1) \<Rightarrow>
           (plen, p, update_eki (\<lambda>e. e\<lparr>ai_ms := ai_ms at\<rparr>) a1))
      else (0, pbuf, a))"

fun ioctl_loop :: "'w os \<Rightarrow> 'w handler \<Rightarrow> nat \<Rightarrow> byte list \<Rightarrow> 'w handler" where
  "ioctl_loop os ini 0 pbuf a = ret_curnt a"
| "ioctl_loop os ini (Suc loop_count) pbuf a =
     (case ioctl_pack os pbuf a of (plen, pbuf', a1) \<Rightarrow>
        if plen \<le> 0 then ret_curnt a1
        else out_bind (vc_check_send os (take (nat plen) pbuf') a1) (\<lambda>(r, a2).
          if r \<noteq> 0 then excp_init os ini a2
          else ioctl_loop os ini loop_count pbuf' (tid_inc a2)))"

definition vc_common_ioctl :: "'w os \<Rightarrow> 'w handler \<Rightarrow> 'w handler" where
  "vc_common_ioctl os ini a = ioctl_loop os ini 15 (os_uninit os 1024 (va_w a)) a"

subsection \<open>Receive\<close>

definition check_ioctl_ret :: "'w recv_handler \<Rightarrow> byte list \<Rightarrow> int \<Rightarrow> 'w vc_attr \<Rightarrow>
    (int \<times> 'w vc_attr) out" where
  "check_ioctl_ret rcv pbuf buflen a =
     (let status = pkt_p1 pbuf; subcmd = pkt_p2 pbuf in
      if status \<noteq> STATUS_SUCCESS then Ok (- 1, a)
      else if subcmd \<in> {VCOM_IOCTL_WAIT_ON_MASK, VCOM_IOCTL_GET_MODEMSTATUS, VCOM_IOCTL_SET_WAIT_MASK}
      then out_bind (rcv pbuf buflen (stk_push a SYNC)) (\<lambda>a'. Ok (0, a'))
      else Ok (0, a))"

definition recv_data :: "'w os \<Rightarrow> byte list \<Rightarrow> int \<Rightarrow> 'w vc_attr \<Rightarrow> 'w vc_attr" where
  "recv_data os buf datalen a =
     (let tx = va_tx a; lroom = get_rb_lroom tx; tail = get_rb_tail tx;
          w1 = (if lroom \<ge> datalen
                then os_mwrite os (rb_begin tx + tail) (get_bytes 20 (nat datalen) buf) (va_w a)
                else os_mwrite os (rb_begin tx) (get_bytes (20 + nat lroom) (nat (datalen - lroom)) buf)
                       (os_mwrite os (rb_begin tx + tail) (get_bytes 20 (nat lroom) buf) (va_w a)))
      in case os_ioctl os ADVVCOM_IOCSTXTAIL datalen w1 of (_, _, w2) \<Rightarrow> a\<lparr>va_w := w2\<rparr>)"

definition vc_common_recv :: "'w os \<Rightarrow> 'w handler \<Rightarrow> 'w recv_handler \<Rightarrow> 'w recv_handler" where
  "vc_common_recv os ini rcv buf len a =
     (if len < 12 then excp_init os ini a
      else
        let cmd = pkt_cmd buf in
        if cmd = VCOM_CMD_CREATE then
          (if vc_check_open buf (va_devid a AND 0xFF) (va_port a) len \<noteq> 0 then excp_init os ini a
           else ret_curnt a)
        else if cmd = VCOM_CMD_IOCTL then
          out_bind (vc_check_ioctl buf len (Some (check_ioctl_ret rcv)) a) (\<lambda>(r, a1).
            if r \<noteq> 0 then excp_init os ini a1 else ret_curnt a1)
        else if cmd = VCOM_CMD_DATAREADY then
          (case vc_check_recv buf of
             None \<Rightarrow> excp_init os ini a
           | Some datalen \<Rightarrow>
               if get_rb_room (va_tx a) < datalen then excp_init os ini a
               else ret_curnt (recv_data os buf datalen a))
        else if cmd = VCOM_CMD_WRITE then
          (let xmit_len = va_xmit_pending a; a1 = a\<lparr>va_xmit_pending := 0\<rparr> in
           if vc_check_xmit buf xmit_len STATUS_SUCCESS len = 0 then
             (case os_ioctl os ADVVCOM_IOCSRXHEAD xmit_len (va_w a1) of (_, _, w) \<Rightarrow>
                ret_curnt (snd (vc_buf_update os VC_BUF_RX (a1\<lparr>va_w := w\<rparr>))))
           else if vc_check_xmit buf xmit_len STATUS_DEVICE_BUSY len = 0 then ret_curnt a1
           else excp_init os ini a1)
        else ret_curnt a)"

subsection \<open>Purge and close\<close>

definition vc_common_purge :: "'w os \<Rightarrow> u32 \<Rightarrow> 'w handler" where
  "vc_common_purge os pflags a =
     (case vc_pack_purge (os_uninit os 1024 (va_w a)) (va_tid a) pflags 1024 of (plen, pbuf) \<Rightarrow>
        if plen = 0 then Ok a
        else out_bind (vc_check_send os (take (nat plen) pbuf) a) (\<lambda>(r, a1).
          if r \<noteq> 0 then Ok a1 else Ok (tid_inc a1)))"

definition vc_common_close :: "'w os \<Rightarrow> 'w handler \<Rightarrow> 'w handler" where
  "vc_common_close os ini a =
     (let a0 = update_eki (\<lambda>e. e\<lparr>ai_is_open := 0, ai_stop := ADV_STOP_UNDEF,
                 ai_flowctl := ADV_FLOW_UNDEF, ai_pair := ADV_PAIR_UNDEF\<rparr>) a
      in case vc_pack_close (os_uninit os 1024 (va_w a0)) (va_tid a0) 1024 of (plen, pbuf) \<Rightarrow>
        if plen = 0 then excp_init os ini a0
        else out_bind (vc_check_send os (take (nat plen) pbuf) a0) (\<lambda>(r, a1).
          if r \<noteq> 0 then excp_init os ini a1
          else ini (stk_restart (tid_inc a1))))"

end
