(* ===== verification/Vcom_States.thy ===== *)
theory Vcom_States
  imports Vcom_Common
begin

text \<open>
  The five protocol states of the daemon: daemon/state_mach/vc_client_netdown.c, _netup.c,
  _pause.c, _sync.c and _idle.c, and the dispatch through their tables. A null entry of a table
  that is called without a test is \<open>Crash\<close>; one that is tested (try_ops) leaves the state alone.
\<close>

subsection \<open>Connecting\<close>

definition sock_err :: "'w os \<Rightarrow> int \<Rightarrow> 'w \<Rightarrow> int \<times> 'w" where
  "sock_err os sk w =
     (case os_so_error os sk w of (r, arg, w') \<Rightarrow>
        if r < 0 then (- 1, w') else if arg \<noteq> 0 then (- 1, w') else (0, w'))"

text \<open>
  The loop of _create_sklist over the resolved addresses. \<open>sk\<close> keeps its value across rounds, as
  the variable of the source does; the waiting sockets are a list.
\<close>

fun sklist_loop :: "'w os \<Rightarrow> ifaddr \<Rightarrow> addrinfo list \<Rightarrow> int \<Rightarrow> int list \<Rightarrow> 'w \<Rightarrow>
    int \<times> int list \<times> 'w" where
  "sklist_loop os ifa [] sk cl w = (sk, cl, w)"
| "sklist_loop os ifa (ptr # ptrs) sk cl w =
     (if ai_family ptr \<noteq> ifa_family ifa then sklist_loop os ifa ptrs sk cl w
      else case os_socket os (ai_family ptr) w of (sk1, w1) \<Rightarrow>
        if sk1 < 0 then sklist_loop os ifa ptrs sk1 cl w1
        else case os_bind os sk1 ifa w1 of (b, w2) \<Rightarrow>
          if b < 0 then sklist_loop os ifa ptrs sk1 cl (os_close os sk1 w2)
          else case vc_config_sock os sk1 SKOPT_NONBLOCK w2 of (_, w3) \<Rightarrow>
            case os_connect os sk1 ptr w3 of (ret, inprogress, w4) \<Rightarrow>
              if ret < 0 \<and> \<not> inprogress then sklist_loop os ifa ptrs (- 1) cl (os_close os sk1 w4)
              else if ret = 0 then (sk1, cl, w4)
              else sklist_loop os ifa ptrs (- 1) (cl @ [sk1]) w4)"

definition create_sklist :: "'w os \<Rightarrow> string \<Rightarrow> ifaddr \<Rightarrow> int list \<Rightarrow> 'w \<Rightarrow> int \<times> int list \<times> 'w" where
  "create_sklist os addr ifa cl w =
     (case os_getaddrinfo os addr w of
        (None, w') \<Rightarrow> (- 1, cl, w')
      | (Some res, w') \<Rightarrow> sklist_loop os ifa res (- 1) cl w')"

fun if_loop :: "'w os \<Rightarrow> string option \<Rightarrow> string \<Rightarrow> ifaddr list \<Rightarrow> int \<Rightarrow> int list \<Rightarrow> 'w \<Rightarrow>
    int \<times> int list \<times> 'w" where
  "if_loop os red addr [] sk cl w = (sk, cl, w)"
| "if_loop os red addr (ifa # ifas) sk cl w =
     (case create_sklist os addr ifa cl w of (sk1, cl1, w1) \<Rightarrow>
        case (case red of
                Some r \<Rightarrow> if sk1 < 0 then (r, create_sklist os r ifa cl1 w1) else (addr, sk1, cl1, w1)
              | None \<Rightarrow> (addr, sk1, cl1, w1)) of (addr', sk2, cl2, w2) \<Rightarrow>
          if sk2 \<ge> 0 then (sk2, cl2, w2) else if_loop os red addr' ifas sk2 cl2 w2)"

text \<open>One pass over the waiting sockets after \<^verbatim>\<open>select\<close>: failed ones are closed, the first good one wins.\<close>

fun scan_clients :: "'w os \<Rightarrow> int list \<Rightarrow> int list \<Rightarrow> int \<Rightarrow> 'w vc_attr \<Rightarrow>
    (int list \<times> int \<times> 'w vc_attr) out" where
  "scan_clients os ready [] sk a = Ok ([], sk, a)"
| "scan_clients os ready (c # cs) sk a =
     (if \<not> FD_ISSET c ready then
        out_bind (scan_clients os ready cs sk a) (\<lambda>(cl, sk', a'). Ok (c # cl, sk', a'))
      else case sock_err os c (va_w a) of (e, w1) \<Rightarrow>
        if e \<noteq> 0 then
          out_bind (stk_log (a\<lparr>va_w := os_close os c w1\<rparr>)) (\<lambda>a'. scan_clients os ready cs sk a')
        else Ok (cs, c, a\<lparr>va_w := w1\<rparr>))"

definition sk_max :: "int list \<Rightarrow> int" where
  "sk_max cl = foldl (\<lambda>m c. if c > m then c else m) (- 1) cl"

partial_function (option) connect_wait :: "'w os \<Rightarrow> int list \<Rightarrow> int \<Rightarrow> timeval \<Rightarrow> 'w vc_attr \<Rightarrow>
    (int list \<times> int \<times> 'w vc_attr) out option" where
  "connect_wait os cl sk tv a =
     (if sk \<ge> 0 then Some (Ok (cl, sk, a))
      else case os_select os (sk_max cl + 1) [] (foldl (\<lambda>s c. FD_SET c s) [] cl) [] tv (va_w a) of (s, w1) \<Rightarrow>
        if fs_ret s \<le> 0 then Some (out_bind (stk_log (a\<lparr>va_w := w1\<rparr>)) (\<lambda>a'. Ok (cl, sk, a')))
        else (case scan_clients os (fs_w s) cl sk (a\<lparr>va_w := w1\<rparr>) of
                Ok (cl', sk', a') \<Rightarrow> connect_wait os cl' sk' (fs_tv s) a'
              | Exit \<Rightarrow> Some Exit | Crash \<Rightarrow> Some Crash | Hang \<Rightarrow> Some Hang))"

definition CONN_TO :: int where "CONN_TO = 10"

text \<open>vc_connect; with no network interface at all the result is the uninitialised \<open>sk\<close>.\<close>

definition vc_connect :: "'w os \<Rightarrow> 'w vc_attr \<Rightarrow> (int \<times> 'w vc_attr) out" where
  "vc_connect os a =
     (case os_getifaddrs os (va_w a) of
        (None, w0) \<Rightarrow> out_bind (stk_log (a\<lparr>va_w := w0\<rparr>)) (\<lambda>a'. Ok (- 1, a'))
      | (Some ifas, w0) \<Rightarrow>
          (case if_loop os (va_ip_red a) (va_ip_ptr a) ifas
                  (c_of_u32 (of_le32 (os_uninit os 4 (va_w a)))) [] w0 of (sk, cl, w1) \<Rightarrow>
             let a1 = a\<lparr>va_w := w1\<rparr> in
             if cl = [] then out_bind (stk_log a1) (\<lambda>a'. Ok (sk, a'))
             else out_bind (of_opt (connect_wait os cl sk (CONN_TO, 0) a1)) (\<lambda>r.
               out_bind r (\<lambda>(cl', sk', a2).
                 let w2 = foldl (\<lambda>w c. os_close os c w) (va_w a2) cl';
                     w3 = (if sk' \<ge> 0 then os_nodelay os sk' (snd (vc_config_sock os sk' SKOPT_BLOCK w2)) else w2)
                 in Ok (sk', a2\<lparr>va_w := w3\<rparr>)))))"

subsection \<open>Net Down\<close>

text \<open>Closing the connection, as vc_netdown_close and vc_netdown_init do it.\<close>

definition drop_session :: "'w os \<Rightarrow> 'w handler" where
  "drop_session os a =
     (if va_sk a \<ge> 0 then
        (case va_ssl a of
           None \<Rightarrow> Ok (a\<lparr>va_w := os_close os (va_sk a) (va_w a), va_sk := - 1\<rparr>)
         | Some i \<Rightarrow>
             if \<not> si_ssl i then Crash
             else let w1 = snd (set_block os (si_sk i) (va_w a));
                      w2 = os_SSL_free os (os_SSL_shutdown os w1)
                  in Ok (a\<lparr>va_ssl := Some (i\<lparr>si_ssl := False\<rparr>), va_w := os_close os (va_sk a) w2,
                          va_sk := - 1\<rparr>))
      else Ok a)"

definition vc_netdown_close :: "'w os \<Rightarrow> 'w handler" where
  "vc_netdown_close os a = drop_session os (vc_buf_clear os (ADV_CLR_RX OR ADV_CLR_TX) a)"

definition vc_netdown_init :: "'w os \<Rightarrow> 'w handler" where
  "vc_netdown_init os a =
     out_bind (drop_session os a) (\<lambda>a1.
       Ok (a1\<lparr>va_tid := 0, va_xmit_pending := 0,
              va_eki := zero_port_info\<lparr>ai_stop := ADV_STOP_UNDEF, ai_flowctl := ADV_FLOW_UNDEF,
                ai_pair := ADV_PAIR_UNDEF\<rparr>\<rparr>))"

text \<open>The last part of vc_netdown_open: the state to push and its open.\<close>

definition netdown_up :: "'w handler \<Rightarrow> 'w handler" where
  "netdown_up opn a = opn (stk_push a (if is_rb_empty (va_tx a) then NETUP else PAUSE))"

definition vc_netdown_open :: "'w os \<Rightarrow> 'w handler \<Rightarrow> 'w handler \<Rightarrow> 'w handler" where
  "vc_netdown_open os ini opn a =
     out_bind (vc_connect os a) (\<lambda>(ret, a1).
       if ret < 0 then Ok ((vc_buf_clear os ADV_CLR_RX a1)\<lparr>va_sk := - 1\<rparr>)
       else
         let a2 = a1\<lparr>va_sk := ret\<rparr> in
         case va_ssl a2 of
           None \<Rightarrow> netdown_up opn a2
         | Some i \<Rightarrow>
             (case os_SSL_new os (va_w a2) of (ok, w1) \<Rightarrow>
                let i1 = i\<lparr>si_sk := va_sk a2, si_ssl := ok\<rparr> in
                if \<not> ok then Crash
                else case os_SSL_set_fd os (si_sk i1) w1 of (r, w2) \<Rightarrow>
                  if r = 0 then ini (a2\<lparr>va_ssl := Some i1, va_w := w2\<rparr>)
                  else case set_nonblock os (si_sk i1) w2 of (_, w3) \<Rightarrow>
                    out_bind (ssl_connect_simple os 1000 i1 w3) (\<lambda>(c, _, _, i2, w4).
                      let a3 = a2\<lparr>va_ssl := Some i2, va_w := w4\<rparr> in
                      if c \<noteq> 1 then out_bind (stk_log a3) ini
                      else netdown_up opn a3)))"

subsection \<open>Net Up and Pause\<close>

definition update_both :: "'w os \<Rightarrow> 'w vc_attr \<Rightarrow> 'w vc_attr" where
  "update_both os a = snd (vc_buf_update os VC_BUF_TX (snd (vc_buf_update os VC_BUF_RX a)))"

definition vc_netup_init :: "'w os \<Rightarrow> 'w handler" where
  "vc_netup_init os a = Ok (update_both os a)"

definition vc_pause_init :: "'w os \<Rightarrow> 'w handler" where
  "vc_pause_init os a = Ok (update_both os a)"

definition vc_netup_close :: "'w os \<Rightarrow> 'w handler \<Rightarrow> 'w handler" where
  "vc_netup_close os ini a =
     out_bind (vc_common_purge os 0x0f (vc_buf_clear os (ADV_CLR_RX OR ADV_CLR_TX) a))
       (vc_common_close os ini)"

definition vc_pause_close :: "'w os \<Rightarrow> 'w handler \<Rightarrow> 'w handler" where
  "vc_pause_close os ini a =
     out_bind (vc_common_purge os 0x0f (vc_buf_clear os (ADV_CLR_RX OR ADV_CLR_TX) a))
       (vc_common_close os ini)"

text \<open>_pause_queue, _resume_queue and _sync_queue announce the room the daemon has.\<close>

definition send_qfsize :: "'w os \<Rightarrow> int \<Rightarrow> 'w vc_attr \<Rightarrow> (int \<times> 'w vc_attr) out" where
  "send_qfsize os q a =
     (case vc_pack_qfsize (os_uninit os 1024 (va_w a)) (va_tid a) q 1024 of (plen, pbuf) \<Rightarrow>
        if plen \<le> 0 then Ok (- 1, a)
        else out_bind (vc_check_send os (take (nat plen) pbuf) a) (\<lambda>(r, a1).
          if r \<noteq> 0 then Ok (- 1, a1) else Ok (0, tid_inc a1)))"

definition vc_netup_pause :: "'w os \<Rightarrow> 'w handler \<Rightarrow> 'w handler" where
  "vc_netup_pause os ini a =
     out_bind (send_qfsize os 0 a) (\<lambda>(r, a1).
       if r < 0 then excp_init os ini a1 else ini (stk_rpls a1 PAUSE))"

definition vc_netup_poll :: "'w handler \<Rightarrow> 'w handler" where
  "vc_netup_poll ini a = ini (stk_push a IDLE)"

definition vc_netup_event :: "'w vc_attr \<Rightarrow> int list \<Rightarrow> int list \<Rightarrow> int list \<times> int list" where
  "vc_netup_event a rfds wfds =
     (if va_xmit_pending a = 0 then FD_SET (va_fd a) rfds else rfds, wfds)"

definition vc_pause_event :: "'w vc_attr \<Rightarrow> int list \<Rightarrow> int list \<Rightarrow> int list \<times> int list" where
  "vc_pause_event a rfds wfds =
     (if va_xmit_pending a = 0 then FD_SET (va_fd a) rfds else rfds, FD_SET (va_fd a) wfds)"

definition vc_pause_resume :: "'w os \<Rightarrow> 'w handler \<Rightarrow> 'w handler" where
  "vc_pause_resume os ini a =
     out_bind (send_qfsize os 1024 a) (\<lambda>(r, a1).
       if r \<noteq> 0 then excp_init os ini a1 else ini (stk_rpls a1 NETUP))"

definition vc_pause_poll :: "'w handler \<Rightarrow> 'w handler" where
  "vc_pause_poll ini a = ini (stk_push a IDLE)"

subsection \<open>Sync\<close>

text \<open>Sending one small packet: the step all the loops of vc_client_sync.c share.\<close>

definition send_step :: "'w os \<Rightarrow> int \<times> byte list \<Rightarrow> 'w vc_attr \<Rightarrow> (int \<times> 'w vc_attr) out" where
  "send_step os p a =
     (case p of (plen, pbuf) \<Rightarrow>
        if plen \<le> 0 then Ok (- 1, a)
        else out_bind (vc_check_send os (take (nat plen) pbuf) a) (\<lambda>(r, a1).
          if r \<noteq> 0 then Ok (- 1, a1) else Ok (0, tid_inc a1)))"

definition sync_ms :: "'w os \<Rightarrow> u32 \<Rightarrow> 'w vc_attr \<Rightarrow> (int \<times> 'w vc_attr) out" where
  "sync_ms os uart_ms a =
     (let pbuf = os_uninit os 1024 (va_w a);
          p0 = (if uart_ms AND ADV_MS_RTS \<noteq> 0 then vc_pack_setrts pbuf (va_tid a) 1024
                else vc_pack_clrrts pbuf (va_tid a) 1024)
      in out_bind (send_step os p0 a) (\<lambda>(r, a1).
        if r \<noteq> 0 then Ok (- 1, a1)
        else
          let p1 = (if uart_ms AND ADV_MS_DTR \<noteq> 0 then vc_pack_setdtr (snd p0) (va_tid a1) 1024
                    else vc_pack_clrdtr (snd p0) (va_tid a1) 1024)
          in send_step os p1 a1))"

definition sync_event :: "'w os \<Rightarrow> 'w vc_attr \<Rightarrow> (int \<times> 'w vc_attr) out" where
  "sync_event os a =
     (let p0 = vc_pack_setwmask (os_uninit os 1024 (va_w a)) (va_tid a) 0x38010000 1024
      in out_bind (send_step os p0 a) (\<lambda>(r, a1).
        if r \<noteq> 0 then Ok (- 1, a1)
        else send_step os (vc_pack_getmodem (snd p0) (va_tid a1) 1024) a1))"

definition reg_sync_event :: "'w os \<Rightarrow> 'w vc_attr \<Rightarrow> (int \<times> 'w vc_attr) out" where
  "reg_sync_event os a =
     send_step os (vc_pack_womask (os_uninit os 1024 (va_w a)) (va_tid a) 1024) a"

definition sync_queue :: "'w os \<Rightarrow> 'w vc_attr \<Rightarrow> (int \<times> 'w vc_attr) out" where
  "sync_queue os a = send_qfsize os (if is_rb_empty (va_tx a) then 1024 else 0) a"

definition vc_sync_init :: "'w os \<Rightarrow> 'w handler \<Rightarrow> 'w handler" where
  "vc_sync_init os ini a =
     (let uart_ms = ai_ms (attr_p os a) in
      out_bind (sync_ms os uart_ms a) (\<lambda>(r, a1).
        if r \<noteq> 0 then excp_init os ini a1
        else out_bind (sync_event os (update_eki (\<lambda>e. e\<lparr>ai_ms := uart_ms\<rparr>) a1)) (\<lambda>(r2, a2).
          if r2 \<noteq> 0 then excp_init os ini a2
          else out_bind (sync_queue os a2) (\<lambda>(r3, a3).
            if r3 \<noteq> 0 then excp_init os ini a3 else ini (stk_pop a3)))))"

definition vc_sync_recv :: "'w os \<Rightarrow> 'w handler \<Rightarrow> 'w recv_handler" where
  "vc_sync_recv os ini buf len a =
     (let subcmd = pkt_p2 buf in
      if subcmd = VCOM_IOCTL_WAIT_ON_MASK then
        out_bind (sync_event os a) (\<lambda>(r, a1).
          if r \<noteq> 0 then excp_init os ini a1 else ini (stk_pop a1))
      else if subcmd = VCOM_IOCTL_SET_WAIT_MASK then
        out_bind (reg_sync_event os a) (\<lambda>(r, a1).
          if r \<noteq> 0 then excp_init os ini a1 else ini (stk_pop a1))
      else if subcmd = VCOM_IOCTL_GET_MODEMSTATUS then
        (case os_ioctl os ADVVCOM_IOCSMCTRL (c_of_u32 (of_le32 (get_bytes 20 4 buf))) (va_w a) of (r, _, w) \<Rightarrow>
           let a1 = a\<lparr>va_w := w\<rparr> in
           if r \<noteq> 0 then excp_init os ini a1 else ini (stk_pop a1))
      else ini (stk_pop a))"

subsection \<open>Idle\<close>

definition vc_idle_init :: "'w os \<Rightarrow> 'w handler \<Rightarrow> 'w handler" where
  "vc_idle_init os ini a =
     (case vc_pack_getwmask (os_uninit os 20 (va_w a)) (va_tid a) 20 of (plen, pbuf) \<Rightarrow>
        if plen \<le> 0 then excp_init os ini a
        else out_bind (vc_check_send os (take (nat plen) pbuf) a) (\<lambda>(r, a1).
          if r \<noteq> 0 then excp_init os ini a1 else Ok (tid_inc a1)))"

definition vc_idle_close :: "'w os \<Rightarrow> 'w handler \<Rightarrow> 'w handler" where
  "vc_idle_close os ini a =
     out_bind (vc_common_purge os 0x0f (vc_buf_clear os (ADV_CLR_RX OR ADV_CLR_TX) a))
       (vc_common_close os ini)"

definition vc_idle_poll :: "'w os \<Rightarrow> 'w handler \<Rightarrow> 'w handler" where
  "vc_idle_poll os ini a = excp_init os ini (vc_buf_clear os ADV_CLR_RX a)"

definition vc_idle_open :: "'w handler \<Rightarrow> 'w handler" where
  "vc_idle_open opn a = opn (stk_pop a)"

definition vc_idle_recv :: "'w recv_handler \<Rightarrow> 'w recv_handler" where
  "vc_idle_recv rcv buf len a = rcv buf len (stk_pop a)"

subsection \<open>Dispatch\<close>

text \<open>
  \<^verbatim>\<open>stk_curnt(stk)->init(attr)\<close>. A nested call happens after the stack has become lower, so the
  depth is bounded by the height of the stack; the fuel is above STACK_MAX.
\<close>

fun call_init :: "nat \<Rightarrow> 'w os \<Rightarrow> 'w handler" where
  "call_init 0 os a = Hang"
| "call_init (Suc n) os a =
     out_bind (stk_curnt a) (\<lambda>s.
       case s of
         NETDOWN \<Rightarrow> vc_netdown_init os a
       | NETUP \<Rightarrow> vc_netup_init os a
       | PAUSE \<Rightarrow> vc_pause_init os a
       | SYNC \<Rightarrow> vc_sync_init os (call_init n os) a
       | IDLE \<Rightarrow> vc_idle_init os (call_init n os) a)"

definition FUEL :: nat where "FUEL = 12"

definition vc_init :: "'w os \<Rightarrow> 'w handler" where
  "vc_init os = call_init FUEL os"

fun call_open :: "nat \<Rightarrow> 'w os \<Rightarrow> 'w handler" where
  "call_open 0 os a = Hang"
| "call_open (Suc n) os a =
     out_bind (stk_curnt a) (\<lambda>s.
       case s of
         NETDOWN \<Rightarrow> vc_netdown_open os (vc_init os) (call_open n os) a
       | NETUP \<Rightarrow> vc_common_open os (vc_init os) a
       | PAUSE \<Rightarrow> vc_common_open os (vc_init os) a
       | SYNC \<Rightarrow> Exit
       | IDLE \<Rightarrow> vc_idle_open (call_open n os) a)"

definition vc_open :: "'w os \<Rightarrow> 'w handler" where
  "vc_open os = call_open FUEL os"

definition vc_sync_close :: "'w os \<Rightarrow> 'w handler" where
  "vc_sync_close os a =
     out_bind (excp_msg (vc_buf_clear os (ADV_CLR_RX OR ADV_CLR_TX) a)) (\<lambda>_. Exit)"

definition vc_close :: "'w os \<Rightarrow> 'w handler" where
  "vc_close os a =
     out_bind (stk_curnt a) (\<lambda>s.
       case s of
         NETDOWN \<Rightarrow> vc_netdown_close os a
       | NETUP \<Rightarrow> vc_netup_close os (vc_init os) a
       | PAUSE \<Rightarrow> vc_pause_close os (vc_init os) a
       | SYNC \<Rightarrow> vc_sync_close os a
       | IDLE \<Rightarrow> vc_idle_close os (vc_init os) a)"

fun call_recv :: "nat \<Rightarrow> 'w os \<Rightarrow> 'w recv_handler" where
  "call_recv 0 os buf len a = Hang"
| "call_recv (Suc n) os buf len a =
     out_bind (stk_curnt a) (\<lambda>s.
       case s of
         NETDOWN \<Rightarrow> Crash
       | NETUP \<Rightarrow> vc_common_recv os (vc_init os) (call_recv n os) buf len a
       | PAUSE \<Rightarrow> vc_common_recv os (vc_init os) (call_recv n os) buf len a
       | SYNC \<Rightarrow> vc_sync_recv os (vc_init os) buf len a
       | IDLE \<Rightarrow> vc_idle_recv (call_recv n os) buf len a)"

text \<open>The calls through try_ops.\<close>

definition vc_try_recv :: "'w os \<Rightarrow> 'w recv_handler" where
  "vc_try_recv os buf len a =
     out_bind (stk_curnt a) (\<lambda>s. if s = NETDOWN then Ok a else call_recv FUEL os buf len a)"

definition vc_try_ioctl :: "'w os \<Rightarrow> 'w handler" where
  "vc_try_ioctl os a =
     out_bind (stk_curnt a) (\<lambda>s. if s \<in> {NETUP, PAUSE} then vc_common_ioctl os (vc_init os) a else Ok a)"

definition vc_try_xmit :: "'w os \<Rightarrow> 'w handler" where
  "vc_try_xmit os a =
     out_bind (stk_curnt a) (\<lambda>s. if s \<in> {NETUP, PAUSE} then vc_common_xmit os (vc_init os) a else Ok a)"

definition vc_try_pause :: "'w os \<Rightarrow> 'w handler" where
  "vc_try_pause os a =
     out_bind (stk_curnt a) (\<lambda>s. if s = NETUP then vc_netup_pause os (vc_init os) a else Ok a)"

definition vc_try_resume :: "'w os \<Rightarrow> 'w handler" where
  "vc_try_resume os a =
     out_bind (stk_curnt a) (\<lambda>s. if s = PAUSE then vc_pause_resume os (vc_init os) a else Ok a)"

definition vc_try_poll :: "'w os \<Rightarrow> 'w handler" where
  "vc_try_poll os a =
     out_bind (stk_curnt a) (\<lambda>s.
       case s of
         NETUP \<Rightarrow> vc_netup_poll (vc_init os) a
       | PAUSE \<Rightarrow> vc_pause_poll (vc_init os) a
       | IDLE \<Rightarrow> vc_idle_poll os (vc_init os) a
       | _ \<Rightarrow> Ok a)"

definition vc_try_event :: "'w vc_attr \<Rightarrow> int list \<Rightarrow> int list \<Rightarrow> (int list \<times> int list) out" where
  "vc_try_event a rfds wfds =
     out_bind (stk_curnt a) (\<lambda>s.
       case s of
         NETUP \<Rightarrow> Ok (vc_netup_event a rfds wfds)
       | PAUSE \<Rightarrow> Ok (vc_pause_event a rfds wfds)
       | _ \<Rightarrow> Ok (rfds, wfds))"

end
