(* ===== verification/Vcom_Client.thy ===== *)
theory Vcom_Client
  imports Vcom_States
begin

text \<open>
  daemon/vcom_client.c: receiving one frame and the main loop of the daemon. One iteration of
  the loop is \<open>main_step\<close>; its result None is the break that ends the process. The states the
  daemon can be in at the head of the loop are the inductive predicate \<open>main_reach\<close>.
\<close>

subsection \<open>Receiving a frame\<close>

definition RBUF_SIZE :: nat where "RBUF_SIZE = 4096"

definition store_rbuf :: "nat \<Rightarrow> byte list \<Rightarrow> 'w vc_attr \<Rightarrow> 'w vc_attr" where
  "store_rbuf off bs a = a\<lparr>va_rbuf := put_bytes off bs (va_rbuf a)\<rparr>"

definition recv_second_chance :: "'w os \<Rightarrow> nat \<Rightarrow> nat \<Rightarrow> 'w vc_attr \<Rightarrow> int \<times> 'w vc_attr" where
  "recv_second_chance os off n a =
     (case os_select os (va_sk a + 1) (FD_SET (va_sk a) []) [] [] (0, 10000) (va_w a) of (s, w1) \<Rightarrow>
        if fs_ret s \<le> 0 then (0, a\<lparr>va_w := w1\<rparr>)
        else case os_recv os (va_sk a) n w1 of (r, bs, w2) \<Rightarrow>
          (r, store_rbuf off bs (a\<lparr>va_w := w2\<rparr>)))"

definition vc_frame_recv_tcp :: "'w os \<Rightarrow> nat \<Rightarrow> nat \<Rightarrow> 'w vc_attr \<Rightarrow> int \<times> 'w vc_attr" where
  "vc_frame_recv_tcp os off rlen a =
     (case os_recv os (va_sk a) rlen (va_w a) of (len, bs, w1) \<Rightarrow>
        let a1 = store_rbuf off bs (a\<lparr>va_w := w1\<rparr>) in
        if len \<le> 0 then (- 1, a1)
        else if len = int rlen then (len, a1)
        else if len < int rlen then
          (case recv_second_chance os (off + nat len) (rlen - nat len) a1 of (l2, a2) \<Rightarrow>
             if len + l2 = int rlen then (len + l2, a2) else (- 2, a2))
        else (- 2, a1))"

definition vc_frame_recv_ssl :: "'w os \<Rightarrow> ssl_info \<Rightarrow> nat \<Rightarrow> nat \<Rightarrow> 'w vc_attr \<Rightarrow> (int \<times> 'w vc_attr) out" where
  "vc_frame_recv_ssl os i off rlen a =
     out_bind (ssl_recv_direct os rlen i (va_w a)) (\<lambda>(len, bs, _, i1, w1).
       let a1 = (if len > 0 then store_rbuf off bs a else a)\<lparr>va_ssl := Some i1, va_w := w1\<rparr> in
       if len = SSL_OPS_SELECT then Ok (len, a1)
       else if len \<le> 0 then out_bind (stk_log a1) (\<lambda>a'. Ok (SSL_OPS_FAIL, a'))
       else if len = int rlen then Ok (len, a1)
       else if len < int rlen then
         out_bind (ssl_recv_simple os (rlen - nat len) 500 i1 w1) (\<lambda>(l2, bs2, _, i2, w2).
           let a2 = (if l2 > 0 then store_rbuf (off + nat len) bs2 a1 else a1)\<lparr>va_ssl := Some i2, va_w := w2\<rparr> in
           if len + l2 = int rlen then Ok (len + l2, a2)
           else out_bind (stk_log a2) (\<lambda>a'. Ok (SSL_OPS_FAIL, a')))
       else out_bind (stk_log a1) (\<lambda>a'. Ok (SSL_OPS_FAIL, a')))"

definition vc_frame_recv :: "'w os \<Rightarrow> nat \<Rightarrow> nat \<Rightarrow> 'w vc_attr \<Rightarrow> (int \<times> 'w vc_attr) out" where
  "vc_frame_recv os off rlen a =
     (case va_ssl a of Some i \<Rightarrow> vc_frame_recv_ssl os i off rlen a
      | None \<Rightarrow> Ok (vc_frame_recv_tcp os off rlen a))"

text \<open>The part of vc_recv_desp after the header: the payload and the dispatch.\<close>

definition recv_body :: "'w os \<Rightarrow> 'w handler" where
  "recv_body os a =
     (let hdr_len = 20;
          packet_len = unat (pkt_len (va_rbuf a));
          a1 = (if pkt_cmd (va_rbuf a) = VCOM_CMD_DATAREADY then snd (vc_buf_update os VC_BUF_TX a) else a)
      in if packet_len > 0 then
           (if packet_len > RBUF_SIZE - hdr_len then excp_init os (vc_init os) a1
            else out_bind (vc_frame_recv os hdr_len packet_len a1) (\<lambda>(r, a2).
              if r < 0 \<or> (va_ssl a1 \<noteq> None \<and> r \<le> 0) then excp_init os (vc_init os) a2
              else vc_try_recv os (va_rbuf a2) (int (hdr_len + packet_len)) a2))
         else vc_try_recv os (va_rbuf a1) (int (hdr_len + packet_len)) a1)"

definition vc_recv_desp :: "'w os \<Rightarrow> 'w handler" where
  "vc_recv_desp os a =
     out_bind (vc_frame_recv os 0 20 a) (\<lambda>(r, a1).
       if va_ssl a \<noteq> None \<and> r = SSL_OPS_SELECT then ret_curnt a1
       else if r < 0 \<or> (va_ssl a \<noteq> None \<and> r \<le> 0) then excp_init os (vc_init os) a1
       else recv_body os a1)"

subsection \<open>The main loop\<close>

definition VC_PULL_TIME :: int where "VC_PULL_TIME = 10000000"

definition VC_TIME_USED :: "timeval \<Rightarrow> u32" where
  "VC_TIME_USED tv = word_of_int (VC_PULL_TIME - (fst tv * 1000000 + snd tv))"

text \<open>The actions at the head of an iteration: open or close, line settings, transmit, pause.\<close>

definition main_actions :: "'w os \<Rightarrow> 'w handler" where
  "main_actions os a =
     out_bind (if ai_is_open (attr_p os a) \<noteq> ai_is_open (va_eki a)
               then (if ai_is_open (attr_p os a) \<noteq> 0 then vc_open os a else vc_close os a)
               else Ok a) (\<lambda>a1.
     out_bind (let p = attr_p os a1; e = va_eki a1 in
               if ai_baud p \<noteq> ai_baud e \<or> ai_pair p \<noteq> ai_pair e \<or> ai_flowctl p \<noteq> ai_flowctl e \<or>
                  ai_byte p \<noteq> ai_byte e \<or> ai_stop p \<noteq> ai_stop e \<or> ai_ms p \<noteq> ai_ms e
               then vc_try_ioctl os a1 else Ok a1) (\<lambda>a2.
     out_bind (if va_xmit_pending a2 = 0 \<and> \<not> is_rb_empty (va_rx a2) then vc_try_xmit os a2 else Ok a2) (\<lambda>a3.
       if \<not> is_rb_empty (va_tx a3) then vc_try_pause os a3 else Ok a3)))"

text \<open>
  The TLS part before \<^verbatim>\<open>select\<close>: the descriptor sets and whether data is already pending.
\<close>

definition main_pre_ssl :: "'w os \<Rightarrow> int list \<Rightarrow> int list \<Rightarrow> 'w vc_attr \<Rightarrow>
    (int list \<times> int list \<times> bool \<times> 'w vc_attr) out" where
  "main_pre_ssl os rfds wfds a =
     (if va_ssl a \<noteq> None \<and> va_sk a \<ge> 0 then
        out_bind (vc_recv_desp os a) (\<lambda>a1.
          case va_ssl a1 of
            None \<Rightarrow> Crash
          | Some i \<Rightarrow>
              (case ssl_set_fds i 0 rfds wfds of (_, rfds', wfds') \<Rightarrow>
                 let i1 = i\<lparr>si_recv := (si_recv i)\<lparr>we_read := True\<rparr>\<rparr> in
                 if \<not> si_ssl i1 then Crash
                 else Ok (rfds', wfds', os_SSL_pending os (va_w a1) \<noteq> 0, a1\<lparr>va_ssl := Some i1\<rparr>)))
      else Ok (rfds, wfds, False, a))"

text \<open>The timeout bookkeeping when nothing was received.\<close>

definition main_timeout :: "'w os \<Rightarrow> u32 \<Rightarrow> 'w vc_attr \<Rightarrow> (u32 \<times> 'w vc_attr) out" where
  "main_timeout os lrecv a =
     (if lrecv > word_of_int VC_PULL_TIME
      then out_bind (excp_init os (vc_init os) a) (\<lambda>a'. Ok (0, a'))
      else Ok (lrecv, a))"

definition add_used :: "timeval \<Rightarrow> u32 \<Rightarrow> u32" where
  "add_used tv lrecv = (let used = VC_TIME_USED tv in lrecv + (if used > 0 then used else 1))"

text \<open>The part after \<^verbatim>\<open>select\<close> that deals with the socket.\<close>

definition main_sock :: "'w os \<Rightarrow> bool \<Rightarrow> fdsel \<Rightarrow> u32 \<Rightarrow> 'w vc_attr \<Rightarrow> (u32 \<times> 'w vc_attr) out" where
  "main_sock os pending s lrecv a =
     (if va_sk a < 0 then Ok (lrecv, a)
      else case va_ssl a of
        Some i \<Rightarrow>
          out_bind (ssl_handle_fds os i (fs_r s) (fs_w s) (va_w a)) (\<lambda>tasks.
            if tasks AND invoke_ssl_recv \<noteq> 0
            then out_bind (vc_recv_desp os a) (\<lambda>a1. Ok (0, a1))
            else main_timeout os (if pending then lrecv else add_used (fs_tv s) lrecv) a)
      | None \<Rightarrow>
          if FD_ISSET (va_sk a) (fs_r s)
          then out_bind (vc_recv_desp os a) (\<lambda>a1. Ok (0, a1))
          else main_timeout os (add_used (fs_tv s) lrecv) a)"

definition main_step :: "'w os \<Rightarrow> u32 \<Rightarrow> 'w vc_attr \<Rightarrow> (u32 \<times> 'w vc_attr) option out" where
  "main_step os lrecv a0 =
     out_bind (main_actions os a0) (\<lambda>a.
       let efds = FD_SET (va_fd a) []; rfds0 = FD_SET (va_sk a) [] in
       out_bind (vc_try_event a rfds0 []) (\<lambda>(rfds1, wfds1).
         case os_ioctl os ADVVCOM_IOCSINTER (ADV_INT_RX OR ADV_INT_TX) (va_w a) of (ir, _, w1) \<Rightarrow>
           let a1 = a\<lparr>va_w := w1\<rparr>;
               maxfd = (if va_sk a1 \<ge> 0 then (if va_sk a1 > va_fd a1 then va_sk a1 else va_fd a1)
                        else va_fd a1)
           in if ir < 0 then Ok None
           else out_bind (main_pre_ssl os rfds1 wfds1 a1) (\<lambda>(rfds2, wfds2, pending, a2).
             case os_select os (maxfd + 1) rfds2 wfds2 efds
                    (if pending then (0, 0) else (10, 0)) (va_w a2) of (s, w3) \<Rightarrow>
               let a3 = a2\<lparr>va_w := w3\<rparr> in
               if fs_ret s = 0 \<and> \<not> pending
               then out_bind (vc_try_poll os a3) (\<lambda>a4. Ok (Some (lrecv, a4)))
               else
                 let a4 = (if FD_ISSET (va_fd a3) (fs_e s) then snd (vc_buf_update os VC_BUF_ATTR a3) else a3)
                 in out_bind (main_sock os pending s lrecv a4) (\<lambda>(lrecv', a5).
                   let a6 = (if FD_ISSET (va_fd a5) (fs_r s) then snd (vc_buf_update os VC_BUF_RX a5) else a5)
                   in if FD_ISSET (va_fd a6) (fs_w s)
                      then out_bind (vc_try_resume os (snd (vc_buf_update os VC_BUF_TX a6)))
                             (\<lambda>a7. Ok (Some (lrecv', a7)))
                      else Ok (Some (lrecv', a6))))))"

text \<open>
  The start of main after the command line and the proc file have been opened: \<open>a0\<close> holds what
  they set, and uninitialised memory otherwise.
\<close>

definition main_start :: "'w os \<Rightarrow> 'w handler" where
  "main_start os a0 =
     (let a1 = a0\<lparr>va_top := - 1, va_sk := - 1\<rparr>;
          a2 = snd (vc_buf_setup os VC_BUF_TX a1);
          a3 = snd (vc_buf_setup os VC_BUF_RX a2);
          a4 = snd (vc_buf_setup os VC_BUF_ATTR a3)
      in vc_init os (stk_push a4 NETDOWN))"

inductive main_reach :: "'w os \<Rightarrow> 'w vc_attr \<Rightarrow> u32 \<Rightarrow> 'w vc_attr \<Rightarrow> bool" for os a0 where
  mr_start: "main_start os a0 = Ok a \<Longrightarrow> main_reach os a0 0 a"
| mr_step: "main_reach os a0 l a \<Longrightarrow> main_step os l a = Ok (Some (l', a')) \<Longrightarrow> main_reach os a0 l' a'"

end
