(* ===== verification/Vcom_Safety.thy ===== *)
theory Vcom_Safety
  imports Vcom_Client
begin

text \<open>
  The stack discipline of the daemon. \<open>stk_ok\<close> is what holds inside handlers (a Sync state may be
  on top), \<open>vc_inv\<close> what holds between them: the stack is Net Down, or Net Down below Net Up or
  Pause, possibly with Idle on top; there is a connection exactly above Net Down; and a
  connected TLS session has an allocated SSL object. Every handler keeps \<open>vc_inv\<close> and returns:
  no call through a null entry, no exit, no exhausted fuel. The parameter \<open>tls\<close> says whether the
  port uses TLS, whose wait loops need not end.
\<close>

subsection \<open>Invariants\<close>

definition stk_ok :: "'w vc_attr \<Rightarrow> bool" where
  "stk_ok a \<longleftrightarrow> length (va_stk a) = STACK_MAX \<and> va_stk a ! 0 = Some NETDOWN \<and>
     0 \<le> va_top a \<and> va_top a \<le> 2 \<and>
     (1 \<le> va_top a \<longrightarrow> va_stk a ! 1 \<in> {Some NETUP, Some PAUSE}) \<and>
     (va_top a = 2 \<longrightarrow> va_stk a ! 2 \<in> {Some SYNC, Some IDLE})"

definition sess :: "bool \<Rightarrow> 'w vc_attr \<Rightarrow> bool" where
  "sess tls a \<longleftrightarrow> (va_ssl a \<noteq> None) = tls \<and>
     (\<forall>i. va_ssl a = Some i \<longrightarrow> 0 \<le> va_sk a \<longrightarrow> si_ssl i)"

text \<open>Inside a handler that may send: above Net Down there is a connection.\<close>

definition vc_mid :: "bool \<Rightarrow> 'w vc_attr \<Rightarrow> bool" where
  "vc_mid tls a \<longleftrightarrow> stk_ok a \<and> sess tls a \<and> (1 \<le> va_top a \<longrightarrow> 0 \<le> va_sk a)"

definition vc_inv :: "bool \<Rightarrow> 'w vc_attr \<Rightarrow> bool" where
  "vc_inv tls a \<longleftrightarrow> stk_ok a \<and> sess tls a \<and> (1 \<le> va_top a \<longleftrightarrow> 0 \<le> va_sk a) \<and>
     (va_top a = 2 \<longrightarrow> va_stk a ! 2 = Some IDLE)"

lemma vc_inv_mid: "vc_inv tls a \<Longrightarrow> vc_mid tls a"
  by (simp add: vc_inv_def vc_mid_def)

text \<open>What an operation that only talks to the world leaves alone.\<close>

definition same_ssl :: "ssl_info option \<Rightarrow> ssl_info option \<Rightarrow> bool" where
  "same_ssl s s' \<longleftrightarrow> rel_option (\<lambda>i j. si_ssl i = si_ssl j \<and> si_sk i = si_sk j) s s'"

definition io_frame :: "'w vc_attr \<Rightarrow> 'w vc_attr \<Rightarrow> bool" where
  "io_frame a a' \<longleftrightarrow> va_sk a' = va_sk a \<and> va_top a' = va_top a \<and> va_stk a' = va_stk a \<and>
     same_ssl (va_ssl a) (va_ssl a')"

lemma same_ssl_refl [simp]: "same_ssl s s"
  by (cases s) (simp_all add: same_ssl_def)

lemma same_ssl_trans: "same_ssl a b \<Longrightarrow> same_ssl b c \<Longrightarrow> same_ssl a c"
  by (cases a; cases b; cases c) (auto simp: same_ssl_def)

lemma io_frame_refl [simp]: "io_frame a a"
  by (simp add: io_frame_def)

lemma io_frame_trans: "io_frame a b \<Longrightarrow> io_frame b c \<Longrightarrow> io_frame a c"
  by (auto simp: io_frame_def dest: same_ssl_trans)

lemma io_frame_inv:
  assumes "io_frame a a'"
  shows "stk_ok a' = stk_ok a" "sess tls a' = sess tls a" "vc_mid tls a' = vc_mid tls a"
    "vc_inv tls a' = vc_inv tls a" "stk_curnt a' = stk_curnt a"
proof -
  have s: "sess tls a' = sess tls a"
    using assms by (cases "va_ssl a"; cases "va_ssl a'")
      (auto simp: io_frame_def same_ssl_def sess_def)
  show "stk_ok a' = stk_ok a" "sess tls a' = sess tls a" "vc_mid tls a' = vc_mid tls a"
    "vc_inv tls a' = vc_inv tls a" "stk_curnt a' = stk_curnt a"
    using assms s by (auto simp: io_frame_def stk_ok_def vc_mid_def vc_inv_def stk_curnt_def stk_empty_def)
qed

subsection \<open>The stack\<close>

lemma stk_curnt_ok:
  assumes "stk_ok a"
  obtains s where "stk_curnt a = Ok s" "va_top a = 0 \<Longrightarrow> s = NETDOWN"
    "va_top a = 1 \<Longrightarrow> s \<in> {NETUP, PAUSE}" "va_top a = 2 \<Longrightarrow> s \<in> {SYNC, IDLE}"
proof -
  have "va_top a = 0 \<or> va_top a = 1 \<or> va_top a = 2"
    using assms unfolding stk_ok_def by linarith
  then consider "va_top a = 0" | "va_top a = 1" | "va_top a = 2" by blast
  then show ?thesis
    using assms that by cases (auto simp: stk_ok_def stk_curnt_def stk_empty_def)
qed

lemma stk_ok_top: "stk_ok a \<Longrightarrow> 0 \<le> va_top a"
  by (simp add: stk_ok_def)

lemma stk_log_ok: "stk_ok a \<Longrightarrow> stk_log a = Ok a"
  using stk_ok_top [of a] by (auto simp: stk_log_def elim: stk_curnt_ok)

lemma ret_curnt_ok: "stk_ok a \<Longrightarrow> ret_curnt a = Ok a"
  by (erule stk_curnt_ok) (simp add: ret_curnt_def)

lemma excp_msg_ok: "stk_ok a \<Longrightarrow> excp_msg a = Ok ()"
  by (erule stk_curnt_ok) (simp add: excp_msg_def)

lemma stk_excp_frame [simp]:
  "va_stk (stk_excp os a) = va_stk a" "va_sk (stk_excp os a) = va_sk a"
  "va_ssl (stk_excp os a) = va_ssl a" "va_top (stk_excp os a) = 0"
  by (simp_all add: stk_excp_def stk_bot_def Let_def split: prod.splits)

lemma stk_excp_mid: "vc_mid tls a \<Longrightarrow> vc_mid tls (stk_excp os a)"
  by (simp add: vc_mid_def stk_ok_def sess_def)

lemma upd_frame [simp]:
  "va_stk (tid_inc a) = va_stk a" "va_sk (tid_inc a) = va_sk a" "va_ssl (tid_inc a) = va_ssl a"
  "va_top (tid_inc a) = va_top a" "va_w (tid_inc a) = va_w a"
  "va_stk (update_eki f a) = va_stk a" "va_sk (update_eki f a) = va_sk a"
  "va_ssl (update_eki f a) = va_ssl a" "va_top (update_eki f a) = va_top a"
  "va_w (update_eki f a) = va_w a"
  by (simp_all add: tid_inc_def update_eki_def)

lemma stk_ok_upd [simp]:
  "stk_ok (a\<lparr>va_w := w\<rparr>) = stk_ok a" "stk_ok (a\<lparr>va_ssl := s\<rparr>) = stk_ok a"
  "stk_ok (a\<lparr>va_sk := k\<rparr>) = stk_ok a" "stk_ok (a\<lparr>va_rbuf := r\<rparr>) = stk_ok a"
  "stk_ok (tid_inc a) = stk_ok a" "stk_ok (update_eki f a) = stk_ok a"
  by (simp_all add: stk_ok_def)

lemma io_frame_upd [simp]:
  "io_frame a (tid_inc b) = io_frame a b" "io_frame a (update_eki f b) = io_frame a b"
  "io_frame a (b\<lparr>va_w := w\<rparr>) = io_frame a b" "io_frame a (b\<lparr>va_xmit_pending := x\<rparr>) = io_frame a b"
  "io_frame a (b\<lparr>va_rbuf := r\<rparr>) = io_frame a b" "io_frame a (b\<lparr>va_attr_ptr := p\<rparr>) = io_frame a b"
  "io_frame a (b\<lparr>va_attr_base := p\<rparr>) = io_frame a b"
  "io_frame a (set_ring q rg b) = io_frame a b"
  by (simp_all add: io_frame_def set_ring_def)

subsection \<open>TLS calls\<close>

lemma set_wev_keeps [simp]: "si_ssl (set_wev act e i) = si_ssl i" "si_sk (set_wev act e i) = si_sk i"
  by (cases act; simp)+

text \<open>What one attempt gives back; \<open>n\<close> bounds a positive result.\<close>

definition ssl_post :: "ssl_info \<Rightarrow> (int \<Rightarrow> 'b \<Rightarrow> bool) \<Rightarrow> ('b, 'w) ssl_res \<Rightarrow> bool" where
  "ssl_post i P = (\<lambda>(ret, b, en, i', w'). si_ssl i' = si_ssl i \<and> si_sk i' = si_sk i \<and> P ret b)"

lemma ssl_action_direct_ok:
  assumes "si_ssl i" and "\<And>w. P (fst (f w)) (fst (snd (f w)))"
    and "\<And>b. P SSL_OPS_FAIL b" "\<And>b. P SSL_OPS_SELECT b"
  shows "out_ok h (ssl_post i P) (ssl_action_direct os act f succ i w)"
  using assms(1,3,4) assms(2) [of w]
  by (auto simp: ssl_action_direct_def Let_def ssl_post_def do_ssl_update_wait_event_def split: prod.splits)

lemma ssl_simple_tv_ok:
  assumes "ssl_simple_tv os d succ tv i w = Some r"
    and "\<forall>i w. si_ssl i \<longrightarrow> out_ok True (ssl_post i P) (d i w)" and "si_ssl i"
  shows "out_ok True (ssl_post i P) r"
proof -
  have "(\<forall>i w. si_ssl i \<longrightarrow> out_ok True (ssl_post i P) (d i w)) \<longrightarrow> si_ssl i \<longrightarrow>
      out_ok True (ssl_post i P) r"
    using assms(1)
  proof (rule ssl_simple_tv.raw_induct [rotated], goal_cases)
    case (1 rec os d succ tv i w r)
    show ?case
    proof (intro impI)
      assume ds: "\<forall>i w. si_ssl i \<longrightarrow> out_ok True (ssl_post i P) (d i w)" and i: "si_ssl i"
      then have d: "out_ok True (ssl_post i P) (d i w)" by blast
      show "out_ok True (ssl_post i P) r"
      proof (cases "d i w")
        case (Ok x)
        then obtain ret b en i' w' where x: "d i w = Ok (ret, b, en, i', w')" by (cases x) auto
        with d i have i': "si_ssl i'" "si_sk i' = si_sk i" "\<And>w''. ssl_post i P (ret, b, en, i', w'')"
          by (auto simp: ssl_post_def)
        have "out_ok True (ssl_post i P) r" if "rec os d succ tv' i' w'' = Some r" for tv' w''
          using 1(1) [OF that] ds i i'(1,2) by (simp add: ssl_post_def)
        with 1(2) i'(3) show ?thesis unfolding x by (auto split: if_splits prod.splits)
      qed (use 1(2) d in auto)
    qed
  qed
  with assms(2,3) show ?thesis by blast
qed

lemma ssl_action_simple_ok:
  assumes "\<forall>i w. si_ssl i \<longrightarrow> out_ok True (ssl_post i P) (d i w)" and "si_ssl i"
  shows "out_ok True (ssl_post i P) (ssl_action_simple os d succ to_ms i w)"
  using ssl_simple_tv_ok [OF _ assms] by (auto simp: ssl_action_simple_def split: option.splits)

lemma ssl_send_simple_ok:
  assumes "si_ssl i"
  shows "out_ok True (ssl_post i (\<lambda>_ _. True)) (ssl_send_simple os buf to_ms i w)"
  unfolding ssl_send_simple_def ssl_send_direct_def
  by (rule ssl_action_simple_ok [OF _ assms]) (blast intro: ssl_action_direct_ok)

lemma ssl_connect_simple_ok:
  assumes "si_ssl i"
  shows "out_ok True (ssl_post i (\<lambda>_ _. True)) (ssl_connect_simple os to_ms i w)"
  unfolding ssl_connect_simple_def ssl_connect_direct_def
  by (rule ssl_action_simple_ok [OF _ assms]) (blast intro: ssl_action_direct_ok)

lemma ssl_recv_direct_ok:
  assumes "si_ssl i"
  shows "out_ok h (ssl_post i (\<lambda>_ _. True)) (ssl_recv_direct os n i w)"
  unfolding ssl_recv_direct_def by (rule ssl_action_direct_ok [OF assms]) simp_all

lemma ssl_recv_simple_ok:
  assumes "si_ssl i"
  shows "out_ok True (ssl_post i (\<lambda>_ _. True)) (ssl_recv_simple os n to_ms i w)"
  unfolding ssl_recv_simple_def
  by (rule ssl_action_simple_ok [OF _ assms]) (blast intro: ssl_recv_direct_ok)

subsection \<open>Sending and ring updates\<close>

lemma vc_check_send_ok:
  assumes "sess tls a" "0 \<le> va_sk a" "stk_ok a"
  shows "out_ok tls (\<lambda>(r, a'). io_frame a a') (vc_check_send os pkt a)"
proof (cases "va_ssl a")
  case None
  then show ?thesis by (auto simp: vc_check_send_def io_frame_def split: prod.splits)
next
  case (Some i)
  with assms have i: "si_ssl i" "tls" by (auto simp: sess_def)
  have fr: "io_frame a (a\<lparr>va_ssl := Some i', va_w := w'\<rparr>)" if "si_ssl i' = si_ssl i" "si_sk i' = si_sk i" for i' w'
    using Some that by (simp add: io_frame_def same_ssl_def)
  show ?thesis
    using ssl_send_simple_ok [OF i(1), of os pkt 1000 "va_w a"] Some i fr assms(3)
    by (cases "ssl_send_simple os pkt 1000 i (va_w a)")
      (auto simp: vc_check_send_def ssl_post_def Let_def stk_log_ok io_frame_inv)
qed

lemma vc_buf_update_frame: "io_frame a (snd (vc_buf_update os b a))"
  by (auto simp: vc_buf_update_def Let_def split: prod.splits)

lemma vc_buf_clear_frame: "io_frame a (vc_buf_clear os fl a)"
proof -
  have u: "io_frame a (snd (vc_buf_update os b x))" if "io_frame a x" for b x
    using io_frame_trans [OF that vc_buf_update_frame] .
  show ?thesis by (auto simp: vc_buf_clear_def Let_def intro!: u split: prod.splits)
qed

lemma out_ok_bindI:
  "out_ok h P r \<Longrightarrow> (\<And>x. P x \<Longrightarrow> out_ok h Q (f x)) \<Longrightarrow> out_ok h Q (out_bind r f)"
  by (rule out_ok_bind)

lemma send_step_ok:
  assumes "vc_mid tls a" "1 \<le> va_top a"
  shows "out_ok tls (\<lambda>(r, a'). io_frame a a') (send_step os p a)"
proof -
  have "out_ok tls (\<lambda>(r, a'). io_frame a a') (vc_check_send os pkt a)" for pkt
    using assms by (intro vc_check_send_ok) (auto simp: vc_mid_def)
  then show ?thesis
    by (auto simp: send_step_def split: prod.splits intro!: out_ok_bindI)
qed

lemma send_qfsize_eq: "send_qfsize os q a =
    send_step os (vc_pack_qfsize (os_uninit os 1024 (va_w a)) (va_tid a) q 1024) a"
  by (simp add: send_qfsize_def send_step_def)

lemma mid_frame: "vc_mid tls a \<Longrightarrow> io_frame a a' \<Longrightarrow> vc_mid tls a'"
  by (simp add: io_frame_inv)

lemma frame_top: "io_frame a a' \<Longrightarrow> va_top a' = va_top a" "io_frame a a' \<Longrightarrow> va_stk a' = va_stk a"
  by (simp_all add: io_frame_def)

lemma frame_lift:
  "out_ok h (\<lambda>(r, y). io_frame x y) c \<Longrightarrow> io_frame a x \<Longrightarrow> out_ok h (\<lambda>(r, y). io_frame a y) c"
  by (erule out_ok_mono) (auto intro: io_frame_trans)

text \<open>Two packets one after the other.\<close>

lemma two_steps_ok:
  assumes "vc_mid tls a" "1 \<le> va_top a"
  shows "out_ok tls (\<lambda>(r, a'). io_frame a a')
    (out_bind (send_step os p a) (\<lambda>(r, a1). if r \<noteq> 0 then Ok (- 1, a1) else send_step os (q a1) a1))"
proof (rule out_ok_bindI [OF send_step_ok [OF assms]])
  fix x :: "int \<times> 'a vc_attr"
  assume "case x of (r, a') \<Rightarrow> io_frame a a'"
  then obtain r a1 where x: "x = (r, a1)" and fr: "io_frame a a1" by (cases x) auto
  have "vc_mid tls a1" "1 \<le> va_top a1"
    using fr assms by (auto simp: io_frame_inv frame_top)
  from frame_lift [OF send_step_ok [OF this, of os "q a1"] fr] fr
  show "out_ok tls (\<lambda>(r, a'). io_frame a a')
      (case x of (r, a1) \<Rightarrow> if r \<noteq> 0 then Ok (- 1, a1) else send_step os (q a1) a1)"
    by (simp add: x)
qed

lemma sync_ms_ok:
  assumes "vc_mid tls a" "1 \<le> va_top a"
  shows "out_ok tls (\<lambda>(r, a'). io_frame a a') (sync_ms os ms a)"
  unfolding sync_ms_def Let_def by (rule two_steps_ok [OF assms])

lemma sync_event_ok:
  assumes "vc_mid tls a" "1 \<le> va_top a"
  shows "out_ok tls (\<lambda>(r, a'). io_frame a a') (sync_event os a)"
  unfolding sync_event_def Let_def by (rule two_steps_ok [OF assms])

subsection \<open>Initialising the current state\<close>

text \<open>A dispatcher that is right for stacks up to a height.\<close>

definition good_init :: "bool \<Rightarrow> int \<Rightarrow> 'w handler \<Rightarrow> bool" where
  "good_init tls m ini \<longleftrightarrow> (\<forall>a. vc_mid tls a \<longrightarrow> va_top a \<le> m \<longrightarrow> out_ok tls (vc_inv tls) (ini a))"

lemma good_initD: "good_init tls m ini \<Longrightarrow> vc_mid tls a \<Longrightarrow> va_top a \<le> m \<Longrightarrow> out_ok tls (vc_inv tls) (ini a)"
  by (simp add: good_init_def)

lemma good_init_mono: "good_init tls m ini \<Longrightarrow> k \<le> m \<Longrightarrow> good_init tls k ini"
  by (auto simp: good_init_def)

lemma excp_init_ok:
  assumes "good_init tls m ini" "0 \<le> m" "vc_mid tls a"
  shows "out_ok tls (vc_inv tls) (excp_init os ini a)"
  using good_initD [OF assms(1) stk_excp_mid [OF assms(3)]] assms(2,3)
  by (simp add: excp_init_def excp_msg_ok vc_mid_def)

lemma drop_session_ok:
  assumes "sess tls a"
  shows "out_ok h (\<lambda>a'. va_stk a' = va_stk a \<and> va_top a' = va_top a \<and> sess tls a' \<and> va_sk a' < 0)
    (drop_session os a)"
  using assms by (auto simp: drop_session_def sess_def Let_def split: option.splits)

lemma netdown_init_ok:
  assumes "vc_mid tls a" "va_top a = 0"
  shows "out_ok h (vc_inv tls) (vc_netdown_init os a)"
proof -
  have "sess tls a" using assms by (simp add: vc_mid_def)
  from drop_session_ok [OF this, of h os] show ?thesis
    unfolding vc_netdown_init_def
    by (rule out_ok_bindI) (use assms in \<open>auto simp: vc_inv_def vc_mid_def sess_def stk_ok_def\<close>)
qed

lemma update_both_frame: "io_frame a (update_both os a)"
  unfolding update_both_def using vc_buf_update_frame io_frame_trans by blast

lemma mid_inv1: "vc_mid tls a \<Longrightarrow> va_top a = 1 \<Longrightarrow> vc_inv tls a"
  by (simp add: vc_mid_def vc_inv_def)

lemma netup_init_ok:
  assumes "vc_mid tls a" "va_top a = 1"
  shows "out_ok h (vc_inv tls) (vc_netup_init os a)" "out_ok h (vc_inv tls) (vc_pause_init os a)"
  using mid_inv1 [OF assms] io_frame_inv(4) [OF update_both_frame [of a os]]
  by (simp_all add: vc_netup_init_def vc_pause_init_def)

lemma stk_pop_mid:
  assumes "vc_mid tls a" "va_top a = 2"
  shows "vc_mid tls (stk_pop a)" "va_top (stk_pop a) = 1"
  using assms by (auto simp: vc_mid_def stk_pop_def stk_empty_def stk_ok_def sess_def)

lemma sync_init_ok:
  assumes "good_init tls 1 ini" "vc_mid tls a" "va_top a = 2"
  shows "out_ok tls (vc_inv tls) (vc_sync_init os ini a)"
proof -
  have ex: "out_ok tls (vc_inv tls) (excp_init os ini x)" if "io_frame a x" for x
    using excp_init_ok [OF assms(1) _ mid_frame [OF assms(2) that]] by simp
  have md: "vc_mid tls x" "va_top x = 2" if "io_frame a x" for x
    using mid_frame [OF assms(2) that] that assms(3) by (auto simp: frame_top)
  have st: "out_ok tls (\<lambda>(r, x'). io_frame a x') (sync_event os x)"
    "out_ok tls (\<lambda>(r, x'). io_frame a x') (sync_queue os x)" if "io_frame a x" for x
    using md [OF that]
    by (auto simp: sync_queue_def send_qfsize_eq intro!: frame_lift [OF _ that] send_step_ok sync_event_ok)
  have pop: "out_ok tls (vc_inv tls) (ini (stk_pop x))" if "io_frame a x" for x
    using good_initD [OF assms(1) stk_pop_mid(1) [OF md [OF that]]] stk_pop_mid(2) [OF md [OF that]] by simp
  show ?thesis
    unfolding vc_sync_init_def Let_def
    using sync_ms_ok [OF assms(2), of os "ai_ms (attr_p os a)"] assms(3)
    by (auto intro!: out_ok_bindI [where P = "\<lambda>(r, x). io_frame a x"] ex st pop)
qed

lemma sync_recv_ok:
  assumes "good_init tls 1 ini" "vc_mid tls a" "va_top a = 2"
  shows "out_ok tls (vc_inv tls) (vc_sync_recv os ini buf len a)"
proof -
  have ex: "out_ok tls (vc_inv tls) (excp_init os ini x)" if "io_frame a x" for x
    using excp_init_ok [OF assms(1) _ mid_frame [OF assms(2) that]] by simp
  have pop: "out_ok tls (vc_inv tls) (ini (stk_pop x))" if "io_frame a x" for x
  proof -
    have md: "vc_mid tls x" "va_top x = 2"
      using mid_frame [OF assms(2) that] that assms(3) by (auto simp: frame_top)
    show ?thesis using good_initD [OF assms(1) stk_pop_mid(1) [OF md]] stk_pop_mid(2) [OF md] by simp
  qed
  have st: "out_ok tls (\<lambda>(r, x'). io_frame a x') (sync_event os a)"
    "out_ok tls (\<lambda>(r, x'). io_frame a x') (reg_sync_event os a)"
    using assms by (auto simp: reg_sync_event_def intro!: sync_event_ok send_step_ok)
  show ?thesis
    unfolding vc_sync_recv_def Let_def
    by (auto intro!: out_ok_bindI [where P = "\<lambda>(r, x). io_frame a x"] ex st pop split: prod.splits)
qed

text \<open>Sending with an exception on failure, the pattern of the remaining handlers.\<close>

lemma send_or_excp_ok:
  assumes "good_init tls m ini" "0 \<le> m" "vc_mid tls a" "1 \<le> va_top a"
    and "\<And>x. io_frame a x \<Longrightarrow> out_ok tls (vc_inv tls) (k x)"
  shows "out_ok tls (vc_inv tls)
    (out_bind (vc_check_send os pkt a) (\<lambda>(r, a1). if r \<noteq> 0 then excp_init os ini a1 else k a1))"
proof -
  have "out_ok tls (\<lambda>(r, a'). io_frame a a') (vc_check_send os pkt a)"
    using assms(3,4) by (intro vc_check_send_ok) (auto simp: vc_mid_def)
  then show ?thesis
    by (rule out_ok_bindI) (auto intro!: assms(5) excp_init_ok [OF assms(1,2)] mid_frame [OF assms(3)])
qed

lemma idle_init_ok:
  assumes "good_init tls 1 ini" "vc_mid tls a" "va_top a = 2" "va_stk a ! 2 = Some IDLE"
  shows "out_ok tls (vc_inv tls) (vc_idle_init os ini a)"
proof -
  have "vc_inv tls a" using assms by (auto simp: vc_inv_def vc_mid_def)
  then have "vc_inv tls (tid_inc x)" if "io_frame a x" for x
    using that io_frame_inv(4) [of a "tid_inc x"] by simp
  then show ?thesis
    unfolding vc_idle_init_def
    using assms by (auto split: prod.splits intro!: excp_init_ok send_or_excp_ok)
qed

lemma call_init_low: "good_init tls 1 (call_init (Suc n) os)"
  unfolding good_init_def
proof (intro allI impI)
  fix a :: "'a vc_attr" assume a: "vc_mid tls a" "va_top a \<le> 1"
  then have "stk_ok a" "va_top a = 0 \<or> va_top a = 1" by (auto simp: vc_mid_def stk_ok_def)
  then show "out_ok tls (vc_inv tls) (call_init (Suc n) os a)"
    using a by (elim stk_curnt_ok) (auto simp: netdown_init_ok netup_init_ok)
qed

lemma call_init_ok: "good_init tls 2 (call_init (Suc (Suc n)) os)"
  unfolding good_init_def
proof (intro allI impI)
  fix a :: "'a vc_attr" assume a: "vc_mid tls a" "va_top a \<le> 2"
  have ok: "stk_ok a" using a by (simp add: vc_mid_def)
  show "out_ok tls (vc_inv tls) (call_init (Suc (Suc n)) os a)"
  proof (cases "va_top a \<le> 1")
    case True
    then show ?thesis by (rule good_initD [OF call_init_low a(1)])
  next
    case False
    then have top: "va_top a = 2" using a by simp
    from ok obtain s where s: "stk_curnt a = Ok s" "s \<in> {SYNC, IDLE}"
      using top by (elim stk_curnt_ok) auto
    moreover have "s = IDLE \<Longrightarrow> va_stk a ! 2 = Some IDLE"
      using s top by (auto simp: stk_curnt_def stk_empty_def split: option.splits)
    ultimately show ?thesis
      using sync_init_ok [OF call_init_low a(1) top] idle_init_ok [OF call_init_low a(1) top]
      by auto
  qed
qed

lemma vc_init_ok: "good_init tls 2 (vc_init os)"
  using call_init_ok [of tls 10 os] by (simp add: vc_init_def FUEL_def eval_nat_numeral)

lemma vc_init_inv: "vc_mid tls a \<Longrightarrow> out_ok tls (vc_inv tls) (vc_init os a)"
  by (rule good_initD [OF vc_init_ok]) (simp_all add: vc_mid_def stk_ok_def)

subsection \<open>The common handlers\<close>

lemma stk_push_mid:
  assumes "vc_mid tls a" "va_top a = 1" "s \<in> {SYNC, IDLE}"
  shows "vc_mid tls (stk_push a s)" "va_top (stk_push a s) = 2" "va_stk (stk_push a s) ! 2 = Some s"
  using assms by (auto simp: vc_mid_def stk_push_def stk_full_def stk_ok_def sess_def STACK_MAX_def)

lemma inv_frame: "vc_inv tls a \<Longrightarrow> io_frame a a' \<Longrightarrow> vc_inv tls a'"
  by (simp add: io_frame_inv)

lemma ret_curnt_inv: "vc_inv tls a \<Longrightarrow> out_ok h (vc_inv tls) (ret_curnt a)"
  by (simp add: ret_curnt_ok vc_inv_def)

lemma common_open_ok:
  assumes "vc_mid tls a" "va_top a = 1"
  shows "out_ok tls (vc_inv tls) (vc_common_open os (vc_init os) a)"
proof -
  have "out_ok tls (vc_inv tls) (vc_init os (stk_push (update_eki f (tid_inc x)) SYNC))"
    if "io_frame a x" for x f
  proof -
    have "io_frame a (update_eki f (tid_inc x))" using that by simp
    from mid_frame [OF assms(1) this] frame_top(1) [OF this] assms(2)
    have "vc_mid tls (stk_push (update_eki f (tid_inc x)) SYNC)"
      by (intro stk_push_mid) auto
    then show ?thesis by (rule vc_init_inv)
  qed
  then show ?thesis
    unfolding vc_common_open_def
    using assms by (auto split: prod.splits intro!: send_or_excp_ok [OF vc_init_ok] excp_init_ok [OF vc_init_ok])
qed

lemma common_xmit_ok:
  assumes "vc_inv tls a" "1 \<le> va_top a"
  shows "out_ok tls (vc_inv tls) (vc_common_xmit os (vc_init os) a)"
proof -
  have "out_ok tls (vc_inv tls) (ret_curnt (tid_inc (x\<lparr>va_xmit_pending := l\<rparr>)))" if "io_frame a x" for x l
    using that by (intro ret_curnt_inv inv_frame [OF assms(1)]) simp
  then show ?thesis
    unfolding vc_common_xmit_def Let_def
    using assms vc_inv_mid [OF assms(1)]
    by (auto split: prod.splits intro!: send_or_excp_ok [OF vc_init_ok] excp_init_ok [OF vc_init_ok])
qed

lemma set_ms_loop_tid:
  "set_ms_loop step e u n pbuf plen a = (l, p, a') \<Longrightarrow> a'\<lparr>va_tid := 0\<rparr> = a\<lparr>va_tid := 0\<rparr>"
proof (induction step e u n pbuf plen a arbitrary: l p a' rule: set_ms_loop.induct)
  case (1 step e u n pbuf plen a)
  obtain len packet where pk: "ms_packet step e u (drop (nat plen) pbuf) (va_tid a) (n - plen) = (len, packet)"
    by fastforce
  have "(tid_inc a)\<lparr>va_tid := 0\<rparr> = a\<lparr>va_tid := 0\<rparr>" by (simp add: tid_inc_def)
  moreover note 1(1,2) [OF _ pk [symmetric] refl]
  ultimately show ?case
    using 1(3) by (subst (asm) set_ms_loop.simps) (simp add: pk Let_def split: if_splits)
qed

lemma set_ms_loop_frame:
  assumes "set_ms_loop step e u n pbuf plen a = (l, p, a')"
  shows "io_frame a a'"
proof -
  have "io_frame x y = io_frame (x\<lparr>va_tid := 0\<rparr>) (y\<lparr>va_tid := 0\<rparr>)" for x y :: "'a vc_attr"
    by (simp add: io_frame_def)
  with set_ms_loop_tid [OF assms] show ?thesis by (metis io_frame_refl)
qed

lemma ioctl_pack_frame: "ioctl_pack os pbuf a = (plen, p, a') \<Longrightarrow> io_frame a a'"
  by (auto simp: ioctl_pack_def Let_def set_ms_def split: if_splits prod.splits
      dest!: set_ms_loop_frame)

lemma ioctl_loop_ok:
  assumes "vc_inv tls a" "1 \<le> va_top a"
  shows "out_ok tls (vc_inv tls) (ioctl_loop os (vc_init os) n pbuf a)"
  using assms
proof (induction n arbitrary: pbuf a)
  case 0
  then show ?case by (simp add: ret_curnt_inv)
next
  case (Suc n)
  obtain plen p a1 where pk: "ioctl_pack os pbuf a = (plen, p, a1)" by (metis prod_cases3)
  note fr = ioctl_pack_frame [OF pk]
  have a1: "vc_inv tls a1" "1 \<le> va_top a1"
    using inv_frame [OF Suc.prems(1) fr] frame_top(1) [OF fr] Suc.prems(2) by auto
  have "out_ok tls (vc_inv tls) (ioctl_loop os (vc_init os) n p (tid_inc x))" if "io_frame a1 x" for x
    using that frame_top(1) [OF that] a1 by (intro Suc.IH inv_frame [OF a1(1)]) auto
  then show ?case
    using a1 vc_inv_mid [OF a1(1)]
    by (auto simp: pk intro!: ret_curnt_inv send_or_excp_ok [OF vc_init_ok])
qed

lemma common_ioctl_ok:
  "vc_inv tls a \<Longrightarrow> 1 \<le> va_top a \<Longrightarrow> out_ok tls (vc_inv tls) (vc_common_ioctl os (vc_init os) a)"
  unfolding vc_common_ioctl_def by (rule ioctl_loop_ok)

lemma common_recv_ok:
  assumes "vc_inv tls a" "va_top a = 1"
    and rcv: "\<And>x. vc_mid tls x \<Longrightarrow> va_top x = 2 \<Longrightarrow> va_stk x ! 2 = Some SYNC \<Longrightarrow>
      out_ok tls (vc_inv tls) (rcv buf len x)"
  shows "out_ok tls (vc_inv tls) (vc_common_recv os (vc_init os) rcv buf len a)"
proof -
  have ex: "out_ok tls (vc_inv tls) (excp_init os (vc_init os) x)" if "vc_inv tls x" for x
    by (rule excp_init_ok [OF vc_init_ok]) (simp_all add: vc_inv_mid [OF that])
  have upd: "vc_inv tls (snd (vc_buf_update os b x))" if "vc_inv tls x" for b x
    using inv_frame [OF that vc_buf_update_frame] .
  have a: "vc_inv tls (a\<lparr>va_w := w\<rparr>)" "vc_inv tls (a\<lparr>va_xmit_pending := 0\<rparr>)"
    "vc_inv tls (a\<lparr>va_xmit_pending := 0, va_w := w\<rparr>)" for w
    using assms(1) by (auto intro: inv_frame)
  have rd: "vc_inv tls (recv_data os buf n a)" for n
    using inv_frame [OF assms(1), of "recv_data os buf n a"]
    by (simp add: recv_data_def Let_def split: prod.splits)
  have sy: "out_ok tls (\<lambda>(r, x). vc_inv tls x) (check_ioctl_ret rcv buf len a)"
    using rcv [OF stk_push_mid [OF vc_inv_mid [OF assms(1)] assms(2), of SYNC]] assms(1)
    by (auto simp: check_ioctl_ret_def Let_def intro!: out_ok_bindI)
  have ck: "out_ok tls (\<lambda>(r, x). vc_inv tls x) (vc_check_ioctl buf len (Some (check_ioctl_ret rcv)) a)"
    using sy assms(1) by (auto simp: vc_check_ioctl_def)
  show ?thesis
    unfolding vc_common_recv_def Let_def
    using assms(1)
    by (auto split: option.splits prod.splits intro!: ex ret_curnt_inv rd a upd out_ok_bindI [OF ck])
qed

lemma common_purge_ok:
  assumes "vc_mid tls a" "1 \<le> va_top a"
  shows "out_ok tls (io_frame a) (vc_common_purge os fl a)"
proof -
  have "out_ok tls (\<lambda>(r, a'). io_frame a a') (vc_check_send os pkt a)" for pkt
    using assms by (intro vc_check_send_ok) (auto simp: vc_mid_def)
  then show ?thesis
    by (auto simp: vc_common_purge_def split: prod.splits intro!: out_ok_bindI)
qed

lemma restart_mid: "vc_mid tls a \<Longrightarrow> vc_mid tls (stk_restart a)"
  by (simp add: vc_mid_def stk_restart_def stk_bot_def stk_ok_def sess_def)

lemma common_close_ok:
  assumes "vc_mid tls a" "1 \<le> va_top a"
  shows "out_ok tls (vc_inv tls) (vc_common_close os (vc_init os) a)"
proof -
  define a0 where "a0 = update_eki (\<lambda>e. e\<lparr>ai_is_open := 0, ai_stop := ADV_STOP_UNDEF,
    ai_flowctl := ADV_FLOW_UNDEF, ai_pair := ADV_PAIR_UNDEF\<rparr>) a"
  have a0: "vc_mid tls a0" "1 \<le> va_top a0"
    using mid_frame [OF assms(1), of a0] assms(2) by (simp_all add: a0_def)
  have "out_ok tls (vc_inv tls) (vc_init os (stk_restart (tid_inc x)))" if "io_frame a0 x" for x
    using that by (intro vc_init_inv restart_mid mid_frame [OF a0(1)]) simp
  then show ?thesis
    unfolding vc_common_close_def Let_def a0_def [symmetric]
    using a0 by (auto split: prod.splits intro!: send_or_excp_ok [OF vc_init_ok] excp_init_ok [OF vc_init_ok])
qed

text \<open>Closing from any connected state.\<close>

lemma up_close_ok:
  assumes "vc_mid tls a" "1 \<le> va_top a"
  shows "out_ok tls (vc_inv tls) (out_bind (vc_common_purge os fl (vc_buf_clear os c a))
    (vc_common_close os (vc_init os)))"
proof -
  let ?a = "vc_buf_clear os c a"
  have b: "vc_mid tls ?a" "1 \<le> va_top ?a"
    using mid_frame [OF assms(1) vc_buf_clear_frame] frame_top(1) [OF vc_buf_clear_frame [of a os c]]
      assms(2) by auto
  show ?thesis
  proof (rule out_ok_bindI [OF common_purge_ok [OF b]])
    fix x assume "io_frame ?a x"
    from mid_frame [OF b(1) this] frame_top(1) [OF this] b(2)
    show "out_ok tls (vc_inv tls) (vc_common_close os (vc_init os) x)"
      by (intro common_close_ok) auto
  qed
qed

subsection \<open>Connecting\<close>

lemma scan_clients_ok:
  assumes "stk_ok a"
  shows "\<exists>cl' sk' a'. scan_clients os ready cl sk a = Ok (cl', sk', a') \<and> io_frame a a' \<and>
    length cl' \<le> length cl \<and> (set ready \<inter> set cl \<noteq> {} \<longrightarrow> length cl' < length cl)"
  using assms
proof (induction cl arbitrary: a)
  case Nil
  then show ?case by simp
next
  case (Cons c cl)
  show ?case
  proof (cases "FD_ISSET c ready")
    case False
    from Cons.IH [OF Cons.prems] obtain cl' sk' a' where
      "scan_clients os ready cl sk a = Ok (cl', sk', a')" "io_frame a a'" "length cl' \<le> length cl"
      "set ready \<inter> set cl \<noteq> {} \<longrightarrow> length cl' < length cl" by blast
    with False show ?thesis by (auto simp: FD_ISSET_def)
  next
    case True
    obtain e w1 where e: "sock_err os c (va_w a) = (e, w1)" by fastforce
    let ?a = "a\<lparr>va_w := os_close os c w1\<rparr>"
    have ok: "stk_ok ?a" using Cons.prems by simp
    from Cons.IH [OF ok] obtain cl' sk' a' where
      "scan_clients os ready cl sk ?a = Ok (cl', sk', a')" "io_frame ?a a'" "length cl' \<le> length cl"
      by blast
    moreover from this have "io_frame a a'" by (simp add: io_frame_def)
    ultimately show ?thesis
      using True e stk_log_ok [OF ok] by (cases "e = 0") auto
  qed
qed

lemma foldl_FD_SET: "set (foldl (\<lambda>s c. FD_SET c s) s cl) \<subseteq> set s \<union> set cl"
proof (induction cl arbitrary: s)
  case (Cons c cl)
  have "set (FD_SET c s) \<subseteq> set s \<union> {c}" by (auto simp: FD_SET_def)
  with Cons [of "FD_SET c s"] show ?case by auto
qed simp

text \<open>Every round of the wait either ends it or gets rid of a waiting socket.\<close>

lemma connect_wait_ok:
  assumes "select_law os" "stk_ok a"
  shows "\<exists>cl' sk' a'. connect_wait os cl sk tv a = Some (Ok (cl', sk', a')) \<and> io_frame a a'"
  using assms(2)
proof (induction "length cl + (if sk \<ge> 0 then 0 else 1)" arbitrary: cl sk tv a rule: less_induct)
  case less
  show ?case
  proof (cases "sk \<ge> 0")
    case True
    then show ?thesis by (subst connect_wait.simps) simp
  next
    case neg: False
    let ?ws = "foldl (\<lambda>s c. FD_SET c s) [] cl"
    obtain s w1 where sel: "os_select os (sk_max cl + 1) [] ?ws [] tv (va_w a) = (s, w1)" by fastforce
    let ?a = "a\<lparr>va_w := w1\<rparr>"
    have ok: "stk_ok ?a" using less.prems by simp
    show ?thesis
    proof (cases "fs_ret s \<le> 0")
      case True
      with neg sel stk_log_ok [OF ok] show ?thesis
        by (subst connect_wait.simps) simp
    next
      case False
      have "set (fs_w s) \<subseteq> set ?ws" "fs_w s \<noteq> []"
        using assms(1) sel False unfolding select_law_def Let_def
        by (metis (no_types, lifting) fst_conv not_less set_empty subset_empty list.set(1))+
      moreover have "set ?ws \<subseteq> set cl" using foldl_FD_SET [of "[]" cl] by simp
      ultimately have "set (fs_w s) \<inter> set cl \<noteq> {}"
        by (metis inf.absorb_iff1 order_trans set_empty)
      with scan_clients_ok [OF ok, of os "fs_w s" cl sk] obtain cl' sk' a' where
        sc: "scan_clients os (fs_w s) cl sk ?a = Ok (cl', sk', a')" "io_frame ?a a'"
        "length cl' < length cl" by blast
      have "stk_ok a'" using io_frame_inv(1) [OF sc(2)] ok by simp
      moreover have "length cl' + (if sk' \<ge> 0 then 0 else 1) < length cl + (if sk \<ge> 0 then 0 else 1)"
        using sc(3) neg by simp
      ultimately obtain cl2 sk2 a2 where "connect_wait os cl' sk' (fs_tv s) a' = Some (Ok (cl2, sk2, a2))" "io_frame a' a2"
        using less.hyps [of cl' sk' a' "fs_tv s"] by blast
      moreover have "io_frame a a2"
        using io_frame_trans [OF sc(2) calculation(2)] by (simp add: io_frame_def)
      ultimately show ?thesis
        using neg False sel sc(1) by (subst connect_wait.simps) simp
    qed
  qed
qed

lemma vc_connect_ok:
  assumes "select_law os" "stk_ok a"
  shows "\<exists>r a'. vc_connect os a = Ok (r, a') \<and> io_frame a a'"
proof (cases "os_getifaddrs os (va_w a)")
  case (Pair res w0)
  show ?thesis
  proof (cases res)
    case None
    with Pair stk_log_ok [of "a\<lparr>va_w := w0\<rparr>"] assms(2) show ?thesis
      by (simp add: vc_connect_def)
  next
    case (Some ifas)
    obtain sk cl w1 where l: "if_loop os (va_ip_red a) (va_ip_ptr a) ifas
        (c_of_u32 (of_le32 (os_uninit os 4 (va_w a)))) [] w0 = (sk, cl, w1)" by (metis prod_cases3)
    have ok: "stk_ok (a\<lparr>va_w := w1\<rparr>)" using assms(2) by simp
    from connect_wait_ok [OF assms(1) ok, of cl sk "(CONN_TO, 0)"] obtain cl' sk' a' where
      "connect_wait os cl sk (CONN_TO, 0) (a\<lparr>va_w := w1\<rparr>) = Some (Ok (cl', sk', a'))"
      "io_frame (a\<lparr>va_w := w1\<rparr>) a'" by blast
    moreover from this(2) have "io_frame a a'" by (simp add: io_frame_def)
    ultimately show ?thesis
      using Pair Some l stk_log_ok [OF ok] by (cases "cl = []") (auto simp: vc_connect_def Let_def)
  qed
qed

subsection \<open>Open, close and receive\<close>

lemma netdown_up_mid:
  assumes "stk_ok a" "sess tls a" "va_top a = 0" "0 \<le> va_sk a" "s \<in> {NETUP, PAUSE}"
  shows "vc_mid tls (stk_push a s)" "va_top (stk_push a s) = 1"
  using assms by (auto simp: vc_mid_def stk_push_def stk_full_def stk_ok_def sess_def STACK_MAX_def)

lemma call_open_up:
  assumes "vc_mid tls a" "va_top a = 1"
  shows "out_ok tls (vc_inv tls) (call_open (Suc n) os a)"
proof -
  have "stk_ok a" using assms by (simp add: vc_mid_def)
  then show ?thesis using assms by (elim stk_curnt_ok) (auto simp: common_open_ok)
qed

text \<open>OpenSSL has the memory for a session object.\<close>

definition ssl_new_law :: "'w os \<Rightarrow> bool" where
  "ssl_new_law os \<longleftrightarrow> (\<forall>w. fst (os_SSL_new os w))"

lemma netdown_open_ok:
  assumes "select_law os" "vc_inv tls a" "va_top a = 0" and new: "tls \<longrightarrow> ssl_new_law os"
  shows "out_ok tls (vc_inv tls) (vc_netdown_open os (vc_init os) (call_open (Suc n) os) a)"
proof -
  have a: "stk_ok a" "sess tls a" using assms by (auto simp: vc_inv_def)
  from vc_connect_ok [OF assms(1) a(1)] obtain r a1 where c: "vc_connect os a = Ok (r, a1)" "io_frame a a1"
    by blast
  have a1: "stk_ok a1" "sess tls a1" "va_top a1 = 0" "vc_inv tls a1"
    using a io_frame_inv [OF c(2)] frame_top [OF c(2)] assms by auto
  have up: "out_ok tls (vc_inv tls) (netdown_up (call_open (Suc n) os) x)"
    if "stk_ok x" "sess tls x" "va_top x = 0" "0 \<le> va_sk x" for x
    unfolding netdown_up_def using netdown_up_mid [OF that]
    by (intro call_open_up) auto
  show ?thesis
  proof (cases "r < 0")
    case True
    have "vc_inv tls (vc_buf_clear os ADV_CLR_RX a1)" by (rule inv_frame [OF a1(4) vc_buf_clear_frame])
    moreover have "va_top (vc_buf_clear os ADV_CLR_RX a1) = 0"
      using frame_top(1) [OF vc_buf_clear_frame] a1(3) by metis
    ultimately show ?thesis using True c(1)
      by (auto simp: vc_netdown_open_def vc_inv_def sess_def)
  next
    case r: False
    show ?thesis
    proof (cases "va_ssl a1")
      case None
      then have "sess tls (a1\<lparr>va_sk := r\<rparr>)" using a1(2) by (simp add: sess_def)
      with r c(1) a1 None up [of "a1\<lparr>va_sk := r\<rparr>"] show ?thesis
        by (simp add: vc_netdown_open_def)
    next
      case (Some i)
      let ?i = "i\<lparr>si_sk := r, si_ssl := True\<rparr>"
      have tls: "tls" using a1(2) Some by (auto simp: sess_def)
      have mid: "vc_mid tls (a1\<lparr>va_sk := r, va_ssl := Some j, va_w := w\<rparr>)"
        "stk_ok (a1\<lparr>va_sk := r, va_ssl := Some j, va_w := w\<rparr>)"
        "sess tls (a1\<lparr>va_sk := r, va_ssl := Some j, va_w := w\<rparr>)" if "si_ssl j" for j w
        using a1 tls that r by (auto simp: vc_mid_def sess_def stk_ok_def)
      obtain w1 where w1: "os_SSL_new os (va_w a1) = (True, w1)"
        using new tls unfolding ssl_new_law_def by (metis prod.collapse)
      obtain q w2 where q: "os_SSL_set_fd os r w1 = (q, w2)" by fastforce
      obtain z w3 where z: "set_nonblock os r w2 = (z, w3)" by fastforce
      have cs: "out_ok tls (ssl_post ?i (\<lambda>_ _. True)) (ssl_connect_simple os 1000 ?i w3)"
        using ssl_connect_simple_ok [of ?i os 1000 w3] tls by simp
      have "out_ok tls (vc_inv tls) (out_bind (stk_log x) (vc_init os))" if "vc_mid tls x" for x
        using stk_log_ok [of x] vc_init_inv [OF that] that by (simp add: vc_mid_def)
      then have "out_ok tls (vc_inv tls) (out_bind (ssl_connect_simple os 1000 ?i w3) (\<lambda>(c, _, _, i2, w4).
          let a3 = a1\<lparr>va_sk := r, va_ssl := Some i2, va_w := w4\<rparr> in
          if c \<noteq> 1 then out_bind (stk_log a3) (vc_init os) else netdown_up (call_open (Suc n) os) a3))"
        using r a1(3) mid
        by (intro out_ok_bindI [OF cs]) (auto simp: ssl_post_def Let_def intro!: up)
      then show ?thesis
        using r c(1) Some w1 q z vc_init_inv [OF mid(1) [of ?i w2]]
        by (auto simp: vc_netdown_open_def Let_def)
    qed
  qed
qed

lemma call_open_ok:
  assumes "select_law os" "vc_inv tls a" and "tls \<longrightarrow> ssl_new_law os"
  shows "out_ok tls (vc_inv tls) (call_open (Suc (Suc n)) os a)"
proof -
  have ok: "stk_ok a" and mid: "vc_mid tls a" using assms(2) vc_inv_mid by (auto simp: vc_inv_def)
  have "va_top a = 0 \<or> va_top a = 1 \<or> va_top a = 2" using ok unfolding stk_ok_def by linarith
  then show ?thesis
  proof (elim disjE)
    assume "va_top a = 0"
    with ok netdown_open_ok [OF assms(1,2) _ assms(3)] show ?thesis
      by (elim stk_curnt_ok) simp
  next
    assume "va_top a = 1"
    with call_open_up [OF mid] show ?thesis by simp
  next
    assume top: "va_top a = 2"
    then have "stk_curnt a = Ok IDLE"
      using assms(2) by (simp add: vc_inv_def stk_curnt_def stk_empty_def)
    with call_open_up [OF stk_pop_mid [OF mid top]] show ?thesis
      by (simp add: vc_idle_open_def)
  qed
qed

lemma vc_open_ok:
  assumes "select_law os" "vc_inv tls a" and "tls \<longrightarrow> ssl_new_law os"
  shows "out_ok tls (vc_inv tls) (vc_open os a)"
  using call_open_ok [OF assms, of 10] by (simp add: vc_open_def FUEL_def eval_nat_numeral)

lemma netdown_close_ok:
  assumes "vc_inv tls a" "va_top a = 0"
  shows "out_ok tls (vc_inv tls) (vc_netdown_close os a)"
proof -
  let ?a = "vc_buf_clear os (ADV_CLR_RX OR ADV_CLR_TX) a"
  have b: "vc_inv tls ?a" "va_top ?a = 0"
    using inv_frame [OF assms(1) vc_buf_clear_frame] frame_top(1) [OF vc_buf_clear_frame] assms(2) by metis+
  then have "sess tls ?a" by (simp add: vc_inv_def)
  from drop_session_ok [OF this] show ?thesis
    unfolding vc_netdown_close_def
    by (rule out_ok_mono) (use b in \<open>auto simp: vc_inv_def stk_ok_def\<close>)
qed

lemma vc_close_ok:
  assumes "vc_inv tls a"
  shows "out_ok tls (vc_inv tls) (vc_close os a)"
proof -
  have ok: "stk_ok a" using assms by (simp add: vc_inv_def)
  have cur: "stk_curnt a = Ok s \<Longrightarrow> va_top a = 2 \<Longrightarrow> s = IDLE" for s
    using assms by (auto simp: vc_inv_def stk_curnt_def stk_empty_def)
  have "va_top a = 0 \<or> va_top a = 1 \<or> va_top a = 2" using ok unfolding stk_ok_def by linarith
  then show ?thesis
    using ok netdown_close_ok [OF assms] up_close_ok [OF vc_inv_mid [OF assms]] cur
    unfolding vc_close_def
    by (elim stk_curnt_ok disjE)
      (auto simp: vc_netup_close_def vc_pause_close_def vc_idle_close_def)
qed

lemma call_recv_up:
  assumes "vc_inv tls a" "va_top a = 1"
  shows "out_ok tls (vc_inv tls) (call_recv (Suc (Suc n)) os buf len a)"
proof -
  have sy: "out_ok tls (vc_inv tls) (call_recv (Suc n) os buf len x)"
    if "vc_mid tls x" "va_top x = 2" "va_stk x ! 2 = Some SYNC" for x
  proof -
    have "stk_curnt x = Ok SYNC" using that by (simp add: stk_curnt_def stk_empty_def)
    with sync_recv_ok [OF good_init_mono [OF vc_init_ok] that(1,2)] show ?thesis by simp
  qed
  have "stk_ok a" using assms by (simp add: vc_inv_def)
  with common_recv_ok [OF assms, of "call_recv (Suc n) os" buf len os] sy show ?thesis
    using assms(2) by (elim stk_curnt_ok) auto
qed

lemma call_recv_ok:
  assumes "vc_inv tls a" "va_top a \<noteq> 0"
  shows "out_ok tls (vc_inv tls) (call_recv (Suc (Suc (Suc n))) os buf len a)"
proof -
  have ok: "stk_ok a" using assms by (simp add: vc_inv_def)
  have "va_top a = 1 \<or> va_top a = 2" using ok assms(2) unfolding stk_ok_def by linarith
  then show ?thesis
  proof (elim disjE)
    assume "va_top a = 1"
    with call_recv_up [OF assms(1)] show ?thesis by blast
  next
    assume top: "va_top a = 2"
    then have cur: "stk_curnt a = Ok IDLE"
      using assms(1) by (simp add: vc_inv_def stk_curnt_def stk_empty_def)
    have p: "vc_mid tls (stk_pop a)" "va_top (stk_pop a) = 1"
      using stk_pop_mid [OF vc_inv_mid [OF assms(1)] top] by auto
    from call_recv_up [OF mid_inv1 [OF p] p(2)] cur show ?thesis
      by (simp add: vc_idle_recv_def)
  qed
qed

lemma vc_try_recv_ok:
  assumes "vc_inv tls a"
  shows "out_ok tls (vc_inv tls) (vc_try_recv os buf len a)"
proof -
  have ok: "stk_ok a" using assms by (simp add: vc_inv_def)
  show ?thesis
  proof (cases "va_top a = 0")
    case True
    with ok assms show ?thesis by (elim stk_curnt_ok) (simp add: vc_try_recv_def)
  next
    case False
    from call_recv_ok [OF assms False, of 9 os buf len]
    have "out_ok tls (vc_inv tls) (call_recv FUEL os buf len a)"
      by (simp add: FUEL_def eval_nat_numeral)
    with ok assms show ?thesis by (elim stk_curnt_ok) (simp add: vc_try_recv_def)
  qed
qed

subsection \<open>The main loop\<close>

lemma vc_excp_inv: "vc_mid tls a \<Longrightarrow> out_ok tls (vc_inv tls) (excp_init os (vc_init os) a)"
  by (rule excp_init_ok [OF vc_init_ok]) simp_all

lemma inv_cases [consumes 1, case_names down up idle]:
  assumes "vc_inv tls a"
  obtains "va_top a = 0" "stk_curnt a = Ok NETDOWN"
  | s where "va_top a = 1" "stk_curnt a = Ok s" "s \<in> {NETUP, PAUSE}"
  | "va_top a = 2" "stk_curnt a = Ok IDLE"
proof -
  have ok: "stk_ok a" using assms by (simp add: vc_inv_def)
  have "va_top a = 0 \<or> va_top a = 1 \<or> va_top a = 2" using ok unfolding stk_ok_def by linarith
  then show ?thesis
    using assms that by (auto simp: vc_inv_def stk_ok_def stk_curnt_def stk_empty_def)
qed

lemma stk_rpls_mid:
  assumes "vc_mid tls a" "va_top a = 1" "s \<in> {NETUP, PAUSE}"
  shows "vc_mid tls (stk_rpls a s)"
  using assms by (auto simp: vc_mid_def stk_rpls_def stk_ok_def sess_def STACK_MAX_def)

text \<open>Announcing room, then switching between Net Up and Pause.\<close>

lemma switch_ok:
  assumes "vc_inv tls a" "va_top a = 1" "s \<in> {NETUP, PAUSE}"
  shows "out_ok tls (vc_inv tls) (out_bind (send_qfsize os q a) (\<lambda>(r, a1).
    if bad r then excp_init os (vc_init os) a1 else vc_init os (stk_rpls a1 s)))"
proof -
  have "out_ok tls (\<lambda>(r, x). io_frame a x) (send_qfsize os q a)"
    unfolding send_qfsize_eq using assms vc_inv_mid by (intro send_step_ok) auto
  moreover have "out_ok tls (vc_inv tls) (excp_init os (vc_init os) x)"
    "out_ok tls (vc_inv tls) (vc_init os (stk_rpls x s))" if "io_frame a x" for x
    using mid_frame [OF vc_inv_mid [OF assms(1)] that] frame_top(1) [OF that] assms(2,3)
    by (auto intro!: vc_excp_inv vc_init_inv stk_rpls_mid)
  ultimately show ?thesis by (auto intro!: out_ok_bindI)
qed

lemma vc_try_ok:
  assumes "vc_inv tls a"
  shows "out_ok tls (vc_inv tls) (vc_try_ioctl os a)" "out_ok tls (vc_inv tls) (vc_try_xmit os a)"
    "out_ok tls (vc_inv tls) (vc_try_pause os a)" "out_ok tls (vc_inv tls) (vc_try_resume os a)"
    "out_ok h (\<lambda>_. True) (vc_try_event a rfds wfds)"
  using assms switch_ok [OF assms, of PAUSE os 0 "\<lambda>r. r < 0"] switch_ok [OF assms, of NETUP os 1024 "\<lambda>r. r \<noteq> 0"]
  by (cases rule: inv_cases;
      auto simp: vc_try_ioctl_def vc_try_xmit_def vc_try_pause_def vc_try_resume_def vc_try_event_def
        vc_netup_pause_def vc_pause_resume_def intro: common_ioctl_ok common_xmit_ok)+

lemma vc_try_poll_ok:
  assumes "vc_inv tls a"
  shows "out_ok tls (vc_inv tls) (vc_try_poll os a)"
proof -
  have "out_ok tls (vc_inv tls) (vc_init os (stk_push a IDLE))" if "va_top a = 1"
    using stk_push_mid(1) [OF vc_inv_mid [OF assms] that, of IDLE] by (auto intro: vc_init_inv)
  moreover have "out_ok tls (vc_inv tls) (excp_init os (vc_init os) (vc_buf_clear os ADV_CLR_RX a))"
    by (rule vc_excp_inv [OF mid_frame [OF vc_inv_mid [OF assms] vc_buf_clear_frame]])
  ultimately show ?thesis
    by (rule_tac inv_cases [OF assms])
      (auto simp: assms vc_try_poll_def vc_netup_poll_def vc_pause_poll_def vc_idle_poll_def)
qed

subsection \<open>Receiving a frame\<close>

lemma store_rbuf_frame [simp]: "io_frame a (store_rbuf off bs b) = io_frame a b"
  by (simp add: store_rbuf_def)

lemma stk_ok_store [simp]: "stk_ok (store_rbuf off bs a) = stk_ok a"
  by (simp add: store_rbuf_def)

lemma frame_recv_tcp_frame: "io_frame a (snd (vc_frame_recv_tcp os off n a))"
  by (auto simp: vc_frame_recv_tcp_def recv_second_chance_def Let_def split: prod.splits)

lemma frame_ssl_upd:
  "va_ssl a = Some i \<Longrightarrow> si_ssl j = si_ssl i \<Longrightarrow> si_sk j = si_sk i \<Longrightarrow>
    io_frame a (b\<lparr>va_ssl := Some j\<rparr>) \<longleftrightarrow>
      va_sk b = va_sk a \<and> va_top b = va_top a \<and> va_stk b = va_stk a"
  by (auto simp: io_frame_def same_ssl_def)

lemma store_rbuf_fields [simp]:
  "va_sk (store_rbuf off bs a) = va_sk a" "va_top (store_rbuf off bs a) = va_top a"
  "va_stk (store_rbuf off bs a) = va_stk a" "va_ssl (store_rbuf off bs a) = va_ssl a"
  by (simp_all add: store_rbuf_def)

lemma vc_frame_recv_ok:
  assumes "vc_inv tls a" "0 \<le> va_sk a"
  shows "out_ok tls (\<lambda>(r, a'). io_frame a a') (vc_frame_recv os off n a)"
proof (cases "va_ssl a")
  case None
  then show ?thesis
    using frame_recv_tcp_frame [of a os off n] by (simp add: vc_frame_recv_def split_beta)
next
  case (Some i)
  with assms have i: "si_ssl i" "tls" and ok: "stk_ok a" by (auto simp: vc_inv_def sess_def)
  show ?thesis
    unfolding vc_frame_recv_def Some option.case vc_frame_recv_ssl_def
    by (rule out_ok_bindI [OF ssl_recv_direct_ok [OF i(1)]])
      (use i ok in \<open>auto simp: ssl_post_def Let_def stk_log_ok frame_ssl_upd [OF Some]
        intro!: out_ok_bindI [OF ssl_recv_simple_ok]\<close>)
qed

lemma recv_body_ok:
  assumes "vc_inv tls a" "0 \<le> va_sk a"
  shows "out_ok tls (vc_inv tls) (recv_body os a)"
proof -
  define a1 where "a1 = (if pkt_cmd (va_rbuf a) = VCOM_CMD_DATAREADY then snd (vc_buf_update os VC_BUF_TX a) else a)"
  have fr: "io_frame a a1" by (simp add: a1_def vc_buf_update_frame)
  have a1: "vc_inv tls a1" "0 \<le> va_sk a1"
    using inv_frame [OF assms(1) fr] fr assms(2) by (auto simp: io_frame_def)
  have "out_ok tls (vc_inv tls) (excp_init os (vc_init os) x)"
    "out_ok tls (vc_inv tls) (vc_try_recv os buf len x)" if "io_frame a1 x" for x buf len
    using inv_frame [OF a1(1) that] by (auto intro!: vc_excp_inv vc_try_recv_ok vc_inv_mid)
  then show ?thesis
    unfolding recv_body_def Let_def a1_def [symmetric]
    by (auto intro!: out_ok_bindI [OF vc_frame_recv_ok [OF a1]])
qed

lemma vc_recv_desp_ok:
  assumes "vc_inv tls a" "0 \<le> va_sk a"
  shows "out_ok tls (vc_inv tls) (vc_recv_desp os a)"
proof -
  have "vc_inv tls x" "0 \<le> va_sk x" if "io_frame a x" for x
    using inv_frame [OF assms(1) that] that assms(2) by (auto simp: io_frame_def)
  then show ?thesis
    unfolding vc_recv_desp_def
    by (auto intro!: out_ok_bindI [OF vc_frame_recv_ok [OF assms]] ret_curnt_inv vc_excp_inv
        vc_inv_mid recv_body_ok)
qed

subsection \<open>One iteration\<close>

lemma opt_step_ok:
  assumes "vc_inv tls a" and "\<And>x. vc_inv tls x \<Longrightarrow> out_ok tls (vc_inv tls) (f x)"
  shows "out_ok tls (vc_inv tls) (if b then f a else Ok a)"
  using assms by simp

lemma main_actions_ok:
  assumes "select_law os" "vc_inv tls a" "tls \<longrightarrow> ssl_new_law os"
  shows "out_ok tls (vc_inv tls) (main_actions os a)"
proof -
  have opn: "out_ok tls (vc_inv tls) (if b then (if c then vc_open os a else vc_close os a) else Ok a)" for b c
    using vc_open_ok [OF assms] vc_close_ok [OF assms(2)] assms(2) by simp
  show ?thesis
    unfolding main_actions_def Let_def
    by (intro out_ok_bindI [where P = "vc_inv tls"] opn opt_step_ok vc_try_ok)
qed

lemma main_timeout_ok:
  "vc_inv tls a \<Longrightarrow> out_ok tls (\<lambda>(l, a'). vc_inv tls a') (main_timeout os lrecv a)"
  unfolding main_timeout_def
  by (auto intro!: out_ok_bindI [OF vc_excp_inv [OF vc_inv_mid]])

lemma main_sock_ok:
  assumes "vc_inv tls a"
  shows "out_ok tls (\<lambda>(l, a'). vc_inv tls a') (main_sock os pending s lrecv a)"
proof -
  have "si_ssl i" if "va_ssl a = Some i" "0 \<le> va_sk a" for i
    using that assms by (simp add: vc_inv_def sess_def)
  then show ?thesis
    using assms
    by (auto simp: main_sock_def ssl_handle_fds_def Let_def split: option.splits
        intro!: out_ok_bindI [OF vc_recv_desp_ok] main_timeout_ok)
qed

lemma main_pre_plain:
  assumes "vc_inv False a"
  shows "main_pre_ssl os rfds wfds a = Ok (rfds, wfds, False, a)"
  using assms by (simp add: main_pre_ssl_def vc_inv_def sess_def)

definition opt_inv :: "bool \<Rightarrow> (u32 \<times> 'w vc_attr) option \<Rightarrow> bool" where
  "opt_inv tls r \<longleftrightarrow> (case r of None \<Rightarrow> True | Some (l, a) \<Rightarrow> vc_inv tls a)"

lemma opt_inv_simps [simp]: "opt_inv tls None" "opt_inv tls (Some (l, a)) = vc_inv tls a"
  by (simp_all add: opt_inv_def)

lemma main_step_ok:
  assumes "select_law os" "vc_inv False a0"
  shows "out_ok False (opt_inv False) (main_step os lrecv a0)"
proof -
  have upd: "vc_inv False (snd (vc_buf_update os b x))" if "vc_inv False x" for b x
    using inv_frame [OF that vc_buf_update_frame] .
  have w: "vc_inv False (x\<lparr>va_w := w\<rparr>)" if "vc_inv False x" for x :: "'a vc_attr" and w
    using inv_frame [OF that] by simp
  have act: "out_ok False (vc_inv False) (main_actions os a0)"
    by (rule main_actions_ok [OF assms]) simp
  show ?thesis
    unfolding main_step_def Let_def
    by (auto intro!: out_ok_bindI [OF act] out_ok_bindI [OF vc_try_ok(5)] out_ok_bindI [OF vc_try_poll_ok]
        out_ok_bindI [OF main_sock_ok] out_ok_bindI [OF vc_try_ok(4)] upd w
        simp: main_pre_plain w split: prod.splits)
qed

lemma buf_setup_frame: "io_frame a (snd (vc_buf_setup os b a))"
proof -
  have "io_frame a (snd (vc_buf_update os b x))" if "io_frame a x" for x
    using io_frame_trans [OF that vc_buf_update_frame] .
  then show ?thesis by (auto simp: vc_buf_setup_def Let_def split: prod.splits)
qed

text \<open>What the command line leaves behind: a stack array, and TLS or not.\<close>

lemma main_start_ok:
  assumes "length (va_stk a0) = STACK_MAX"
  shows "out_ok (va_ssl a0 \<noteq> None) (vc_inv (va_ssl a0 \<noteq> None)) (main_start os a0)"
proof -
  let ?a = "a0\<lparr>va_top := - 1, va_sk := - 1\<rparr>"
  define a4 where "a4 = snd (vc_buf_setup os VC_BUF_ATTR (snd (vc_buf_setup os VC_BUF_RX
    (snd (vc_buf_setup os VC_BUF_TX ?a)))))"
  have "io_frame ?a a4"
    unfolding a4_def using buf_setup_frame io_frame_trans by blast
  then have "va_top a4 = - 1" "va_sk a4 = - 1" "va_stk a4 = va_stk a0" "same_ssl (va_ssl a0) (va_ssl a4)"
    by (simp_all add: io_frame_def)
  moreover from this(4) have "(va_ssl a4 \<noteq> None) = (va_ssl a0 \<noteq> None)"
    by (cases "va_ssl a0"; cases "va_ssl a4") (simp_all add: same_ssl_def)
  ultimately have "vc_mid (va_ssl a0 \<noteq> None) (stk_push a4 NETDOWN)"
    using assms by (simp add: vc_mid_def stk_push_def stk_full_def stk_ok_def sess_def STACK_MAX_def)
  from vc_init_inv [OF this] show ?thesis
    by (simp add: main_start_def Let_def a4_def)
qed

lemma main_reach_inv:
  assumes "main_reach os a0 l a" "select_law os" "length (va_stk a0) = STACK_MAX" "va_ssl a0 = None"
  shows "vc_inv False a"
  using assms(1)
proof induction
  case (mr_start a)
  then show ?case using main_start_ok [OF assms(3), of os] assms(4) by simp
next
  case (mr_step l a l' a')
  then show ?case using main_step_ok [OF assms(2), of a l] by simp
qed

end
