(* ===== verification/Vcom_Link.thy ===== *)
theory Vcom_Link
  imports Vcom_Os Driver_Main
begin

text \<open>
  The daemon on top of the driver: an operating system for the daemon whose proc-file ioctls are
  \<open>adv_proc_ioctl\<close> and whose mapped pages are the pages \<open>adv_vma_nopage\<close> installs. Sockets, time and
  OpenSSL come from a second operating system \<open>net\<close> that the driver does not touch. The user
  addresses the daemon passes are valid. At the end a small network used by the witnesses.
\<close>

subsection \<open>The mapped pages\<close>

definition page_byte :: "adv_vcom \<Rightarrow> int \<Rightarrow> byte" where
  "page_byte v off =
     (case adv_vma_nopage v (word_of_int off) 0 0 of
        Some TxPage \<Rightarrow> rb_data (v_tx v) ! nat (off mod PAGE_SIZE)
      | Some RxPage \<Rightarrow> rb_data (v_rx v) ! nat (off mod PAGE_SIZE)
      | _ \<Rightarrow> 0)"

definition map_read :: "int \<Rightarrow> nat \<Rightarrow> adv_vcom \<Rightarrow> byte list" where
  "map_read off n v = map (\<lambda>i. page_byte v (off + int i)) [0..<n]"

definition page_store :: "adv_vcom \<Rightarrow> int \<Rightarrow> byte \<Rightarrow> adv_vcom" where
  "page_store v off b =
     (case adv_vma_nopage v (word_of_int off) 0 0 of
        Some TxPage \<Rightarrow> v\<lparr>v_tx := (v_tx v)\<lparr>rb_data := (rb_data (v_tx v))[nat (off mod PAGE_SIZE) := b]\<rparr>\<rparr>
      | Some RxPage \<Rightarrow> v\<lparr>v_rx := (v_rx v)\<lparr>rb_data := (rb_data (v_rx v))[nat (off mod PAGE_SIZE) := b]\<rparr>\<rparr>
      | _ \<Rightarrow> v)"

fun map_write :: "int \<Rightarrow> byte list \<Rightarrow> adv_vcom \<Rightarrow> adv_vcom" where
  "map_write off [] v = v"
| "map_write off (b # bs) v = map_write (off + 1) bs (page_store v off b)"

subsection \<open>The operating system\<close>

type_synonym ('t, 'n) lworld = "adv_vcom \<times> 't \<times> 'n"

definition user_int :: "int \<Rightarrow> uarg" where
  "user_int arg = \<lparr>ua_access_ok = True, ua_put_ok = True, ua_get = Some (c_uint arg)\<rparr>"

definition link_ioctl :: "(byte list \<Rightarrow> nat \<Rightarrow> nat) \<Rightarrow> 't tty_ops \<Rightarrow> u32 \<Rightarrow> int \<Rightarrow>
    ('t, 'n) lworld \<Rightarrow> int \<times> int \<times> ('t, 'n) lworld" where
  "link_ioctl lin ops cmd arg = (\<lambda>(v, t, n).
     case adv_proc_ioctl lin ops cmd (user_int arg) v t of (r, res, v', t') \<Rightarrow>
       (r, case res of Some x \<Rightarrow> x | None \<Rightarrow> arg, v', t', n))"

definition on_net :: "('n \<Rightarrow> 'a \<times> 'n) \<Rightarrow> ('t, 'n) lworld \<Rightarrow> 'a \<times> ('t, 'n) lworld" where
  "on_net f = (\<lambda>(v, t, n). case f n of (x, n') \<Rightarrow> (x, v, t, n'))"

definition on_net2 :: "('n \<Rightarrow> 'a \<times> 'b \<times> 'n) \<Rightarrow> ('t, 'n) lworld \<Rightarrow> 'a \<times> 'b \<times> ('t, 'n) lworld" where
  "on_net2 f = (\<lambda>(v, t, n). case f n of (x, y, n') \<Rightarrow> (x, y, v, t, n'))"

definition on_net0 :: "('n \<Rightarrow> 'n) \<Rightarrow> ('t, 'n) lworld \<Rightarrow> ('t, 'n) lworld" where
  "on_net0 f = (\<lambda>(v, t, n). (v, t, f n))"

definition of_net :: "('n \<Rightarrow> 'a) \<Rightarrow> ('t, 'n) lworld \<Rightarrow> 'a" where
  "of_net f = (\<lambda>(v, t, n). f n)"

definition link_os :: "(byte list \<Rightarrow> nat \<Rightarrow> nat) \<Rightarrow> 't tty_ops \<Rightarrow> 'n os \<Rightarrow> ('t, 'n) lworld os" where
  "link_os lin ops net =
     \<lparr>os_ioctl = link_ioctl lin ops,
      os_mread = (\<lambda>off k (v, t, n). map_read off k v),
      os_mwrite = (\<lambda>off bs (v, t, n). (map_write off bs v, t, n)),
      os_attr = (\<lambda>base p (v, t, n). at_data (v_attr v) ! nat p),
      os_uninit = (\<lambda>k. of_net (os_uninit net k)),
      os_select = (\<lambda>k r w e tv. on_net (os_select net k r w e tv)),
      os_send = (\<lambda>sk pkt. on_net (os_send net sk pkt)),
      os_recv = (\<lambda>sk k. on_net2 (os_recv net sk k)),
      os_close = (\<lambda>sk. on_net0 (os_close net sk)),
      os_getfl = (\<lambda>sk. of_net (os_getfl net sk)),
      os_setfl = (\<lambda>sk f. on_net (os_setfl net sk f)),
      os_time = on_net (os_time net),
      os_sleep = (\<lambda>k. on_net0 (os_sleep net k)),
      os_getifaddrs = on_net (os_getifaddrs net),
      os_getaddrinfo = (\<lambda>h. on_net (os_getaddrinfo net h)),
      os_socket = (\<lambda>f. on_net (os_socket net f)),
      os_bind = (\<lambda>sk i. on_net (os_bind net sk i)),
      os_connect = (\<lambda>sk i. on_net2 (os_connect net sk i)),
      os_so_error = (\<lambda>sk. on_net2 (os_so_error net sk)),
      os_nodelay = (\<lambda>sk. on_net0 (os_nodelay net sk)),
      os_SSL_new = on_net (os_SSL_new net),
      os_SSL_set_fd = (\<lambda>sk. on_net (os_SSL_set_fd net sk)),
      os_SSL_connect = on_net (os_SSL_connect net),
      os_SSL_accept = on_net (os_SSL_accept net),
      os_SSL_read = (\<lambda>k. on_net2 (os_SSL_read net k)),
      os_SSL_write = (\<lambda>b. on_net (os_SSL_write net b)),
      os_SSL_get_error = (\<lambda>r. of_net (os_SSL_get_error net r)),
      os_SSL_pending = of_net (os_SSL_pending net),
      os_SSL_shutdown = on_net0 (os_SSL_shutdown net),
      os_SSL_free = on_net0 (os_SSL_free net)\<rparr>"

lemmas on_net_defs = on_net_def on_net2_def on_net0_def of_net_def

lemma link_select_law: "select_law net \<Longrightarrow> select_law (link_os lin ops net)"
  by (simp add: select_law_def link_os_def on_net_def Let_def split_beta)

lemma link_io_law: "io_law net \<Longrightarrow> io_law (link_os lin ops net)"
  by (simp add: io_law_def link_os_def on_net_defs map_read_def split_beta)

subsection \<open>Reading and writing inside a page\<close>

lemma nopage_small:
  assumes "drv_inv v" "0 \<le> off" "off < 12288"
  shows "adv_vma_nopage v (word_of_int off) 0 0 =
    (if off < 4096 then Some TxPage else if off < 8192 then Some RxPage else Some AttrPage)"
proof -
  have "uint (word_of_int off :: u64) = off"
    using assms by (simp add: uint_word_of_int_eq take_bit_int_eq_self)
  then show ?thesis
    using assms by (auto simp: adv_vma_nopage_def drv_inv_def PAGE_SIZE_def Let_def word_less_def)
qed

lemma page_byte_eq:
  assumes "drv_inv v" "0 \<le> off"
  shows "off < 4096 \<Longrightarrow> page_byte v off = rb_data (v_tx v) ! nat off"
    "4096 \<le> off \<Longrightarrow> off < 8192 \<Longrightarrow> page_byte v off = rb_data (v_rx v) ! nat (off - 4096)"
proof -
  have "off mod 4096 = off - 4096" if "4096 \<le> off" "off < 8192"
    using that by (metis (no_types, opaque_lifting) add_diff_cancel_right' diff_add_cancel
        diff_ge_0_iff_ge less_diff_eq minus_mod_self2 mod_pos_pos_trivial numeral_Bit0)
  then show "off < 4096 \<Longrightarrow> page_byte v off = rb_data (v_tx v) ! nat off"
    "4096 \<le> off \<Longrightarrow> off < 8192 \<Longrightarrow> page_byte v off = rb_data (v_rx v) ! nat (off - 4096)"
    using assms by (auto simp: page_byte_def nopage_small PAGE_SIZE_def)
qed

lemma map_read_page:
  assumes "drv_inv v" "0 \<le> off" "off + int n \<le> 4096"
  shows "map_read off n v = get_bytes (nat off) n (rb_data (v_tx v))"
    "map_read (4096 + off) n v = get_bytes (nat off) n (rb_data (v_rx v))"
proof -
  have l: "length (rb_data (v_tx v)) = 4096" "length (rb_data (v_rx v)) = 4096"
    using assms(1) by (auto simp: drv_inv_def kr_ready_def kr_inv_def PAGE_SIZE_def)
  have "page_byte v (off + int i) = rb_data (v_tx v) ! (nat off + i)"
    "page_byte v (4096 + off + int i) = rb_data (v_rx v) ! (nat off + i)" if "i < n" for i
    using that assms page_byte_eq [of v "off + int i"] page_byte_eq [of v "4096 + off + int i"]
    by (auto simp: nat_add_distrib)
  then show "map_read off n v = get_bytes (nat off) n (rb_data (v_tx v))"
    "map_read (4096 + off) n v = get_bytes (nat off) n (rb_data (v_rx v))"
    using assms l by (auto simp: map_read_def get_bytes_def intro!: nth_equalityI)
qed

lemma put_bytes_Cons:
  "i < length xs \<Longrightarrow> put_bytes (Suc i) bs (xs[i := b]) = put_bytes i (b # bs) xs"
  by (simp add: put_bytes_def upd_conv_take_nth_drop take_Suc_conv_app_nth add.commute)

lemma map_write_tx:
  assumes "drv_inv v" "0 \<le> off" "off + int (length bs) \<le> 4096"
  shows "map_write off bs v = v\<lparr>v_tx := (v_tx v)\<lparr>rb_data := put_bytes (nat off) bs (rb_data (v_tx v))\<rparr>\<rparr>"
  using assms
proof (induction bs arbitrary: off v)
  case Nil
  then show ?case by simp
next
  case (Cons b bs)
  let ?v = "v\<lparr>v_tx := (v_tx v)\<lparr>rb_data := (rb_data (v_tx v))[nat off := b]\<rparr>\<rparr>"
  have st: "page_store v off b = ?v"
    using Cons.prems by (simp add: page_store_def nopage_small PAGE_SIZE_def)
  have inv: "drv_inv ?v"
    using Cons.prems(1) by (simp add: drv_inv_def kr_ready_def kr_inv_def rb_inv_def rb_clean_def)
  have l: "nat off < length (rb_data (v_tx v))" "nat (off + 1) = Suc (nat off)"
    using Cons.prems by (auto simp: drv_inv_def kr_ready_def kr_inv_def PAGE_SIZE_def)
  show ?case
    using Cons.IH [OF inv, of "off + 1"] Cons.prems l by (simp add: st put_bytes_Cons)
qed

subsection \<open>A small network\<close>

text \<open>
  One interface and one device that accepts every connection. The world is the bytes that have
  arrived and the bytes that were sent; a descriptor is readable while bytes are left and always
  writable.
\<close>

definition sample_select :: "int list \<Rightarrow> int list \<Rightarrow> bool \<Rightarrow> fdsel" where
  "sample_select r wr data = (let r' = (if data then r else []) in
     \<lparr>fs_ret = int (length r' + length wr), fs_r = r', fs_w = wr, fs_e = [], fs_tv = (1, 0)\<rparr>)"

definition sample_read :: "nat \<Rightarrow> byte list \<times> byte list \<Rightarrow> int \<times> byte list \<times> byte list \<times> byte list" where
  "sample_read n = (\<lambda>(i, o'). (int (min n (length i)), take n i, drop n i, o'))"

definition sample_net :: "(byte list \<times> byte list) os" where
  "sample_net =
     \<lparr>os_ioctl = (\<lambda>cmd arg w. (0, arg, w)), os_mread = (\<lambda>off n w. replicate n 0),
      os_mwrite = (\<lambda>off bs w. w), os_attr = (\<lambda>b p w. zero_port_info),
      os_uninit = (\<lambda>n w. replicate n 0xAA),
      os_select = (\<lambda>n r wr e tv w. (sample_select r wr (fst w \<noteq> []), w)),
      os_send = (\<lambda>sk pkt (i, o'). (int (length pkt), i, o' @ pkt)),
      os_recv = (\<lambda>sk n. sample_read n), os_close = (\<lambda>sk w. w),
      os_getfl = (\<lambda>sk w. 0), os_setfl = (\<lambda>sk f w. (0, w)), os_time = (\<lambda>w. (1, w)),
      os_sleep = (\<lambda>n w. w),
      os_getifaddrs = (\<lambda>w. (Some [\<lparr>ifa_name = ''eth0'', ifa_family = 2\<rparr>], w)),
      os_getaddrinfo = (\<lambda>h w. (Some [\<lparr>ai_family = 2, ai_addr = h\<rparr>], w)),
      os_socket = (\<lambda>f w. (5, w)), os_bind = (\<lambda>sk i w. (0, w)),
      os_connect = (\<lambda>sk i w. (- 1, True, w)), os_so_error = (\<lambda>sk w. (0, 0, w)),
      os_nodelay = (\<lambda>sk w. w), os_SSL_new = (\<lambda>w. (True, w)), os_SSL_set_fd = (\<lambda>sk w. (1, w)),
      os_SSL_connect = (\<lambda>w. (1, w)), os_SSL_accept = (\<lambda>w. (1, w)), os_SSL_read = sample_read,
      os_SSL_write = (\<lambda>b (i, o'). (int (length b), i, o' @ b)), os_SSL_get_error = (\<lambda>r w. 6),
      os_SSL_pending = (\<lambda>w. 0), os_SSL_shutdown = (\<lambda>w. w), os_SSL_free = (\<lambda>w. w)\<rparr>"

lemma sample_net_laws: "select_law sample_net" "io_law sample_net"
  by (auto simp: select_law_def io_law_def sample_net_def sample_select_def sample_read_def Let_def)

abbreviation sample_os :: "(byte list, byte list \<times> byte list) lworld os" where
  "sample_os \<equiv> link_os sample_lin sample_tty sample_net"

lemma sample_os_select_law: "select_law sample_os"
  by (rule link_select_law [OF sample_net_laws(1)])

lemma sample_os_simps [simp]:
  "os_select sample_os n r wr e tv w = (sample_select r wr (fst (snd (snd w)) \<noteq> []), w)"
  "os_time sample_os w = (1, w)" "os_close sample_os sk w = w" "os_uninit sample_os k w = replicate k 0xAA"
  "os_send sample_os sk pkt (v, t, i, o') = (int (length pkt), v, t, i, o' @ pkt)"
  "os_recv sample_os sk k (v, t, i, o') = (int (min k (length i)), take k i, v, t, drop k i, o')"
  "os_SSL_read sample_os k (v, t, i, o') = (int (min k (length i)), take k i, v, t, drop k i, o')"
  "os_SSL_get_error sample_os x w = 6" "os_SSL_new sample_os w = (True, w)"
  "os_ioctl sample_os = link_ioctl sample_lin sample_tty"
  by (cases w; simp add: link_os_def sample_net_def sample_read_def on_net_defs)+

end
