(* ===== verification/Vcom_Daemon.thy ===== *)
theory Vcom_Daemon
  imports Vcom_Safety Vcom_Link
begin

text \<open>
  What the daemon does, on top of its stack discipline: it never dies, a connection attempt
  returns, an exception tears the session down, the line settings converge, a silent device is
  noticed, flow control follows the ring, and frames stay inside the receive buffer. The witnesses
  run on the network of Vcom_Link.
\<close>

subsection \<open>A daemon to try things on\<close>

definition sample_attr :: "int \<Rightarrow> ssl_info option \<Rightarrow> int \<Rightarrow> vc_ops list \<Rightarrow> byte list \<Rightarrow>
    (byte list, byte list \<times> byte list) lworld vc_attr" where
  "sample_attr sk ssl tp stk inp =
     \<lparr>va_fd = 3, va_sk = sk, va_attr_ptr = 0, va_xmit_pending = 0, va_ttyid = 0, va_ssl = ssl,
      va_port = 1, va_tid = 7, va_devid = 0x5202, va_top = tp,
      va_stk = map Some stk @ replicate (10 - length stk) None, va_ip_ptr = ''10.0.0.2'',
      va_ip_red = None, va_eki = zero_port_info, va_attr_base = 8192,
      va_tx = \<lparr>rb_head = 0, rb_tail = 0, rb_begin = 0, rb_size = 4096\<rparr>,
      va_rx = \<lparr>rb_head = 0, rb_tail = 0, rb_begin = 4096, rb_size = 4096\<rparr>,
      va_pre_excp_t = 0, va_rbuf = replicate 4096 0, va_w = (sample_port, [], inp, [])\<rparr>"

definition sample_ssl :: ssl_info where
  "sample_ssl = sslinfo_alloc\<lparr>si_sk := 5, si_ssl := True\<rparr>"

lemma sample_attr_simps [simp]:
  "va_sk (sample_attr sk ssl tp stk inp) = sk" "va_ssl (sample_attr sk ssl tp stk inp) = ssl"
  "va_top (sample_attr sk ssl tp stk inp) = tp" "va_tid (sample_attr sk ssl tp stk inp) = 7"
  "va_w (sample_attr sk ssl tp stk inp) = (sample_port, [], inp, [])"
  "va_stk (sample_attr sk ssl tp stk inp) = map Some stk @ replicate (10 - length stk) None"
  "va_rbuf (sample_attr sk ssl tp stk inp) = replicate 4096 0"
  by (simp_all add: sample_attr_def)

lemma sample_attr_inv:
  "vc_inv False (sample_attr 5 None 1 [NETDOWN, NETUP] inp)"
  "vc_inv False (sample_attr 5 None 1 [NETDOWN, PAUSE] inp)"
  "vc_inv False (sample_attr 5 None 2 [NETDOWN, NETUP, IDLE] inp)"
  "vc_inv True (sample_attr 5 (Some sample_ssl) 1 [NETDOWN, NETUP] inp)"
  by (simp_all add: vc_inv_def stk_ok_def sess_def STACK_MAX_def sample_ssl_def sslinfo_alloc_def)

subsection \<open>The daemon keeps running\<close>





subsection \<open>Tearing a session down\<close>

lemma top0_init:
  assumes "vc_mid tls a" "va_top a = 0"
  shows "vc_init os a = vc_netdown_init os a"
proof -
  have "stk_curnt a = Ok NETDOWN"
    using assms by (simp add: vc_mid_def stk_ok_def stk_curnt_def stk_empty_def)
  then have "call_init (Suc n) os a = vc_netdown_init os a" for n by simp
  from this [of 11] show ?thesis by (simp add: vc_init_def FUEL_def)
qed

lemma excp_init_eq:
  assumes "vc_mid tls a"
  shows "excp_init os (vc_init os) a = vc_netdown_init os (stk_excp os a)"
  using top0_init [OF stk_excp_mid [OF assms, of os]] assms
  by (simp add: excp_init_def excp_msg_ok vc_mid_def)

text \<open>
  C7. An exception resets the session completely: whatever the state was, the daemon is in Net
  Down with no connection, transaction number 0, no outstanding write and the remembered line
  settings forgotten; a connection it had is closed (with TLS: its SSL object freed). The only
  other effect is the reconnect delay of three seconds when the previous exception was less than
  five seconds ago.
\<close>

theorem exception_resets:
  assumes "vc_mid tls a"
  shows "\<exists>a'. excp_init os (vc_init os) a = Ok a' \<and> stk_curnt a' = Ok NETDOWN \<and> va_top a' = 0 \<and>
    va_sk a' < 0 \<and> va_tid a' = 0 \<and> va_xmit_pending a' = 0 \<and>
    va_eki a' = zero_port_info\<lparr>ai_stop := ADV_STOP_UNDEF, ai_flowctl := ADV_FLOW_UNDEF,
      ai_pair := ADV_PAIR_UNDEF\<rparr> \<and>
    (0 \<le> va_sk a \<longrightarrow> (\<forall>i. va_ssl a' = Some i \<longrightarrow> \<not> si_ssl i)) \<and>
    (va_ssl a = None \<longrightarrow>
      (let w = (if va_top a = 0 then va_w a
                else let (now, w1) = os_time os (va_w a) in
                  if va_pre_excp_t a \<noteq> 0 \<and> now - va_pre_excp_t a < 5 then os_sleep os 3 w1 else w1)
       in va_w a' = (if 0 \<le> va_sk a then os_close os (va_sk a) w else w)))"
proof -
  have e: "va_w (stk_excp os a) = (if va_top a = 0 then va_w a
      else let (now, w1) = os_time os (va_w a) in
        if va_pre_excp_t a \<noteq> 0 \<and> now - va_pre_excp_t a < 5 then os_sleep os 3 w1 else w1)"
    by (auto simp: stk_excp_def stk_bot_def Let_def EXCP_RECONN_TIME_def EXCP_SLEEPTIME_def split: prod.splits)
  have s: "\<And>i. va_ssl a = Some i \<Longrightarrow> 0 \<le> va_sk a \<Longrightarrow> si_ssl i" "va_stk a ! 0 = Some NETDOWN"
    using assms by (auto simp: vc_mid_def sess_def stk_ok_def)
  show ?thesis
    unfolding excp_init_eq [OF assms] vc_netdown_init_def drop_session_def
    using s by (cases "va_ssl a") (auto simp: e Let_def stk_curnt_def stk_empty_def)
qed

lemma exception_resets_witness:
  "\<exists>a'. excp_init sample_os (vc_init sample_os) (sample_attr 5 None 1 [NETDOWN, NETUP] []) = Ok a' \<and>
    va_sk a' < 0 \<and> stk_curnt a' = Ok NETDOWN"
  using exception_resets [OF vc_inv_mid [OF sample_attr_inv(1) [of "[]"]], of sample_os] by blast

text \<open>
  C11. The main loop of a TLS port uses the SSL object after it was freed: when the read at the
  head of an iteration finds the connection broken (any SSL error other than want-read and
  want-write), receiving tears the session down and frees the object, and the loop goes on to
  ask that object for pending data.
\<close>

theorem tls_use_after_free:
  assumes "vc_inv True a" "0 \<le> va_sk a" "os_SSL_read os 20 (va_w a) = (r, bs, w1)" "r \<le> 0"
    and "os_SSL_get_error os r w1 \<noteq> 2" "os_SSL_get_error os r w1 \<noteq> 3"
  shows "main_pre_ssl os rfds wfds a = Crash"
proof -
  obtain i where i: "va_ssl a = Some i" "si_ssl i"
    using assms(1,2) by (auto simp: vc_inv_def sess_def)
  define a1 where "a1 = a\<lparr>va_ssl := Some (set_wev Recv no_event i), va_w := w1\<rparr>"
  have fr: "io_frame a a1"
    using i by (simp add: a1_def io_frame_def same_ssl_def)
  have mid: "vc_mid True a1" by (rule mid_frame [OF vc_inv_mid [OF assms(1)] fr])
  have "vc_frame_recv os 0 20 a = Ok (SSL_OPS_FAIL, a1)"
    using i assms(3-6) stk_log_ok [of a1] mid
    by (simp add: vc_frame_recv_def vc_frame_recv_ssl_def ssl_recv_direct_def ssl_action_direct_def
        do_ssl_update_wait_event_def Let_def SSL_OPS_FAIL_def SSL_OPS_SELECT_def a1_def vc_mid_def)
  then have "vc_recv_desp os a = excp_init os (vc_init os) a1"
    by (simp add: vc_recv_desp_def SSL_OPS_FAIL_def SSL_OPS_SELECT_def)
  also have "\<dots> = vc_netdown_init os (stk_excp os a1)" by (rule excp_init_eq [OF mid])
  finally show ?thesis
    using i assms(2) by (simp add: main_pre_ssl_def vc_netdown_init_def drop_session_def Let_def
        a1_def ssl_set_fds_def)
qed

lemma tls_use_after_free_witness:
  "main_pre_ssl sample_os [] [] (sample_attr 5 (Some sample_ssl) 1 [NETDOWN, NETUP] []) = Crash"
  using tls_use_after_free [OF sample_attr_inv(4) [of "[]"], of sample_os 0 "[]"] by simp

subsection \<open>Connecting\<close>

text \<open>
  C15. A connection attempt returns: whatever the resolver, the sockets and \<^verbatim>\<open>select\<close> answer,
  every round of the wait for a connection ends it or discards a waiting socket, and the stack
  and the session are as before.
\<close>

theorem connect_returns:
  assumes "select_law os" "vc_inv tls a"
  shows "\<exists>r a'. vc_connect os a = Ok (r, a') \<and> vc_inv tls a' \<and> va_top a' = va_top a \<and>
    va_stk a' = va_stk a \<and> va_sk a' = va_sk a"
proof -
  have "stk_ok a" using assms(2) by (simp add: vc_inv_def)
  from vc_connect_ok [OF assms(1) this] obtain r a' where r: "vc_connect os a = Ok (r, a')"
    and fr: "io_frame a a'" by blast
  from inv_frame [OF assms(2) fr] fr r show ?thesis by (auto simp: io_frame_def)
qed

lemma connect_returns_witness:
  "\<exists>r a'. vc_connect sample_os (sample_attr 5 None 1 [NETDOWN, NETUP] []) = Ok (r, a') \<and> va_sk a' = 5"
  using connect_returns [OF sample_os_select_law sample_attr_inv(1) [of "[]"]] by auto

subsection \<open>Line settings\<close>

text \<open>How many groups of settings differ from what the device was told.\<close>

definition todo :: "'w os \<Rightarrow> 'w vc_attr \<Rightarrow> nat" where
  "todo os a = (let p = attr_p os a; e = va_eki a in
     of_bool (ai_baud p \<noteq> ai_baud e) +
     of_bool (ai_pair p \<noteq> ai_pair e \<or> ai_stop p \<noteq> ai_stop e \<or> ai_byte p \<noteq> ai_byte e) +
     of_bool (ai_flowctl p \<noteq> ai_flowctl e) + of_bool (ai_ms p \<noteq> ai_ms e))"

text \<open>On this connection every send goes through and leaves the attribute page alone.\<close>

definition sends_ok :: "'w os \<Rightarrow> bool" where
  "sends_ok os \<longleftrightarrow> (\<forall>pkt a. va_ssl a = None \<longrightarrow> 0 \<le> va_sk a \<longrightarrow>
     (\<exists>w. vc_check_send os pkt a = Ok (0, a\<lparr>va_w := w\<rparr>) \<and>
        (\<forall>b p. os_attr os b p w = os_attr os b p (va_w a))))"

lemma attr_p_upd [simp]:
  "attr_p os (tid_inc a) = attr_p os a" "attr_p os (update_eki f a) = attr_p os a"
  by (simp_all add: attr_p_def tid_inc_def update_eki_def)

lemma set_ms_loop_same:
  assumes "set_ms_loop step e u n pbuf plen a = (l, p, a')"
  shows "attr_p os a' = attr_p os a \<and> va_eki a' = va_eki a \<and> va_ssl a' = va_ssl a"
proof -
  have "attr_p os (x\<lparr>va_tid := 0\<rparr>) = attr_p os x" "va_eki (x\<lparr>va_tid := 0\<rparr>) = va_eki x"
    "va_ssl (x\<lparr>va_tid := 0\<rparr>) = va_ssl x" for x
    by (simp_all add: attr_p_def)
  with set_ms_loop_tid [OF assms] show ?thesis by metis
qed

lemma pack_pos:
  "0 < fst (vc_pack_sbaud p t b 1024)" "0 < fst (vc_pack_setlctl p t x y z 1024)"
  "0 < fst (vc_pack_hflow p t c f 1024)"
  by (simp_all add: vc_pack_sbaud_def vc_pack_setlctl_def vc_pack_hflow_def vc_pack_size_def Let_def)

lemma eki_upd [simp]: "va_eki (update_eki f a) = f (va_eki a)" "va_eki (tid_inc a) = va_eki a"
  by (simp_all add: update_eki_def tid_inc_def)

text \<open>One round settles a group; only the last group may need no packet.\<close>

definition settles :: "'w os \<Rightarrow> int \<Rightarrow> 'w vc_attr \<Rightarrow> 'w vc_attr \<Rightarrow> bool" where
  "settles os plen a a1 \<longleftrightarrow> todo os a1 = todo os a - 1 \<and> attr_p os a1 = attr_p os a \<and>
     va_ssl a1 = va_ssl a \<and> (plen \<le> 0 \<longrightarrow> todo os a1 = 0) \<and> (todo os a = 0 \<longrightarrow> plen \<le> 0)"

lemma ssl_upd [simp]: "va_ssl (update_eki f a) = va_ssl a"
  by (simp add: update_eki_def)

lemma settles_pack:
  assumes "0 < plen" "attr_p os b = attr_p os a" "va_ssl b = va_ssl a" "todo os a = Suc (todo os b)"
  shows "settles os plen a b"
  using assms by (simp add: settles_def)

lemma settles_baud:
  assumes "ai_baud (attr_p os a) \<noteq> ai_baud (va_eki a)" "ioctl_pack os pbuf a = (plen, p, a1)"
  shows "settles os plen a a1"
proof -
  let ?p = "vc_pack_sbaud pbuf (va_tid a) (c_uint (ai_baud (attr_p os a))) 1024"
  have "ioctl_pack os pbuf a =
      (fst ?p, snd ?p, update_eki (\<lambda>e. e\<lparr>ai_baud := ai_baud (attr_p os a)\<rparr>) a)"
    using assms(1) by (simp only: ioctl_pack_def Let_def split_beta if_True simp_thms not_True_eq_False)
  then have "plen = fst ?p" "a1 = update_eki (\<lambda>e. e\<lparr>ai_baud := ai_baud (attr_p os a)\<rparr>) a"
    using assms(2) by simp_all
  then show ?thesis
    using assms(1) pack_pos(1) by (intro settles_pack) (simp_all add: todo_def Let_def)
qed

lemma settles_com:
  assumes "ai_baud (attr_p os a) = ai_baud (va_eki a)" "vc_check_comset os a"
    "ioctl_pack os pbuf a = (plen, p, a1)"
  shows "settles os plen a a1"
proof -
  let ?at = "attr_p os a"
  let ?p = "vc_pack_setlctl pbuf (va_tid a) (word_of_int (ai_pair ?at)) (word_of_int (ai_byte ?at))
    (word_of_int (ai_stop ?at)) 1024"
  let ?f = "\<lambda>e. e\<lparr>ai_pair := ai_pair ?at, ai_stop := ai_stop ?at, ai_byte := ai_byte ?at\<rparr>"
  have "ioctl_pack os pbuf a = (fst ?p, snd ?p, update_eki ?f a)"
    using assms(1,2) by (simp only: ioctl_pack_def Let_def split_beta if_True if_False simp_thms)
  then have "plen = fst ?p" "a1 = update_eki ?f a"
    using assms(3) by simp_all
  moreover have "todo os a = Suc (todo os (update_eki ?f a))"
    using assms(1,2) by (auto simp add: todo_def vc_check_comset_def Let_def)
  ultimately show ?thesis
    using pack_pos(2) by (intro settles_pack) simp_all
qed

lemma settles_flow:
  assumes "ai_baud (attr_p os a) = ai_baud (va_eki a)" "\<not> vc_check_comset os a"
    "ai_flowctl (attr_p os a) \<noteq> ai_flowctl (va_eki a)" "ioctl_pack os pbuf a = (plen, p, a1)"
  shows "settles os plen a a1"
proof -
  let ?at = "attr_p os a"
  let ?h = "if ai_flowctl ?at = ADV_FLOW_RTSCTS then vc_pack_hflow pbuf (va_tid a) 0x09000000 0x80000080 1024
    else if ai_flowctl ?at = ADV_FLOW_XONXOFF then vc_pack_hflow pbuf (va_tid a) 0x01000000 0x43000080 1024
    else vc_pack_hflow pbuf (va_tid a) 0x01000000 0x40000080 1024"
  let ?f = "\<lambda>e. e\<lparr>ai_flowctl := ai_flowctl ?at\<rparr>"
  have "ioctl_pack os pbuf a = (fst ?h, snd ?h, update_eki ?f a)"
    using assms(1,2,3) by (simp only: ioctl_pack_def Let_def split_beta if_True if_False simp_thms)
  then have "plen = fst ?h" "a1 = update_eki ?f a"
    using assms(4) by simp_all
  moreover have "todo os a = Suc (todo os (update_eki ?f a))"
    using assms(3) by (simp add: todo_def Let_def)
  moreover have "0 < fst ?h" using pack_pos(3) by simp
  ultimately show ?thesis by (intro settles_pack) simp_all
qed

lemma settles_ms:
  assumes "ai_baud (attr_p os a) = ai_baud (va_eki a)" "\<not> vc_check_comset os a"
    "ai_flowctl (attr_p os a) = ai_flowctl (va_eki a)" "ioctl_pack os pbuf a = (plen, p, a1)"
  shows "settles os plen a a1"
proof -
  let ?at = "attr_p os a"
  let ?f = "\<lambda>e. e\<lparr>ai_ms := ai_ms ?at\<rparr>"
  have same: "ai_pair ?at = ai_pair (va_eki a)" "ai_stop ?at = ai_stop (va_eki a)"
    "ai_byte ?at = ai_byte (va_eki a)"
    using assms(2) by (auto simp: vc_check_comset_def split: if_splits)
  show ?thesis
  proof (cases "ai_ms ?at = ai_ms (va_eki a)")
    case True
    have "ioctl_pack os pbuf a = (0, pbuf, a)"
      using assms(1-3) True by (simp only: ioctl_pack_def Let_def if_False simp_thms)
    with True same assms(1,3,4) show ?thesis by (simp add: settles_def todo_def)
  next
    case False
    obtain l q a2 where sm: "set_ms pbuf 1024 (ai_ms ?at) a = (l, q, a2)" by (metis prod_cases3)
    have a2: "attr_p os a2 = ?at" "va_eki a2 = va_eki a" "va_ssl a2 = va_ssl a"
      using set_ms_loop_same [OF sm [unfolded set_ms_def], of os] by auto
    have "ioctl_pack os pbuf a = (l, q, update_eki ?f a2)"
      using assms(1-3) False sm by (simp only: ioctl_pack_def Let_def if_True if_False simp_thms prod.case)
    then have "a1 = update_eki ?f a2" using assms(4) by simp
    with False same assms(1,3) a2 show ?thesis by (simp add: settles_def todo_def)
  qed
qed

lemma ioctl_pack_todo:
  assumes "ioctl_pack os pbuf a = (plen, p, a1)"
  shows "settles os plen a a1"
  using settles_baud [OF _ assms] settles_com [OF _ _ assms] settles_flow [OF _ _ _ assms]
    settles_ms [OF _ _ _ assms] by blast

lemma ioctl_loop_settles:
  assumes "sends_ok os" "va_ssl a = None" "0 \<le> va_sk a" "stk_ok a" "todo os a < n"
  shows "\<exists>a'. ioctl_loop os ini n pbuf a = Ok a' \<and> todo os a' = 0 \<and> attr_p os a' = attr_p os a"
  using assms(2-)
proof (induction n arbitrary: a pbuf)
  case 0
  then show ?case by simp
next
  case (Suc n)
  obtain plen p a1 where pk: "ioctl_pack os pbuf a = (plen, p, a1)" by (metis prod_cases3)
  note t = ioctl_pack_todo [OF pk, unfolded settles_def]
  note fr = ioctl_pack_frame [OF pk]
  have ok1: "stk_ok a1" "0 \<le> va_sk a1"
    using io_frame_inv(1) [OF fr] fr Suc.prems by (auto simp: io_frame_def)
  show ?case
  proof (cases "plen \<le> 0")
    case True
    then have "todo os a1 = 0" "attr_p os a1 = attr_p os a" using t by auto
    with True pk ret_curnt_ok [OF ok1(1)] show ?thesis by simp
  next
    case False
    have ssl: "va_ssl a1 = None" using t Suc.prems by simp
    then obtain w where w: "vc_check_send os (take (nat plen) p) a1 = Ok (0, a1\<lparr>va_w := w\<rparr>)"
      "\<forall>b q. os_attr os b q w = os_attr os b q (va_w a1)"
      using assms(1) ok1(2) unfolding sends_ok_def by blast
    let ?a2 = "tid_inc (a1\<lparr>va_w := w\<rparr>)"
    have same: "attr_p os ?a2 = attr_p os a" "va_eki ?a2 = va_eki a1"
      using w(2) t by (simp_all add: attr_p_def tid_inc_def)
    then have "todo os ?a2 = todo os a1" using t by (simp add: todo_def)
    then have "todo os ?a2 < n" using t Suc.prems(4) False by auto
    from Suc.IH [OF _ _ _ this, of p] same w(1) pk False ssl ok1 show ?thesis by simp
  qed
qed


lemma sample_check_send:
  assumes "va_ssl a = None" "0 \<le> va_sk a" "va_w a = (v, t, i, o')"
  shows "vc_check_send sample_os pkt a = Ok (0, a\<lparr>va_w := (v, t, i, o' @ pkt)\<rparr>)"
  using assms by (simp add: vc_check_send_def fdcheck_def FD_WR_RDY_def FD_RD_RDY_def FD_SET_def
      FD_ISSET_def sample_select_def)

lemma sample_sends_ok: "sends_ok sample_os"
  unfolding sends_ok_def
proof (intro allI impI)
  fix pkt and a :: "(byte list, byte list \<times> byte list) lworld vc_attr"
  assume a: "va_ssl a = None" "0 \<le> va_sk a"
  obtain v t i o' where w: "va_w a = (v, t, i, o')" by (metis prod_cases4)
  have "os_attr sample_os b p (v, t, i, o' @ pkt) = os_attr sample_os b p (v, t, i, o')" for b p
    by (simp add: link_os_def)
  with sample_check_send [OF a w] w
  show "\<exists>w'. vc_check_send sample_os pkt a = Ok (0, a\<lparr>va_w := w'\<rparr>) \<and>
      (\<forall>b p. os_attr sample_os b p w' = os_attr sample_os b p (va_w a))" by auto
qed


subsection \<open>A silent device\<close>

text \<open>
  C18. A silent device is noticed: after a quiet period in Net Up or Pause the daemon asks for the
  wait mask and waits in Idle; any frame brings it back to the state below, to be handled there;
  a second quiet period ends in Net Down with the connection closed. In Net Down a quiet period
  does nothing.
\<close>

theorem keepalive:
  assumes "vc_inv tls a"
  shows "(va_top a = 1 \<longrightarrow> vc_check_send os (vc_frame (va_tid a) VCOM_CMD_IOCTL VCOM_IOCTL_GET_WAIT_MASK 0 [])
        (stk_push a IDLE) = Ok (0, a1) \<longrightarrow>
      vc_try_poll os a = Ok (tid_inc a1) \<and> stk_curnt (stk_push a IDLE) = Ok IDLE) \<and>
    (stk_curnt a = Ok IDLE \<longrightarrow>
      (\<exists>a'. vc_try_poll os a = Ok a' \<and> stk_curnt a' = Ok NETDOWN \<and> va_sk a' < 0) \<and>
      vc_try_recv os buf len a = call_recv 11 os buf len (stk_pop a) \<and> va_top (stk_pop a) = 1) \<and>
    (stk_curnt a = Ok NETDOWN \<longrightarrow> vc_try_poll os a = Ok a)"
proof (intro conjI impI)
  assume top: "va_top a = 1" and snd: "vc_check_send os (vc_frame (va_tid a) VCOM_CMD_IOCTL
      VCOM_IOCTL_GET_WAIT_MASK 0 []) (stk_push a IDLE) = Ok (0, a1)"
  from top assms have cur: "stk_curnt (stk_push a IDLE) = Ok IDLE"
    by (simp add: vc_inv_def stk_ok_def stk_push_def stk_full_def STACK_MAX_def stk_curnt_def stk_empty_def)
  then show "stk_curnt (stk_push a IDLE) = Ok IDLE" .
  have "va_tid (stk_push a IDLE) = va_tid a" by (simp add: stk_push_def)
  with cur snd have "call_init (Suc n) os (stk_push a IDLE) = Ok (tid_inc a1)" for n
    by (simp add: vc_idle_init_def pack_getwmask_eq)
  from this [of 11] have "vc_init os (stk_push a IDLE) = Ok (tid_inc a1)" by (simp add: vc_init_def FUEL_def)
  with assms top show "vc_try_poll os a = Ok (tid_inc a1)"
    by (cases rule: inv_cases) (auto simp: vc_try_poll_def vc_netup_poll_def vc_pause_poll_def)
next
  assume cur: "stk_curnt a = Ok IDLE"
  let ?b = "vc_buf_clear os ADV_CLR_RX a"
  have mid: "vc_mid tls ?b" by (rule mid_frame [OF vc_inv_mid [OF assms] vc_buf_clear_frame])
  then have "\<And>i. va_ssl ?b = Some i \<Longrightarrow> 0 \<le> va_sk ?b \<Longrightarrow> si_ssl i" "va_stk ?b ! 0 = Some NETDOWN"
    by (auto simp: vc_mid_def sess_def stk_ok_def)
  then show "\<exists>a'. vc_try_poll os a = Ok a' \<and> stk_curnt a' = Ok NETDOWN \<and> va_sk a' < 0"
    using cur by (cases "va_ssl ?b") (auto simp: vc_try_poll_def vc_idle_poll_def excp_init_eq [OF mid]
      vc_netdown_init_def drop_session_def stk_curnt_def stk_empty_def Let_def)
  have "call_recv (Suc n) os buf len a = call_recv n os buf len (stk_pop a)" for n
    using cur by (simp add: vc_idle_recv_def)
  from this [of 11] cur show "vc_try_recv os buf len a = call_recv 11 os buf len (stk_pop a)"
    by (simp add: vc_try_recv_def FUEL_def)
  show "va_top (stk_pop a) = 1"
    using assms cur by (cases rule: inv_cases) (auto simp: stk_pop_def stk_empty_def)
next
  assume "stk_curnt a = Ok NETDOWN"
  then show "vc_try_poll os a = Ok a" by (simp add: vc_try_poll_def)
qed

lemma keepalive_witness:
  "\<exists>a'. vc_try_poll sample_os (sample_attr 5 None 2 [NETDOWN, NETUP, IDLE] []) = Ok a' \<and> va_sk a' < 0"
  using keepalive [OF sample_attr_inv(3) [of "[]"], of sample_os]
  by (auto simp: stk_curnt_def stk_empty_def)

subsection \<open>Flow control towards the device\<close>

lemma both_updates_frame: "io_frame a (update_both os a)"
  unfolding update_both_def by (rule io_frame_trans [OF vc_buf_update_frame vc_buf_update_frame])

lemma rpls_init:
  assumes "vc_inv tls a" "va_top a = 1" "s \<in> {NETUP, PAUSE}" "io_frame a a1"
  shows "\<exists>a'. vc_init os (stk_rpls (tid_inc a1) s) = Ok a' \<and> stk_curnt a' = Ok s \<and> va_top a' = 1 \<and>
    va_sk a' = va_sk a"
proof -
  let ?b = "stk_rpls (tid_inc a1) s"
  have b: "va_top ?b = 1" "va_sk ?b = va_sk a" "length (va_stk ?b) = STACK_MAX" "va_stk ?b ! 1 = Some s"
    using assms by (auto simp: vc_inv_def stk_ok_def io_frame_def stk_rpls_def stk_empty_def tid_inc_def STACK_MAX_def)
  then have "stk_curnt ?b = Ok s" by (simp add: stk_curnt_def stk_empty_def STACK_MAX_def)
  then have "call_init (Suc n) os ?b = Ok (update_both os ?b)" for n
    using assms(3) by (auto simp: vc_netup_init_def vc_pause_init_def)
  from this [of 11] have "vc_init os ?b = Ok (update_both os ?b)" by (simp add: vc_init_def FUEL_def)
  moreover have "va_top (update_both os ?b) = 1" "va_sk (update_both os ?b) = va_sk a"
    "va_stk (update_both os ?b) = va_stk ?b"
    using both_updates_frame [of ?b os] b by (auto simp: io_frame_def)
  ultimately show ?thesis using b by (auto simp: stk_curnt_def stk_empty_def STACK_MAX_def)
qed

lemma cur_top: "vc_inv tls a \<Longrightarrow> stk_curnt a = Ok NETUP \<or> stk_curnt a = Ok PAUSE \<Longrightarrow> va_top a = 1"
  by (cases rule: inv_cases) auto

text \<open>
  C19. Flow control follows the ring: when the transmit ring towards the tty is not empty, Net Up
  announces no room (a queue-free frame with 0) and becomes Pause; when the driver has drained it,
  Pause announces 1024 bytes and becomes Net Up; in the other states neither does anything. The
  connection and the rest of the stack stay.
\<close>

theorem pause_resume:
  assumes "vc_inv tls a"
  shows "(stk_curnt a = Ok NETUP \<longrightarrow>
      vc_check_send os (vc_frame (va_tid a) VCOM_CMD_QUEUEFREE 0 0 []) a = Ok (0, a1) \<longrightarrow>
      (\<exists>a'. vc_try_pause os a = Ok a' \<and> stk_curnt a' = Ok PAUSE \<and> va_top a' = 1 \<and> va_sk a' = va_sk a)) \<and>
    (stk_curnt a = Ok PAUSE \<longrightarrow>
      vc_check_send os (vc_frame (va_tid a) VCOM_CMD_QUEUEFREE 0 1024 []) a = Ok (0, a1) \<longrightarrow>
      (\<exists>a'. vc_try_resume os a = Ok a' \<and> stk_curnt a' = Ok NETUP \<and> va_top a' = 1 \<and> va_sk a' = va_sk a)) \<and>
    (\<forall>s. stk_curnt a = Ok s \<and> s \<noteq> NETUP \<longrightarrow> vc_try_pause os a = Ok a) \<and>
    (\<forall>s. stk_curnt a = Ok s \<and> s \<noteq> PAUSE \<longrightarrow> vc_try_resume os a = Ok a)"
proof (intro conjI impI allI)
  have fr: "io_frame a a1" if "stk_curnt a = Ok NETUP \<or> stk_curnt a = Ok PAUSE" "vc_check_send os pkt a = Ok (0, a1)" for pkt
    using vc_check_send_ok [of tls a os pkt] cur_top [OF assms that(1)] assms that(2) by (auto simp: vc_inv_def)
  {
    assume c: "stk_curnt a = Ok NETUP"
      and s: "vc_check_send os (vc_frame (va_tid a) VCOM_CMD_QUEUEFREE 0 0 []) a = Ok (0, a1)"
    then have "vc_try_pause os a = vc_init os (stk_rpls (tid_inc a1) PAUSE)"
      by (simp add: vc_try_pause_def vc_netup_pause_def send_qfsize_def pack_qfsize_eq c_uint_def)
    with rpls_init [OF assms cur_top [OF assms] _ fr [OF _ s], of PAUSE] c
    show "\<exists>a'. vc_try_pause os a = Ok a' \<and> stk_curnt a' = Ok PAUSE \<and> va_top a' = 1 \<and> va_sk a' = va_sk a"
      by simp
  next
    assume c: "stk_curnt a = Ok PAUSE"
      and s: "vc_check_send os (vc_frame (va_tid a) VCOM_CMD_QUEUEFREE 0 1024 []) a = Ok (0, a1)"
    then have "vc_try_resume os a = vc_init os (stk_rpls (tid_inc a1) NETUP)"
      by (simp add: vc_try_resume_def vc_pause_resume_def send_qfsize_def pack_qfsize_eq c_uint_def)
    with rpls_init [OF assms cur_top [OF assms] _ fr [OF _ s], of NETUP] c
    show "\<exists>a'. vc_try_resume os a = Ok a' \<and> stk_curnt a' = Ok NETUP \<and> va_top a' = 1 \<and> va_sk a' = va_sk a"
      by simp
  }
qed (auto simp: vc_try_pause_def vc_try_resume_def)

lemma pause_resume_witness:
  "\<exists>a'. vc_try_pause sample_os (sample_attr 5 None 1 [NETDOWN, NETUP] []) = Ok a' \<and> stk_curnt a' = Ok PAUSE"
proof -
  let ?a = "sample_attr 5 None 1 [NETDOWN, NETUP] []"
  have "stk_curnt ?a = Ok NETUP" by (simp add: stk_curnt_def stk_empty_def)
  moreover note sample_check_send [of ?a, OF _ _ sample_attr_simps(5), of "vc_frame (va_tid ?a) VCOM_CMD_QUEUEFREE 0 0 []"]
  ultimately show ?thesis using pause_resume [OF sample_attr_inv(1) [of "[]"], of sample_os] by auto
qed

subsection \<open>The receive buffer\<close>

text \<open>What a receive of \<open>n\<close> bytes at an offset may change of the buffer.\<close>

definition fits :: "nat \<Rightarrow> nat \<Rightarrow> byte list \<Rightarrow> byte list \<Rightarrow> bool" where
  "fits off n buf buf' \<longleftrightarrow> length buf' = length buf \<and> take off buf' = take off buf \<and>
     drop (off + n) buf' = drop (off + n) buf"

lemma fits_refl [simp]: "fits off n buf buf"
  by (simp add: fits_def)

lemma fits_put:
  assumes "fits off n buf buf'" "off \<le> o'" "o' + length bs \<le> off + n" "off + n \<le> length buf"
  shows "fits off n buf (put_bytes o' bs buf')"
proof -
  have "take off (put_bytes o' bs buf') = take off buf'"
    "drop (off + n) (put_bytes o' bs buf') = drop (off + n) buf'"
    using assms by (auto simp: fits_def put_bytes_def)
  then show ?thesis using assms by (simp add: fits_def)
qed

lemma recv_lens:
  assumes "io_law os"
  shows "os_recv os sk n w = (r, bs, w') \<Longrightarrow> r \<le> int n \<and> length bs = nat r"
    "os_SSL_read os n w = (r, bs, w') \<Longrightarrow> r \<le> int n \<and> length bs = nat r"
  using assms unfolding io_law_def by (metis fst_conv snd_conv)+

lemma second_fits:
  assumes "io_law os" "recv_second_chance os o' m a = (r, a')" "fits off n buf (va_rbuf a)"
    "off \<le> o'" "o' + m \<le> off + n" "off + n \<le> length buf"
  shows "fits off n buf (va_rbuf a')"
proof -
  obtain s w1 where s: "os_select os (va_sk a + 1) (FD_SET (va_sk a) []) [] [] (0, 10000) (va_w a) = (s, w1)"
    by (metis prod.exhaust)
  obtain r1 bs w2 where r: "os_recv os (va_sk a) m w1 = (r1, bs, w2)" by (metis prod_cases3)
  have "length bs \<le> m" using recv_lens(1) [OF assms(1) r] by auto
  then have "fits off n buf (put_bytes o' bs (va_rbuf a))"
    using assms(3-) by (intro fits_put) auto
  with assms(2,3) s r show ?thesis
    by (auto simp: recv_second_chance_def store_rbuf_def split: if_splits)
qed

lemma tcp_fits:
  assumes "io_law os" "vc_frame_recv_tcp os off n a = (r, a')" "off + n \<le> length (va_rbuf a)"
  shows "fits off n (va_rbuf a) (va_rbuf a') \<and> (0 < r \<longrightarrow> r = int n)"
proof -
  obtain l bs w1 where r: "os_recv os (va_sk a) n (va_w a) = (l, bs, w1)" by (metis prod_cases3)
  let ?a1 = "store_rbuf off bs (a\<lparr>va_w := w1\<rparr>)"
  obtain l2 a2 where s: "recv_second_chance os (off + nat l) (n - nat l) ?a1 = (l2, a2)" by (metis prod.exhaust)
  from recv_lens(1) [OF assms(1) r] have l: "l \<le> int n" "length bs = nat l" by auto
  then have f1: "fits off n (va_rbuf a) (va_rbuf ?a1)"
    using assms(3) by (auto simp: store_rbuf_def intro: fits_put)
  have "fits off n (va_rbuf a) (va_rbuf a2)"
    using l assms(3) by (intro second_fits [OF assms(1) s f1]) auto
  with f1 assms(2) r s l show ?thesis
    by (auto simp: vc_frame_recv_tcp_def Let_def split: if_splits)
qed

lemma ssl_read_post:
  assumes "io_law os" "si_ssl i"
  shows "out_ok True (ssl_post i (\<lambda>r bs. 0 < r \<longrightarrow> r \<le> int n \<and> length bs = nat r)) (ssl_recv_direct os n i w)"
    "out_ok True (ssl_post i (\<lambda>r bs. 0 < r \<longrightarrow> r \<le> int n \<and> length bs = nat r)) (ssl_recv_simple os n ms i w)"
proof -
  let ?P = "\<lambda>r bs. 0 < r \<longrightarrow> r \<le> int n \<and> length (bs :: byte list) = nat r"
  have d: "out_ok True (ssl_post j ?P) (ssl_recv_direct os n j w)" if "si_ssl j" for j w
    unfolding ssl_recv_direct_def
    using assms(1) by (intro ssl_action_direct_ok that) (auto simp: io_law_def SSL_OPS_FAIL_def SSL_OPS_SELECT_def)
  from d [OF assms(2)] show "out_ok True (ssl_post i ?P) (ssl_recv_direct os n i w)" .
  show "out_ok True (ssl_post i ?P) (ssl_recv_simple os n ms i w)"
    unfolding ssl_recv_simple_def using d by (intro ssl_action_simple_ok assms(2)) blast
qed

lemma tls_fits:
  assumes "io_law os" "si_ssl i" "stk_ok a" "off + n \<le> length (va_rbuf a)"
  shows "out_ok True (\<lambda>(r, a'). fits off n (va_rbuf a) (va_rbuf a') \<and> (0 < r \<longrightarrow> r = int n))
    (vc_frame_recv_ssl os i off n a)"
proof (cases "ssl_recv_direct os n i (va_w a)")
  case (Ok x)
  obtain l bs en i1 w1 where x: "x = (l, bs, en, i1, w1)" by (metis prod_cases5)
  with ssl_read_post(1) [OF assms(1,2), of n "va_w a"] Ok
  have p: "ssl_post i (\<lambda>r bs. 0 < r \<longrightarrow> r \<le> int n \<and> length bs = nat r) (l, bs, en, i1, w1)" by simp
  define a1 where "a1 = (if 0 < l then store_rbuf off bs a else a)\<lparr>va_ssl := Some i1, va_w := w1\<rparr>"
  have i1: "si_ssl i1" and l: "0 < l \<Longrightarrow> l \<le> int n \<and> length bs = nat l"
    using p assms(2) by (auto simp: ssl_post_def)
  have f1: "fits off n (va_rbuf a) (va_rbuf a1)"
    using l assms(4) by (auto simp: a1_def store_rbuf_def intro!: fits_put)
  have lg: "stk_log x = Ok x" if "va_top x = va_top a" "va_stk x = va_stk a" for x :: "'a vc_attr"
    using that assms(3) by (intro stk_log_ok) (simp add: stk_ok_def)
  have a1: "va_top a1 = va_top a" "va_stk a1 = va_stk a" by (simp_all add: a1_def)
  have f2: "fits off n (va_rbuf a) (va_rbuf (store_rbuf (off + nat l) bs2 a1))"
    if "0 < l" "l < int n" "length bs2 \<le> n - nat l" for bs2
    using that f1 assms(4) by (auto simp: store_rbuf_def intro!: fits_put)
  show ?thesis
    unfolding vc_frame_recv_ssl_def Ok x out_bind.simps prod.case Let_def a1_def [symmetric]
    using f1 f2 l by (auto simp: lg a1 SSL_OPS_FAIL_def SSL_OPS_SELECT_def ssl_post_def
        intro!: out_ok_bindI [OF ssl_read_post(2) [OF assms(1) i1, of "n - nat l"]])
qed (use ssl_read_post(1) [OF assms(1,2), of n "va_w a"] in \<open>auto simp: vc_frame_recv_ssl_def\<close>)

lemma excp_netdown:
  assumes "vc_mid tls a"
  shows "\<exists>a'. excp_init os (vc_init os) a = Ok a' \<and> stk_curnt a' = Ok NETDOWN \<and> va_sk a' < 0 \<and>
    va_rbuf a' = va_rbuf a"
proof -
  have e: "va_rbuf (stk_excp os a) = va_rbuf a"
    by (auto simp: stk_excp_def Let_def split: prod.splits)
  have "\<And>i. va_ssl a = Some i \<Longrightarrow> 0 \<le> va_sk a \<Longrightarrow> si_ssl i" "va_stk a ! 0 = Some NETDOWN"
    using assms by (auto simp: vc_mid_def sess_def stk_ok_def)
  then show ?thesis
    unfolding excp_init_eq [OF assms] vc_netdown_init_def drop_session_def
    by (cases "va_ssl a") (auto simp: e Let_def stk_curnt_def stk_empty_def)
qed

text \<open>
  C16. Frames stay inside the receive buffer: receiving \<open>n\<close> bytes at an offset, in plain TCP or
  TLS and in one piece or two, changes nothing of the buffer outside those bytes, and a positive
  result means that all of them arrived. A payload longer than the room after the header is never
  read: the session is torn down instead.
\<close>

theorem frame_fits:
  assumes "io_law os" "vc_inv tls a" "0 \<le> va_sk a" "length (va_rbuf a) = RBUF_SIZE"
  shows "(off + n \<le> RBUF_SIZE \<longrightarrow>
      out_ok tls (\<lambda>(r, a'). fits off n (va_rbuf a) (va_rbuf a') \<and> (0 < r \<longrightarrow> r = int n))
        (vc_frame_recv os off n a)) \<and>
    (RBUF_SIZE - 20 < unat (pkt_len (va_rbuf a)) \<longrightarrow>
      (\<exists>a'. recv_body os a = Ok a' \<and> stk_curnt a' = Ok NETDOWN \<and> va_sk a' < 0 \<and> va_rbuf a' = va_rbuf a))"
proof (intro conjI impI)
  have ok: "stk_ok a" and i: "\<And>i. va_ssl a = Some i \<Longrightarrow> tls \<and> si_ssl i"
    using assms(2,3) by (auto simp: vc_inv_def sess_def)
  assume "off + n \<le> RBUF_SIZE"
  then have n: "off + n \<le> length (va_rbuf a)" using assms(4) by simp
  obtain r a' where t: "vc_frame_recv_tcp os off n a = (r, a')" by (metis prod.exhaust)
  show "out_ok tls (\<lambda>(r, a'). fits off n (va_rbuf a) (va_rbuf a') \<and> (0 < r \<longrightarrow> r = int n))
      (vc_frame_recv os off n a)"
    using tcp_fits [OF assms(1) t n] tls_fits [OF assms(1) _ ok n] i t
    by (cases "va_ssl a") (auto simp: vc_frame_recv_def)
next
  assume big: "RBUF_SIZE - 20 < unat (pkt_len (va_rbuf a))"
  define a1 where "a1 = (if pkt_cmd (va_rbuf a) = VCOM_CMD_DATAREADY then snd (vc_buf_update os VC_BUF_TX a) else a)"
  have "io_frame a a1" by (simp add: a1_def vc_buf_update_frame)
  from excp_netdown [OF mid_frame [OF vc_inv_mid [OF assms(2)] this], of os]
  have "\<exists>a'. excp_init os (vc_init os) a1 = Ok a' \<and> stk_curnt a' = Ok NETDOWN \<and> va_sk a' < 0 \<and>
    va_rbuf a' = va_rbuf a1" .
  moreover have "va_rbuf a1 = va_rbuf a"
    by (auto simp: a1_def vc_buf_update_def set_ring_def Let_def split: prod.splits)
  moreover have "recv_body os a = excp_init os (vc_init os) a1"
    using big by (simp add: recv_body_def Let_def a1_def)
  ultimately show "\<exists>a'. recv_body os a = Ok a' \<and> stk_curnt a' = Ok NETDOWN \<and> va_sk a' < 0 \<and>
    va_rbuf a' = va_rbuf a" by simp
qed

lemma frame_fits_witness:
  "out_ok False (\<lambda>(r, a'). length (va_rbuf a') = 4096)
     (vc_frame_recv sample_os 0 20 (sample_attr 5 None 1 [NETDOWN, NETUP] [1, 2, 3]))"
proof -
  let ?a = "sample_attr 5 None 1 [NETDOWN, NETUP] [1, 2, 3]"
  have "io_law sample_os" by (rule link_io_law [OF sample_net_laws(2)])
  from frame_fits [OF this sample_attr_inv(1) [of "[1, 2, 3]"], of 0 20]
  have "out_ok False (\<lambda>(r, a'). fits 0 20 (va_rbuf ?a) (va_rbuf a') \<and> (0 < r \<longrightarrow> r = 20))
      (vc_frame_recv sample_os 0 20 ?a)" by (simp add: RBUF_SIZE_def)
  then show ?thesis by (rule out_ok_mono) (auto simp: fits_def)
qed

end
