(* ===== verification/Vcom_EndToEnd.thy ===== *)
theory Vcom_EndToEnd
  imports Vcom_Daemon
begin

text \<open>
  Daemon and driver together: the daemon's handlers run on the operating system of Vcom_Link, so
  that a byte can be followed from a socket through the mapped pages and the ioctls of the driver
  into the tty layer, and from the driver's queue into a frame on the socket.
\<close>

subsection \<open>The ioctls the daemon uses\<close>

lemma link_ioctl_get:
  "os_ioctl (link_os lin ops net) ADVVCOM_IOCGTXHEAD x (v, t, n) = (0, rb_head (v_tx v), v, t, n)"
  "os_ioctl (link_os lin ops net) ADVVCOM_IOCGTXTAIL x (v, t, n) = (0, rb_tail (v_tx v), v, t, n)"
  "os_ioctl (link_os lin ops net) ADVVCOM_IOCGRXHEAD x (v, t, n) = (0, rb_head (v_rx v), v, t, n)"
  "os_ioctl (link_os lin ops net) ADVVCOM_IOCGRXTAIL x (v, t, n) = (0, rb_tail (v_rx v), v, t, n)"
  by (simp_all add: link_os_def link_ioctl_def user_int_def ioctl_get put_user_def reply_def)

lemma link_stxtail:
  assumes "0 \<le> k" "k < 2 ^ 31"
  shows "os_ioctl (link_os lin ops net) ADVVCOM_IOCSTXTAIL k (v, t, n) =
    (case adv_uart_recv_chars ops (v\<lparr>v_tx := move_rb_tail (v_tx v) k\<rparr>) t of (v', t') \<Rightarrow> (0, k, v', t', n))"
  using assms
  by (simp add: is_c_int_def link_os_def link_ioctl_def user_int_def ioctl_set get_user_def split: prod.splits)

lemma link_srxhead:
  assumes "0 \<le> k" "k < 2 ^ 31"
  shows "os_ioctl (link_os lin ops net) ADVVCOM_IOCSRXHEAD k (v, t, n) =
    (0, k, v\<lparr>v_rx := move_rb_head (v_rx v) k\<rparr>, t, n)"
  using assms
  by (simp add: is_c_int_def link_os_def link_ioctl_def user_int_def ioctl_set get_user_def)

lemma link_update_tx:
  assumes "va_w a = (v, t, n)"
  shows "vc_buf_update (link_os lin ops net) VC_BUF_TX a =
    (0, a\<lparr>va_tx := (va_tx a)\<lparr>rb_head := rb_head (v_tx v), rb_tail := rb_tail (v_tx v)\<rparr>\<rparr>)"
  using assms by (simp add: vc_buf_update_def link_ioctl_get get_ring_def set_ring_def)

lemma link_update_rx:
  assumes "va_w a = (v, t, n)"
  shows "vc_buf_update (link_os lin ops net) VC_BUF_RX a =
    (0, a\<lparr>va_rx := (va_rx a)\<lparr>rb_head := rb_head (v_rx v), rb_tail := rb_tail (v_rx v)\<rparr>\<rparr>)"
  using assms by (simp add: vc_buf_update_def link_ioctl_get get_ring_def set_ring_def)

subsection \<open>Writing into the transmit page\<close>

text \<open>
  The daemon's copy of a ring's indices: same tail and size, and no more room than there is. It
  is exact after an update; the driver can only take bytes out afterwards.
\<close>

definition tx_view :: "ring_buf \<Rightarrow> kring \<Rightarrow> bool" where
  "tx_view r b \<longleftrightarrow> rb_inv r \<and> rb_tail r = rb_tail b \<and> rb_size r = rb_size b \<and> rb_begin r = rb_begin b \<and>
     get_rb_room r \<le> get_rb_room b"

definition wrap_write :: "ring_buf \<Rightarrow> byte list \<Rightarrow> byte list \<Rightarrow> byte list" where
  "wrap_write r bs d =
     (if int (length bs) \<le> get_rb_lroom r then put_bytes (nat (rb_tail r)) bs d
      else put_bytes 0 (drop (nat (get_rb_lroom r)) bs)
             (put_bytes (nat (rb_tail r)) (take (nat (get_rb_lroom r)) bs) d))"

lemma wrap_write_push:
  assumes "kr_inv b" "tx_view r b" "int (length bs) \<le> get_rb_room r"
  shows "rb_contents (move_rb_tail (b\<lparr>rb_data := wrap_write r bs (rb_data b)\<rparr>) (int (length bs))) =
      rb_contents b @ bs \<and>
    kr_inv (move_rb_tail (b\<lparr>rb_data := wrap_write r bs (rb_data b)\<rparr>) (int (length bs)))"
proof (cases "int (length bs) \<le> get_rb_lroom r")
  case True
  have "int (length bs) \<le> get_rb_lroom b"
    using True assms(2) by (auto simp: tx_view_def get_rb_lroom_def Let_def split: if_splits)
  from rb_append_linear [OF assms(1) this] rb_append_linear_inv [OF assms(1) this] True assms(2)
  show ?thesis by (simp add: wrap_write_def rb_put_def tx_view_def)
next
  case False
  let ?l = "get_rb_lroom r" and ?b1 = "kr_push (take (nat (get_rb_lroom r)) bs) b"
  have ri: "rb_inv b" "rb_inv r" using assms(1,2) by (auto simp: kr_inv_def tx_view_def)
  have l: "?l = rb_size b - rb_tail b" "get_rb_lroom b = ?l" "0 < ?l"
    using False assms(2,3) ri by (auto simp: tx_view_def get_rb_lroom_def Let_def rb_inv_def split: if_splits)
  have t1: "rb_tail ?b1 = 0"
    using ri l False wrap_add [of "rb_tail b" "rb_size b" ?l]
    by (auto simp: kr_push_def move_rb_tail_def rb_inv_def)
  have "c_int (rb_tail b + int (length bs)) smod rb_size b = int (length bs) - ?l"
    "c_int (0 + (int (length bs) - ?l)) smod rb_size b = int (length bs) - ?l"
    using ri l False assms(3) wrap_add [of "rb_tail b" "rb_size b" "int (length bs)"]
      wrap_add [of 0 "rb_size b" "int (length bs) - ?l"] rb_length_bounds [OF ri(2)] assms(2)
    by (auto simp: rb_inv_def tx_view_def get_rb_room_def)
  then have "move_rb_tail (b\<lparr>rb_data := wrap_write r bs (rb_data b)\<rparr>) (int (length bs)) =
      kr_push (drop (nat ?l) bs) ?b1"
    using False t1 assms(2) l unfolding kr_push_def [of "drop (nat ?l) bs"]
    by (simp add: wrap_write_def move_rb_tail_def rb_put_def kr_push_def tx_view_def of_nat_diff)
  moreover have "length bs \<le> nat (get_rb_room b)" using assms(2,3) by (auto simp: tx_view_def)
  ultimately show ?thesis
    using kprod.push_wrapped [OF assms(1), of bs] l False by simp
qed

lemma drv_inv_data:
  assumes "drv_inv v" "length d = length (rb_data (v_tx v))"
  shows "drv_inv (v\<lparr>v_tx := (v_tx v)\<lparr>rb_data := d\<rparr>\<rparr>)"
  using assms by (simp add: drv_inv_def kr_ready_def kr_inv_def rb_inv_def rb_clean_def)

lemma map_write_wrapped:
  assumes "drv_inv v" "tx_view r (v_tx v)" "int (length bs) \<le> get_rb_room r"
  shows "(if get_rb_lroom r \<ge> int (length bs) then map_write (rb_begin r + get_rb_tail r) bs v
     else map_write (rb_begin r) (drop (nat (get_rb_lroom r)) bs)
       (map_write (rb_begin r + get_rb_tail r) (take (nat (get_rb_lroom r)) bs) v)) =
    v\<lparr>v_tx := (v_tx v)\<lparr>rb_data := wrap_write r bs (rb_data (v_tx v))\<rparr>\<rparr>"
proof -
  have r: "rb_inv r" "rb_size r = 4096" "rb_begin r = 0" "length (rb_data (v_tx v)) = 4096"
    using assms(1,2) by (auto simp: drv_inv_def tx_view_def kr_ready_def kr_inv_def PAGE_SIZE_def)
  note b = rb_length_bounds [OF r(1)]
  have t: "0 \<le> rb_tail r" "rb_tail r < 4096" using r by (auto simp: rb_inv_def)
  show ?thesis
  proof (cases "int (length bs) \<le> get_rb_lroom r")
    case True
    then have "rb_tail r + int (length bs) \<le> 4096" using b(8) r(2) by simp
    with map_write_tx [OF assms(1) t(1) this] True r(3) show ?thesis
      by (simp add: wrap_write_def get_rb_tail_def)
  next
    case False
    let ?x = "take (nat (get_rb_lroom r)) bs" and ?y = "drop (nat (get_rb_lroom r)) bs"
    let ?d = "put_bytes (nat (rb_tail r)) ?x (rb_data (v_tx v))"
    have lx: "int (length ?x) = get_rb_lroom r" using False b(4) by simp
    then have x: "rb_tail r + int (length ?x) \<le> 4096" using b(8) r(2) by simp
    have y: "0 + int (length ?y) \<le> 4096" using assms(3) b(1,2,4) r(2) by (auto simp: get_rb_room_def)
    have inv: "drv_inv (v\<lparr>v_tx := (v_tx v)\<lparr>rb_data := ?d\<rparr>\<rparr>)"
      using x t r(4) by (intro drv_inv_data [OF assms(1)] length_put_bytes) linarith
    show ?thesis
      using False map_write_tx [OF assms(1) t(1) x] map_write_tx [OF inv _ y] r(3)
      by (simp add: wrap_write_def get_rb_tail_def)
  qed
qed

lemma link_recv_data:
  assumes "tty_law ops received" "drv_inv v" "va_w a = (v, t, n)" "tx_view (va_tx a) (v_tx v)"
    "0 \<le> k" "k \<le> get_rb_room (va_tx a)" "20 + nat k \<le> length buf"
  shows "\<exists>v' t'. recv_data (link_os lin ops net) buf k a = a\<lparr>va_w := (v', t', n)\<rparr> \<and> drv_inv v' \<and>
    received t' @ rb_contents (v_tx v') = received t @ rb_contents (v_tx v) @ get_bytes 20 (nat k) buf \<and>
    v_rx v' = v_rx v \<and> v_attr v' = v_attr v"
proof -
  let ?r = "va_tx a" and ?bs = "get_bytes 20 (nat k) buf"
  let ?v1 = "v\<lparr>v_tx := (v_tx v)\<lparr>rb_data := wrap_write (va_tx a) ?bs (rb_data (v_tx v))\<rparr>\<rparr>"
  have lk: "int (length ?bs) = k" "k < 2 ^ 31"
    using assms(4-7) rb_length_bounds(1,2) [of ?r] by (auto simp: get_bytes_def tx_view_def rb_inv_def get_rb_room_def)
  have sp: "take (nat (get_rb_lroom ?r)) ?bs = get_bytes 20 (nat (get_rb_lroom ?r)) buf"
    "drop (nat (get_rb_lroom ?r)) ?bs = get_bytes (20 + nat (get_rb_lroom ?r)) (nat (k - get_rb_lroom ?r)) buf"
    if "get_rb_lroom ?r < k"
    using that rb_length_bounds(4) [of ?r] assms(4)
    by (auto simp: get_bytes_def tx_view_def min_def drop_take nat_diff_distrib add.commute)
  define v2 where "v2 = ?v1\<lparr>v_tx := move_rb_tail (v_tx ?v1) k\<rparr>"
  obtain v' t' where rc: "adv_uart_recv_chars ops v2 t = (v', t')" by (metis prod.exhaust)
  have push: "rb_contents (v_tx v2) = rb_contents (v_tx v) @ ?bs" "kr_inv (v_tx v2)"
    using wrap_write_push [OF _ assms(4), of ?bs] assms(2,6) lk
    by (auto simp: v2_def drv_inv_def kr_ready_def)
  then have inv: "drv_inv v2"
    using assms(2) by (simp add: drv_inv_def kr_ready_def v2_def rb_clean_def)
  have "recv_data (link_os lin ops net) buf k a = a\<lparr>va_w := (v', t', n)\<rparr>"
    using map_write_wrapped [OF assms(2,4), of ?bs] lk assms(6) sp rc link_stxtail [OF assms(5) lk(2), of lin ops net ?v1 t n]
    by (auto simp: recv_data_def Let_def assms(3) link_os_def v2_def split: if_splits)
  moreover from drv_inv_recv [OF assms(1) inv rc] have "drv_inv v'" .
  moreover have "kr_ready (v_tx v2)" using inv by (simp add: drv_inv_def)
  from adv_uart_recv_chars_spec [OF assms(1) this rc] push(1)
  have "received t' @ rb_contents (v_tx v') = received t @ rb_contents (v_tx v) @ ?bs"
    by (metis append.assoc append_take_drop_id)
  ultimately show ?thesis
    using adv_uart_recv_chars_frame [OF rc] by (auto simp: v2_def)
qed

subsection \<open>From the socket to the tty\<close>

lemma frame_parts:
  "length (take 20 (vc_frame tid cmd p1 p2 ext)) = 20" "vc_frame tid cmd p1 p2 ext = take 20 (vc_frame tid cmd p1 p2 ext) @ ext"
  by (simp_all add: vc_frame_def VCOM_MAGIC_def)

lemma head_fields:
  "pkt_cmd (take 20 (vc_frame tid cmd p1 p2 ext) @ r) = cmd"
  "pkt_len (take 20 (vc_frame tid cmd p1 p2 ext) @ r) = of_nat (length ext)"
  by (simp_all add: vc_frame_def VCOM_MAGIC_def get_bytes_skip get_bytes_front pkt_cmd_def pkt_len_def)

lemma link_recv:
  "os_recv net sk k n = (r, bs, n') \<Longrightarrow> os_recv (link_os lin ops net) sk k (v, t, n) = (r, bs, v, t, n')"
  by (simp add: link_os_def on_net2_def)

lemma tcp_whole:
  assumes "va_ssl a = None" "va_w a = (v, t, n)" "0 < k" "os_recv net (va_sk a) k n = (int k, bs, n')"
  shows "vc_frame_recv (link_os lin ops net) off k a = Ok (int k, store_rbuf off bs (a\<lparr>va_w := (v, t, n')\<rparr>))"
  using assms link_recv [OF assms(4), of lin ops v t]
  by (simp add: vc_frame_recv_def vc_frame_recv_tcp_def)

lemma tx_view_updated:
  assumes "drv_inv v" "rb_begin r = 0" "rb_size r = 4096"
  shows "tx_view (r\<lparr>rb_head := rb_head (v_tx v), rb_tail := rb_tail (v_tx v)\<rparr>) (v_tx v)"
    "get_rb_room (r\<lparr>rb_head := rb_head (v_tx v), rb_tail := rb_tail (v_tx v)\<rparr>) = get_rb_room (v_tx v)"
  using assms by (auto simp: tx_view_def drv_inv_def kr_ready_def kr_inv_def rb_inv_def PAGE_SIZE_def
      get_rb_room_def get_rb_length_def)

lemma recv_dataready:
  assumes "tty_law ops received" "drv_inv v" "va_w a = (v, t, n)" "tx_view (va_tx a) (v_tx v)"
    "stk_ok a" "stk_curnt a = Ok s" "s \<in> {NETUP, PAUSE}"
    "buf = vc_frame tid VCOM_CMD_DATAREADY STATUS_SUCCESS (of_nat (length d)) d @ rest" "length d < 2 ^ 16"
    "int (length d) \<le> get_rb_room (va_tx a)"
  shows "\<exists>v' t'. vc_try_recv (link_os lin ops net) buf len a =
      (if len < 12 then excp_init (link_os lin ops net) (vc_init (link_os lin ops net)) a
       else Ok (a\<lparr>va_w := (v', t', n)\<rparr>)) \<and> drv_inv v' \<and>
    received t' @ rb_contents (v_tx v') = received t @ rb_contents (v_tx v) @ d"
proof -
  let ?os = "link_os lin ops net" and ?k = "int (length d)"
  have cr: "vc_check_recv buf = Some ?k"
    using check_recv_frame [of d] assms(8,9) by simp
  have bs: "get_bytes 20 (length d) buf = d" "20 + nat ?k \<le> length buf"
    using frame_parts(1) [of tid VCOM_CMD_DATAREADY STATUS_SUCCESS "of_nat (length d)" d]
    by (auto simp: assms(8) get_bytes_def vc_frame_def VCOM_MAGIC_def)
  from link_recv_data [OF assms(1-4) _ assms(10) bs(2), of lin net] bs(1) obtain v' t' where
    rd: "recv_data ?os buf ?k a = a\<lparr>va_w := (v', t', n)\<rparr>" "drv_inv v'"
    "received t' @ rb_contents (v_tx v') = received t @ rb_contents (v_tx v) @ d" by auto
  have "ret_curnt (a\<lparr>va_w := (v', t', n)\<rparr>) = Ok (a\<lparr>va_w := (v', t', n)\<rparr>)"
    using assms(5) by (intro ret_curnt_ok) (simp add: stk_ok_def)
  then have "vc_common_recv ?os ini rcv buf len a =
      (if len < 12 then excp_init ?os ini a else Ok (a\<lparr>va_w := (v', t', n)\<rparr>))" for ini rcv
    using cr rd(1) assms(8,10) by (simp add: vc_common_recv_def Let_def vcom_cmd_defs)
  then have "call_recv (Suc m) ?os buf len a = (if len < 12 then excp_init ?os (vc_init ?os) a
      else Ok (a\<lparr>va_w := (v', t', n)\<rparr>))" for m
    using assms(6,7) by auto
  from this [of 11] have "vc_try_recv ?os buf len a = (if len < 12 then excp_init ?os (vc_init ?os) a
      else Ok (a\<lparr>va_w := (v', t', n)\<rparr>))"
    using assms(6,7) by (auto simp: vc_try_recv_def FUEL_def)
  with rd(2,3) show ?thesis by blast
qed

text \<open>
  C3. A byte from the device reaches the tty: when a data frame arrives on the socket of a
  connected port and its payload fits into the room of the ring, one receive of the daemon
  copies it through the mapped page (around its end if need be), moves the ring's tail by an
  ioctl, and the driver hands bytes on to the tty. What the tty has received followed by what is
  left in the ring is what it was before followed by the payload; the state of the daemon is kept.
\<close>

theorem data_reaches_tty:
  assumes "tty_law ops received" "drv_inv v"
    and "vc_inv False a" "stk_curnt a = Ok s" "s \<in> {NETUP, PAUSE}" "length (va_rbuf a) = RBUF_SIZE"
    and "va_w a = (v, t, n)" "rb_begin (va_tx a) = 0" "rb_size (va_tx a) = 4096"
    and "f = vc_frame tid VCOM_CMD_DATAREADY STATUS_SUCCESS (of_nat (length d)) d" "0 < length d" "length d \<le> 4076"
    and "os_recv net (va_sk a) 20 n = (20, take 20 f, n1)"
    and "os_recv net (va_sk a) (length d) n1 = (int (length d), d, n2)"
    and "int (length d) \<le> get_rb_room (v_tx v)"
  shows "\<exists>a' v' t'. vc_recv_desp (link_os lin ops net) a = Ok a' \<and> va_w a' = (v', t', n2) \<and> drv_inv v' \<and>
    received t' @ rb_contents (v_tx v') = received t @ rb_contents (v_tx v) @ d \<and>
    io_frame a a' \<and> stk_curnt a' = Ok s"
proof -
  let ?os = "link_os lin ops net"
  have ssl: "va_ssl a = None" "stk_ok a" using assms(3) by (auto simp: vc_inv_def sess_def)
  define a1 where "a1 = store_rbuf 0 (take 20 f) (a\<lparr>va_w := (v, t, n1)\<rparr>)"
  define a2 where "a2 = a1\<lparr>va_tx := (va_tx a)\<lparr>rb_head := rb_head (v_tx v), rb_tail := rb_tail (v_tx v)\<rparr>\<rparr>"
  define a3 where "a3 = store_rbuf 20 d (a2\<lparr>va_w := (v, t, n2)\<rparr>)"
  have f: "length (take 20 f) = 20" "f = take 20 f @ d" using assms(10) frame_parts by metis+
  have b1: "va_rbuf a1 = take 20 f @ drop 20 (va_rbuf a)"
    using f(1) assms(6) by (simp add: a1_def store_rbuf_def put_bytes_def)
  have "vc_frame_recv ?os 0 20 a = Ok (20, a1)"
    using tcp_whole [OF ssl(1) assms(7), of 20] assms(13) by (simp add: a1_def)
  moreover have "pkt_cmd (va_rbuf a1) = VCOM_CMD_DATAREADY" "unat (pkt_len (va_rbuf a1)) = length d"
    using assms(10,12) by (simp_all add: b1 head_fields unat_of_nat)
  moreover have "snd (vc_buf_update ?os VC_BUF_TX a1) = a2"
    by (simp add: link_update_tx a1_def a2_def store_rbuf_def)
  moreover have "vc_frame_recv ?os 20 (length d) a2 = Ok (int (length d), a3)"
    using tcp_whole [of a2 v t n1 "length d" net d n2 lin ops 20] assms(11,14) ssl
    by (simp add: a1_def a2_def a3_def store_rbuf_def)
  ultimately have run: "vc_recv_desp ?os a = vc_try_recv ?os (va_rbuf a3) (20 + int (length d)) a3"
    using assms(11,12) ssl
    by (simp add: vc_recv_desp_def recv_body_def Let_def RBUF_SIZE_def)
  have buf: "va_rbuf a3 = f @ drop (20 + length d) (va_rbuf a)"
    using f assms(6,12) b1 by (simp add: a2_def a3_def store_rbuf_def put_bytes_def RBUF_SIZE_def add.commute)
  have fr: "io_frame a a3" by (simp add: a1_def a2_def a3_def io_frame_def)
  have cur: "stk_curnt a3 = Ok s" and ok: "stk_ok a3"
    using assms(4) ssl(2) by (simp_all add: a1_def a2_def a3_def store_rbuf_def stk_curnt_def stk_empty_def stk_ok_def)
  have w3: "va_w a3 = (v, t, n2)" and tx3: "va_tx a3 = (va_tx a)\<lparr>rb_head := rb_head (v_tx v), rb_tail := rb_tail (v_tx v)\<rparr>"
    by (simp_all add: a2_def a3_def store_rbuf_def)
  from recv_dataready [OF assms(1,2) w3 _ ok cur assms(5) buf [unfolded assms(10)],
      where len = "20 + int (length d)" and lin = lin and net = net]
    tx_view_updated [OF assms(2,8,9)] assms(12,15)
  obtain v' t' where "vc_try_recv ?os (va_rbuf a3) (20 + int (length d)) a3 = Ok (a3\<lparr>va_w := (v', t', n2)\<rparr>)"
    "drv_inv v'" "received t' @ rb_contents (v_tx v') = received t @ rb_contents (v_tx v) @ d"
    by (auto simp: tx3)
  with run fr cur show ?thesis by (auto simp: stk_curnt_def stk_empty_def io_frame_def)
qed

lemma data_reaches_tty_witness:
  "\<exists>a' v' t'. vc_recv_desp sample_os (sample_attr 5 None 1 [NETDOWN, NETUP]
      (vc_frame 9 VCOM_CMD_DATAREADY STATUS_SUCCESS 2 [65, 66])) = Ok a' \<and> va_w a' = (v', t', [], []) \<and>
    t' @ rb_contents (v_tx v') = [65, 66]"
proof -
  let ?f = "vc_frame 9 VCOM_CMD_DATAREADY STATUS_SUCCESS 2 [65, 66]"
  let ?a = "sample_attr 5 None 1 [NETDOWN, NETUP] ?f"
  have e: "rb_contents (v_tx sample_port) = []" "get_rb_room (v_tx sample_port) = 4095"
    by (simp_all add: sample_port_def adv_main_init_def rb_contents_def rb_query_defs PAGE_SIZE_def)
  have l: "length ?f = 22" "drop 20 ?f = [65, 66]" by (simp_all add: vc_frame_def VCOM_MAGIC_def)
  have c: "stk_curnt ?a = Ok NETUP" "va_w ?a = (sample_port, [], ?f, [])" "rb_begin (va_tx ?a) = 0"
    "rb_size (va_tx ?a) = 4096"
    by (simp_all add: stk_curnt_def stk_empty_def) (simp_all add: sample_attr_def)
  have r: "os_recv sample_net (va_sk ?a) 20 (?f, []) = (20, take 20 ?f, drop 20 ?f, [])"
    "os_recv sample_net (va_sk ?a) (length [65, 66 :: byte]) (drop 20 ?f, []) =
      (int (length [65, 66 :: byte]), [65, 66], [], [])"
    using l by (simp_all add: sample_net_def sample_read_def)
  have "?f = vc_frame 9 VCOM_CMD_DATAREADY STATUS_SUCCESS (of_nat (length [65, 66 :: byte])) [65, 66]" by simp
  from data_reaches_tty [OF sample_tty_law sample_port_inv sample_attr_inv(1) c(1) _ _ c(2-4) this _ _ r(1,2),
      where lin = sample_lin] e
  show ?thesis by (simp only: length_replicate sample_attr_simps list.size RBUF_SIZE_def insert_iff) auto
qed

subsection \<open>From the tty to the socket\<close>

text \<open>
  The daemon's copy of the receive ring: same head and size, and no more bytes than there are.
  It is exact after an update; the driver can only append afterwards.
\<close>

definition rx_view :: "ring_buf \<Rightarrow> kring \<Rightarrow> bool" where
  "rx_view r b \<longleftrightarrow> rb_inv r \<and> rb_head r = rb_head b \<and> rb_size r = rb_size b \<and> rb_begin r = rb_begin b \<and>
     get_rb_length r \<le> get_rb_length b"

lemma rb_read_wrapped:
  assumes "kr_inv b" "int k \<le> get_rb_length b" "rb_size b - rb_head b \<le> int k"
  shows "get_bytes (nat (rb_head b)) (nat (rb_size b - rb_head b)) (rb_data b) @
    get_bytes 0 (k - nat (rb_size b - rb_head b)) (rb_data b) = take k (rb_contents b)"
proof -
  from assms(1) have ri: "rb_inv b" and ld: "length (rb_data b) = nat (rb_size b)"
    by (auto simp: kr_inv_def)
  from rb_inv_nat [OF ri] obtain h t s where
    eq: "rb_head b = int h" "rb_tail b = int t" "rb_size b = int s"
    and lt: "h < s" "t < s" and sb: "int s \<le> 2 ^ 30" .
  have k: "k < s" "s - h \<le> k" "nat (int s - int h) = s - h"
    using rb_length_bounds(2) [OF ri] assms(2,3) eq lt by auto
  show ?thesis
  proof (rule nth_equalityI)
    show "length (get_bytes (nat (rb_head b)) (nat (rb_size b - rb_head b)) (rb_data b) @
        get_bytes 0 (k - nat (rb_size b - rb_head b)) (rb_data b)) = length (take k (rb_contents b))"
      using k lt ld assms(2) by (simp add: eq get_bytes_def)
  next
    fix i assume "i < length (get_bytes (nat (rb_head b)) (nat (rb_size b - rb_head b)) (rb_data b) @
        get_bytes 0 (k - nat (rb_size b - rb_head b)) (rb_data b))"
    then have i: "i < k" using k lt ld by (simp add: eq get_bytes_def)
    moreover have "(h + i) mod s = (if h + i < s then h + i else h + i - s)"
      using lt i k by (intro mod_once) auto
    moreover have "h + i < s \<longleftrightarrow> i < s - h" "h + i - s = i - (s - h)" using lt by auto
    moreover have "take k (rb_contents b) ! i = rb_data b ! ((h + i) mod s)"
    proof -
      have "i < nat (get_rb_length b)" using i assms(2) by linarith
      then show ?thesis using i by (simp add: rb_contents_def eq)
    qed
    ultimately show "(get_bytes (nat (rb_head b)) (nat (rb_size b - rb_head b)) (rb_data b) @
        get_bytes 0 (k - nat (rb_size b - rb_head b)) (rb_data b)) ! i = take k (rb_contents b) ! i"
      using k lt ld by (auto simp: eq get_bytes_def nth_append intro!: nth_take)
  qed
qed

lemma link_xmit_frame:
  assumes "io_law net" "drv_inv v" "va_w a = (v, t, n)" "rx_view (va_rx a) (v_rx v)"
    "k = min 1024 (nat (get_rb_length (va_rx a)))"
  shows "vc_common_xmit (link_os lin ops net) ini a =
    out_bind (vc_check_send (link_os lin ops net)
        (vc_frame (va_tid a) VCOM_CMD_WRITE (of_nat k) 0 (take k (rb_contents (v_rx v)))) a)
      (\<lambda>(r, a1). if r \<noteq> 0 then excp_init (link_os lin ops net) ini a1
         else ret_curnt (tid_inc (a1\<lparr>va_xmit_pending := int k\<rparr>)))"
proof -
  let ?os = "link_os lin ops net" and ?r = "va_rx a" and ?b = "v_rx v" and ?pb = "os_uninit net 1044 n"
  have b: "kr_inv ?b" "rb_size ?b = 4096" "rb_begin ?b = 4096" "rb_inv ?b"
    using assms(2) by (auto simp: drv_inv_def kr_inv_def PAGE_SIZE_def)
  have r: "rb_inv ?r" "rb_head ?r = rb_head ?b" "rb_size ?r = 4096" "rb_begin ?r = 4096"
    "get_rb_length ?r \<le> get_rb_length ?b"
    using assms(4) b by (auto simp: rx_view_def)
  have h: "0 \<le> rb_head ?b" "rb_head ?b < 4096" using b by (auto simp: rb_inv_def)
  note bd = rb_length_bounds [OF r(1)]
  have len: "(if get_rb_length ?r > XMIT_LEN then XMIT_LEN else get_rb_length ?r) = int k"
    using bd(1) assms(5) by (auto simp: XMIT_LEN_def)
  have lp: "length ?pb = 1044" using assms(1) by (simp add: io_law_def)
  have kl: "k \<le> 1024" "int k \<le> get_rb_length ?b" using assms(5) r(5) bd(1) by auto
  then have ct: "length (take k (rb_contents ?b)) = k" by simp
  define l where "l = (if get_rb_llength ?r > XMIT_LEN then XMIT_LEN else get_rb_llength ?r)"
  define front where "front = os_mread ?os (rb_begin ?r + get_rb_head ?r) (nat l) (va_w a)"
  have front: "front = get_bytes (nat (rb_head ?b)) (nat l) (rb_data ?b)"
    using map_read_page(2) [OF assms(2) h(1), of "nat l"] bd(6,9) r
    by (auto simp: front_def l_def assms(3) link_os_def get_rb_head_def XMIT_LEN_def)
  show ?thesis
  proof (cases "l = int k")
    case True
    then have "int k \<le> get_rb_llength ?r" by (auto simp: l_def split: if_splits)
    then have "int k \<le> get_rb_llength ?b"
      using r(2,3,5) b(2) by (auto simp: get_rb_llength_def Let_def split: if_splits)
    from rb_read_linear [OF b(1) this] have f: "front = take k (rb_contents ?b)"
      using True front by (simp add: rb_get_def)
    have pk: "vc_pack_xmit ?pb (va_tid a) (int k) (Some front) (XMIT_LEN + 20) =
        (20 + int k, vc_frame (va_tid a) VCOM_CMD_WRITE (of_nat k) 0 (take k (rb_contents ?b)) @ drop (20 + k) ?pb)"
      using pack_xmit_eq [of k 1044 front ?pb "va_tid a"] f ct kl(1) by (simp add: XMIT_LEN_def)
    show ?thesis
      unfolding vc_common_xmit_def Let_def l_def [symmetric] len front_def [symmetric]
      using True pk ct by (simp add: assms(3) link_os_def of_net_def XMIT_LEN_def)
  next
    case False
    then have l: "l = 4096 - rb_head ?b" "l < int k" "0 \<le> l" "l = get_rb_llength ?r"
      using bd(1,6,7) r(2,3) assms(5)
      by (auto simp: l_def XMIT_LEN_def get_rb_llength_def Let_def split: if_splits)
    note k = kl(2,1)
    define rear where "rear = os_mread ?os (rb_begin ?r) (nat (int k - l)) (va_w a)"
    have "rear = get_bytes 0 (k - nat l) (rb_data ?b)"
      using map_read_page(2) [OF assms(2), of 0 "nat (int k - l)"] k(2) l(2,3) r(4)
      by (simp add: rear_def assms(3) link_os_def nat_diff_distrib)
    then have fb: "front @ rear = take k (rb_contents ?b)"
      using rb_read_wrapped [OF b(1) k(1)] l b(2) front by simp
    moreover have lf: "length front = nat l" using front l h b(1,2) by (simp add: get_bytes_def kr_inv_def)
    ultimately have lb: "length rear = k - nat l" using ct by (metis add_diff_cancel_left' length_append)
    define b2 where "b2 = put_bytes (20 + nat l) rear (put_bytes 20 front ?pb)"
    have b2: "length b2 = 1044" "get_bytes 20 k b2 = front @ rear"
      using lp lf lb k(2) l(2,3) by (simp_all add: b2_def put_bytes_def get_bytes_def)
    have pk: "vc_pack_xmit b2 (va_tid a) (int k) None (XMIT_LEN + 20) =
        (20 + int k, vc_frame (va_tid a) VCOM_CMD_WRITE (of_nat k) 0 (take k (rb_contents ?b)) @ drop (20 + k) b2)"
      using pack_xmit_null_eq [of k 1044 b2 "va_tid a"] b2 fb k(2) by (simp add: XMIT_LEN_def)
    have un: "os_uninit ?os (nat (XMIT_LEN + 20)) (va_w a) = ?pb"
      by (simp add: assms(3) link_os_def of_net_def XMIT_LEN_def)
    show ?thesis
      unfolding vc_common_xmit_def Let_def l_def [symmetric] len front_def [symmetric] rear_def [symmetric]
        un b2_def [symmetric] using False pk ct by simp
  qed
qed

lemma check_write_frame:
  "vc_check_xmit (vc_frame tid cmd p1 p2 [] @ r) k stat len = 0 \<longleftrightarrow>
    20 \<le> len \<and> cmd = VCOM_CMD_WRITE \<and> p1 = stat \<and> p2 = c_uint k"
  by (auto simp: vc_check_xmit_def check_hdr_frame vc_pack_size_def vc_ext_size_def Let_def)

text \<open>What a connected port does with the answer to a write.\<close>

lemma recv_write:
  assumes "va_w a = (v, t, n)" "stk_ok a" "stk_curnt a = Ok s" "s \<in> {NETUP, PAUSE}"
    "buf = vc_frame tid VCOM_CMD_WRITE st p2 [] @ rest" "0 \<le> va_xmit_pending a" "va_xmit_pending a < 2 ^ 31"
  shows "vc_try_recv (link_os lin ops net) buf 20 a =
    (if p2 = c_uint (va_xmit_pending a) \<and> st = STATUS_SUCCESS
     then Ok (snd (vc_buf_update (link_os lin ops net) VC_BUF_RX (a\<lparr>va_xmit_pending := 0,
            va_w := (v\<lparr>v_rx := move_rb_head (v_rx v) (va_xmit_pending a)\<rparr>, t, n)\<rparr>)))
     else if p2 = c_uint (va_xmit_pending a) \<and> st = STATUS_DEVICE_BUSY then Ok (a\<lparr>va_xmit_pending := 0\<rparr>)
     else excp_init (link_os lin ops net) (vc_init (link_os lin ops net)) (a\<lparr>va_xmit_pending := 0\<rparr>))"
proof -
  let ?os = "link_os lin ops net" and ?a0 = "a\<lparr>va_xmit_pending := 0\<rparr>"
  have ok: "stk_ok x \<Longrightarrow> ret_curnt x = Ok x" for x :: "('a, 'b) lworld vc_attr" by (rule ret_curnt_ok)
  have "stk_ok (snd (vc_buf_update ?os VC_BUF_RX (?a0\<lparr>va_w := w\<rparr>)))" for w
    using vc_buf_update_frame [of "?a0\<lparr>va_w := w\<rparr>" ?os VC_BUF_RX] assms(2)
    by (simp add: io_frame_def stk_ok_def)
  then have c: "vc_common_recv ?os ini rcv buf 20 a =
    (if p2 = c_uint (va_xmit_pending a) \<and> st = STATUS_SUCCESS
     then Ok (snd (vc_buf_update ?os VC_BUF_RX (a\<lparr>va_xmit_pending := 0,
            va_w := (v\<lparr>v_rx := move_rb_head (v_rx v) (va_xmit_pending a)\<rparr>, t, n)\<rparr>)))
     else if p2 = c_uint (va_xmit_pending a) \<and> st = STATUS_DEVICE_BUSY then Ok ?a0
     else excp_init ?os ini ?a0)" for ini rcv
    using assms by (auto simp: vc_common_recv_def Let_def vcom_cmd_defs check_write_frame link_srxhead ok stk_ok_def)
  have "call_recv (Suc m) ?os buf 20 a = vc_common_recv ?os (vc_init ?os) (call_recv m ?os) buf 20 a" for m
    using assms(3,4) by auto
  from this [of 11] show ?thesis
    using assms(3,4) c by (auto simp: vc_try_recv_def FUEL_def)
qed

text \<open>
  The upward stream of a connected port: applications write bytes into the kernel queue, the
  driver moves queue bytes into the ring, the daemon refreshes its view, sends a write frame when
  none is outstanding, and the device answers. A state is what the device has accepted, what was
  written so far, and the daemon with driver and network. A step in which the session ends is not
  a step here.
\<close>

inductive up_step :: "(byte list \<Rightarrow> nat \<Rightarrow> nat) \<Rightarrow> 't tty_ops \<Rightarrow> 'n os \<Rightarrow>
    byte list \<times> byte list \<times> ('t, 'n) lworld vc_attr \<Rightarrow> byte list \<times> byte list \<times> ('t, 'n) lworld vc_attr \<Rightarrow> bool"
  for lin ops net where
  tty_write: "va_w a = (v, t, n) \<Longrightarrow>
    up_step lin ops net (ak, wr, a) (ak, wr @ bs, a\<lparr>va_w := (v\<lparr>u_fifo := u_fifo v @ bs\<rparr>, t, n)\<rparr>)"
| drv_xmit: "va_w a = (v, t, n) \<Longrightarrow>
    up_step lin ops net (ak, wr, a) (ak, wr, a\<lparr>va_w := (adv_uart_xmit lin v, t, n)\<rparr>)"
| refresh: "up_step lin ops net (ak, wr, a) (ak, wr, snd (vc_buf_update (link_os lin ops net) VC_BUF_RX a))"
| send: "va_xmit_pending a = 0 \<Longrightarrow> vc_try_xmit (link_os lin ops net) a = Ok a' \<Longrightarrow> 0 \<le> va_sk a' \<Longrightarrow>
    up_step lin ops net (ak, wr, a) (ak, wr, a')"
| answer: "vc_try_recv (link_os lin ops net) (vc_frame tid VCOM_CMD_WRITE st p2 [] @ rest) 20 a = Ok a' \<Longrightarrow>
    0 \<le> va_sk a' \<Longrightarrow> va_w a = (v, t, n) \<Longrightarrow>
    ak' = (if st = STATUS_SUCCESS then ak @ take (nat (va_xmit_pending a)) (rb_contents (v_rx v)) else ak) \<Longrightarrow>
    up_step lin ops net (ak, wr, a) (ak', wr, a')"

inductive_cases up_stepE: "up_step lin ops net (ak, wr, a) s'"

text \<open>Nothing is lost, duplicated or reordered: the abstract queue the port stands for.\<close>

definition up_inv :: "byte list \<times> byte list \<times> ('t, 'n) lworld vc_attr \<Rightarrow> bool" where
  "up_inv s = (case s of (ak, wr, a) \<Rightarrow> case va_w a of (v, t, n) \<Rightarrow>
     drv_inv v \<and> \<not> rb_clean (v_rx v) \<and> vc_inv False a \<and> stk_curnt a \<in> {Ok NETUP, Ok PAUSE} \<and>
     rx_view (va_rx a) (v_rx v) \<and> 0 \<le> va_xmit_pending a \<and> va_xmit_pending a \<le> get_rb_length (v_rx v) \<and>
     ak @ rb_contents (v_rx v) @ u_fifo v = wr)"

lemma up_invI:
  assumes "va_w a = (v, t, n)" "drv_inv v" "\<not> rb_clean (v_rx v)" "vc_inv False a"
    "stk_curnt a = Ok NETUP \<or> stk_curnt a = Ok PAUSE"
    "rx_view (va_rx a) (v_rx v)" "0 \<le> va_xmit_pending a" "va_xmit_pending a \<le> get_rb_length (v_rx v)"
    "ak @ rb_contents (v_rx v) @ u_fifo v = wr"
  shows "up_inv (ak, wr, a)"
  using assms by (simp add: up_inv_def)

lemma up_invE:
  assumes "up_inv (ak, wr, a)" "va_w a = (v, t, n)"
  obtains "drv_inv v" "\<not> rb_clean (v_rx v)" "vc_inv False a" "stk_curnt a = Ok NETUP \<or> stk_curnt a = Ok PAUSE"
    "rx_view (va_rx a) (v_rx v)" "0 \<le> va_xmit_pending a" "va_xmit_pending a \<le> get_rb_length (v_rx v)"
    "ak @ rb_contents (v_rx v) @ u_fifo v = wr"
  using assms by (auto simp: up_inv_def)

text \<open>The daemon's stack and session only depend on some of its fields.\<close>

lemma curnt_frame: "io_frame a a' \<Longrightarrow> stk_curnt a' = stk_curnt a"
  by (simp add: io_frame_def stk_curnt_def stk_empty_def)

lemma curnt_upd [simp]:
  "stk_curnt (a\<lparr>va_w := w\<rparr>) = stk_curnt a" "stk_curnt (a\<lparr>va_rx := r\<rparr>) = stk_curnt a"
  "stk_curnt (a\<lparr>va_xmit_pending := p\<rparr>) = stk_curnt a" "stk_curnt (a\<lparr>va_tid := i\<rparr>) = stk_curnt a"
  by (simp_all add: stk_curnt_def stk_empty_def)

lemma inv_upd [simp]:
  "vc_inv tls (a\<lparr>va_w := w\<rparr>) = vc_inv tls a" "vc_inv tls (a\<lparr>va_rx := r\<rparr>) = vc_inv tls a"
  "vc_inv tls (a\<lparr>va_xmit_pending := p\<rparr>) = vc_inv tls a" "vc_inv tls (a\<lparr>va_tid := i\<rparr>) = vc_inv tls a"
  by (simp_all add: vc_inv_def stk_ok_def sess_def)

lemma rx_view_exact:
  assumes "drv_inv v" "rx_view r b" "rb_size b = rb_size (v_rx v)" "rb_begin b = rb_begin (v_rx v)"
  shows "rx_view (r\<lparr>rb_head := rb_head (v_rx v), rb_tail := rb_tail (v_rx v)\<rparr>) (v_rx v)"
  using assms by (auto simp: rx_view_def drv_inv_def kr_inv_def rb_inv_def PAGE_SIZE_def get_rb_length_def)

lemma up_tty_write:
  assumes "up_inv (ak, wr, a)" "va_w a = (v, t, n)"
  shows "up_inv (ak, wr @ bs, a\<lparr>va_w := (v\<lparr>u_fifo := u_fifo v @ bs\<rparr>, t, n)\<rparr>)"
  using assms(1)
  by (rule up_invE [OF _ assms(2)], intro up_invI [where v = "v\<lparr>u_fifo := u_fifo v @ bs\<rparr>"])
    (auto simp: drv_inv_def)

lemma up_drv_xmit:
  assumes "lin_law lin" "up_inv (ak, wr, a)" "va_w a = (v, t, n)"
  shows "up_inv (ak, wr, a\<lparr>va_w := (adv_uart_xmit lin v, t, n)\<rparr>)"
proof (rule up_invE [OF assms(2,3)])
  assume i: "drv_inv v" "\<not> rb_clean (v_rx v)" "vc_inv False a" "stk_curnt a = Ok NETUP \<or> stk_curnt a = Ok PAUSE"
    "rx_view (va_rx a) (v_rx v)" "0 \<le> va_xmit_pending a" "va_xmit_pending a \<le> get_rb_length (v_rx v)"
    "ak @ rb_contents (v_rx v) @ u_fifo v = wr"
  have "kr_inv (v_rx v)" using i(1) by (simp add: drv_inv_def)
  note x = adv_uart_xmit_spec [OF assms(1) this]
  let ?v = "adv_uart_xmit lin v"
  have inv: "drv_inv ?v" by (rule drv_inv_xmit [OF assms(1) i(1)])
  then have "rb_inv (v_rx ?v)" by (simp add: drv_inv_def kr_inv_def)
  moreover have "length (rb_contents (v_rx v)) \<le> length (rb_contents (v_rx ?v))" using x(2) by simp
  ultimately have len: "get_rb_length (v_rx v) \<le> get_rb_length (v_rx ?v)"
    using rb_length_bounds(1) [of "v_rx ?v"] by simp
  show ?thesis
    using i len inv x(4) by (intro up_invI [where v = ?v]) (auto simp: x(2,3) rx_view_def same_ring_def rb_clean_def)
qed

lemma up_refresh:
  assumes "up_inv (ak, wr, a)"
  shows "up_inv (ak, wr, snd (vc_buf_update (link_os lin ops net) VC_BUF_RX a))"
proof -
  obtain v t n where w: "va_w a = (v, t, n)" by (metis prod_cases3)
  show ?thesis
    using assms
    by (rule up_invE [OF _ w], intro up_invI [where v = v and t = t and n = n])
      (auto simp: link_update_rx [OF w] w intro!: rx_view_exact [where b = "v_rx v"])
qed

lemma link_fdcheck: "\<exists>n'. snd (fdcheck (link_os lin ops net) fd ty ctv (v, t, n)) = (v, t, n')"
proof -
  define rfds where "rfds = (if ty AND FD_RD_RDY \<noteq> 0 then FD_SET fd [] else [])"
  define wfds where "wfds = (if ty AND FD_WR_RDY \<noteq> 0 then FD_SET fd [] else [])"
  define tv where "tv = (case ctv of Some t \<Rightarrow> t | None \<Rightarrow> (0, 0))"
  obtain s n' where "os_select net (fd + 1) rfds wfds [] tv n = (s, n')" by (metis prod.exhaust)
  then have "os_select (link_os lin ops net) (fd + 1) rfds wfds [] tv (v, t, n) = (s, v, t, n')"
    by (simp add: link_os_def on_net_def)
  then show ?thesis
    unfolding fdcheck_def Let_def rfds_def [symmetric] wfds_def [symmetric] tv_def [symmetric] by simp
qed

lemma link_check_send:
  assumes "va_ssl a = None" "va_w a = (v, t, n)"
  shows "\<exists>r n'. vc_check_send (link_os lin ops net) pkt a = Ok (r, a\<lparr>va_w := (v, t, n')\<rparr>)"
proof -
  obtain r n1 where f: "fdcheck (link_os lin ops net) (va_sk a) FD_WR_RDY None (v, t, n) = (r, v, t, n1)"
    using link_fdcheck [of lin ops net "va_sk a" FD_WR_RDY None v t n] by (metis prod.collapse)
  obtain m n2 where "os_send net (va_sk a) pkt n1 = (m, n2)" by (metis prod.exhaust)
  then have "os_send (link_os lin ops net) (va_sk a) pkt (v, t, n1) = (m, v, t, n2)"
    by (simp add: link_os_def on_net_def)
  then show ?thesis using assms f by (auto simp: vc_check_send_def)
qed

lemma up_send:
  assumes "io_law net" "up_inv (ak, wr, a)" "va_xmit_pending a = 0"
    "vc_try_xmit (link_os lin ops net) a = Ok a'" "0 \<le> va_sk a'"
  shows "up_inv (ak, wr, a')"
proof -
  let ?os = "link_os lin ops net"
  obtain v t n where w: "va_w a = (v, t, n)" by (metis prod_cases3)
  show ?thesis
  proof (rule up_invE [OF assms(2) w])
    assume i: "drv_inv v" "\<not> rb_clean (v_rx v)" "vc_inv False a" "stk_curnt a = Ok NETUP \<or> stk_curnt a = Ok PAUSE"
      "rx_view (va_rx a) (v_rx v)" "0 \<le> va_xmit_pending a" "va_xmit_pending a \<le> get_rb_length (v_rx v)"
      "ak @ rb_contents (v_rx v) @ u_fifo v = wr"
    define k where "k = min 1024 (nat (get_rb_length (va_rx a)))"
    define f where "f = vc_frame (va_tid a) VCOM_CMD_WRITE (of_nat k) 0 (take k (rb_contents (v_rx v)))"
    have "va_ssl a = None" using i(3) by (simp add: vc_inv_def sess_def)
    from link_check_send [OF this w] obtain r n' where
      cs: "vc_check_send ?os f a = Ok (r, a\<lparr>va_w := (v, t, n')\<rparr>)" by blast
    have "vc_try_xmit ?os a = vc_common_xmit ?os (vc_init ?os) a" using i(4) by (auto simp: vc_try_xmit_def)
    also have "\<dots> = (if r \<noteq> 0 then excp_init ?os (vc_init ?os) (a\<lparr>va_w := (v, t, n')\<rparr>)
        else ret_curnt (tid_inc (a\<lparr>va_w := (v, t, n'), va_xmit_pending := int k\<rparr>)))"
      using link_xmit_frame [OF assms(1) i(1) w i(5) k_def, of lin ops "vc_init ?os"] cs by (simp add: f_def)
    finally have run: "vc_try_xmit ?os a = \<dots>" .
    have "r = 0"
    proof (rule ccontr)
      assume "r \<noteq> 0"
      then show False
        using run assms(4,5) excp_netdown [of False "a\<lparr>va_w := (v, t, n')\<rparr>" ?os]
          vc_inv_mid [of False "a\<lparr>va_w := (v, t, n')\<rparr>"] i(3) by auto
    qed
    then have "a' = tid_inc (a\<lparr>va_w := (v, t, n'), va_xmit_pending := int k\<rparr>)"
      using run assms(4) i(3) ret_curnt_ok [of "tid_inc (a\<lparr>va_w := (v, t, n'), va_xmit_pending := int k\<rparr>)"]
      by (simp add: vc_inv_def stk_ok_def tid_inc_def)
    moreover have "int k \<le> get_rb_length (v_rx v)"
      using i(5) rb_length_bounds(1) [of "va_rx a"] by (auto simp: k_def rx_view_def)
    ultimately show ?thesis
      using i by (intro up_invI [where v = v and t = t and n = n']) (auto simp: tid_inc_def)
  qed
qed

lemma up_answer:
  assumes "up_inv (ak, wr, a)" "va_w a = (v, t, n)"
    "vc_try_recv (link_os lin ops net) (vc_frame tid VCOM_CMD_WRITE st p2 [] @ rest) 20 a = Ok a'" "0 \<le> va_sk a'"
    "ak' = (if st = STATUS_SUCCESS then ak @ take (nat (va_xmit_pending a)) (rb_contents (v_rx v)) else ak)"
  shows "up_inv (ak', wr, a')"
proof (rule up_invE [OF assms(1,2)])
  let ?os = "link_os lin ops net" and ?p = "va_xmit_pending a"
  assume i: "drv_inv v" "\<not> rb_clean (v_rx v)" "vc_inv False a" "stk_curnt a = Ok NETUP \<or> stk_curnt a = Ok PAUSE"
    "rx_view (va_rx a) (v_rx v)" "0 \<le> va_xmit_pending a" "va_xmit_pending a \<le> get_rb_length (v_rx v)"
    "ak @ rb_contents (v_rx v) @ u_fifo v = wr"
  let ?v = "v\<lparr>v_rx := move_rb_head (v_rx v) ?p\<rparr>"
  let ?a = "a\<lparr>va_xmit_pending := 0, va_w := (?v, t, n)\<rparr>"
  have kr: "kr_inv (v_rx v)" "rb_inv (v_rx v)" "rb_size (v_rx v) = 4096"
    using i(1) by (auto simp: drv_inv_def kr_inv_def PAGE_SIZE_def)
  have p: "?p < 2 ^ 31" "?p = int (nat ?p)" "?p \<le> 4096"
    using i(6,7) rb_length_bounds(2) [OF kr(2)] kr(3) by auto
  have run: "vc_try_recv ?os (vc_frame tid VCOM_CMD_WRITE st p2 [] @ rest) 20 a =
    (if p2 = c_uint ?p \<and> st = STATUS_SUCCESS then Ok (snd (vc_buf_update ?os VC_BUF_RX ?a))
     else if p2 = c_uint ?p \<and> st = STATUS_DEVICE_BUSY then Ok (a\<lparr>va_xmit_pending := 0\<rparr>)
     else excp_init ?os (vc_init ?os) (a\<lparr>va_xmit_pending := 0\<rparr>))"
  proof -
    obtain s where "stk_curnt a = Ok s" "s \<in> {NETUP, PAUSE}" using i(4) by auto
    moreover have "stk_ok a" using i(3) by (simp add: vc_inv_def)
    ultimately show ?thesis by (intro recv_write [OF assms(2) _ _ _ refl i(6) p(1)])
  qed
  have no: "\<not> 0 \<le> va_sk x" if "excp_init ?os (vc_init ?os) (a\<lparr>va_xmit_pending := 0\<rparr>) = Ok x" for x
    using excp_netdown [of False "a\<lparr>va_xmit_pending := 0\<rparr>" ?os] vc_inv_mid [of False "a\<lparr>va_xmit_pending := 0\<rparr>"]
      i(3) that by auto
  show ?thesis
  proof (cases "st = STATUS_SUCCESS")
    case True
    with run assms(3,4) no have a': "a' = snd (vc_buf_update ?os VC_BUF_RX ?a)" by (auto split: if_splits)
    have inv: "drv_inv ?v"
      using i(1,6) p(3) kr kr_inv_move(2) [of ?p "v_rx v"] by (simp add: drv_inv_def)
    have c: "rb_contents (move_rb_head (v_rx v) ?p) = drop (nat ?p) (rb_contents (v_rx v))"
      using rb_consume [OF kr(1) _ i(2), of "nat ?p"] i(6,7) by simp
    have w: "va_w ?a = (?v, t, n)" by simp
    have "0 \<le> get_rb_length (v_rx ?v)"
      using inv rb_length_bounds(1) [of "v_rx ?v"] by (simp add: drv_inv_def kr_inv_def)
    then show ?thesis
      using i inv True c unfolding a' link_update_rx [OF w] assms(5)
      by (intro up_invI [where v = ?v and t = t and n = n])
        (auto intro!: rx_view_exact [where b = "v_rx v" and v = ?v, simplified])
  next
    case False
    with run assms(3,4) no have "a' = a\<lparr>va_xmit_pending := 0\<rparr>" by (auto split: if_splits)
    with i False kr(2) rb_length_bounds(1) [OF kr(2)] assms(2,5) show ?thesis
      by (intro up_invI [where v = v and t = t and n = n]) auto
  qed
qed

lemma up_step_inv:
  assumes "lin_law lin" "io_law net" "up_step lin ops net s s'" "up_inv s"
  shows "up_inv s'"
  using assms(3,4)
proof cases
  case (tty_write a v t n ak wr bs)
  with assms(4) show ?thesis by (auto intro: up_tty_write)
next
  case (drv_xmit a v t n ak wr)
  with assms(1,4) show ?thesis by (auto intro: up_drv_xmit)
next
  case (refresh ak wr a)
  with assms(4) show ?thesis by (auto intro: up_refresh)
next
  case (send a a' ak wr)
  with assms(2,4) show ?thesis by (auto intro: up_send)
next
  case (answer tid st p2 rest a a' v t n ak' ak wr)
  with assms(4) show ?thesis by (auto intro: up_answer)
qed


definition sample_busy :: adv_vcom where
  "sample_busy = adv_uart_xmit sample_lin (sample_port\<lparr>u_fifo := [65, 66]\<rparr>)"

lemma sample_busy_facts:
  "drv_inv sample_busy" "rb_contents (v_rx sample_busy) = [65, 66]" "rb_head (v_rx sample_busy) = 0"
  "get_rb_length (v_rx sample_busy) = 2"
proof -
  let ?v = "sample_port\<lparr>u_fifo := [65, 66]\<rparr>"
  have d: "drv_inv ?v" using sample_port_inv by (simp add: drv_inv_def)
  then show i: "drv_inv sample_busy" unfolding sample_busy_def by (rule drv_inv_xmit [OF sample_lin_law])
  have "kr_inv (v_rx ?v)" using d by (simp add: drv_inv_def)
  note x = adv_uart_xmit_spec [OF sample_lin_law this, folded sample_busy_def]
  have e: "rb_contents (v_rx sample_port) = []" "get_rb_room (v_rx sample_port) = 4095" "rb_head (v_rx sample_port) = 0"
    by (simp_all add: sample_port_def adv_main_init_def rb_contents_def rb_query_defs PAGE_SIZE_def)
  then show c: "rb_contents (v_rx sample_busy) = [65, 66]" using x(2) by (simp add: xmit_count_def)
  show "rb_head (v_rx sample_busy) = 0" using x(4) e(3) by (simp add: same_ring_def)
  have "length (rb_contents (v_rx sample_busy)) = 2" using c by simp
  then show "get_rb_length (v_rx sample_busy) = 2" by simp
qed


text \<open>
  C5. What a transmit puts on the wire: from a view of the ring that is current, one transmit
  sends one write frame whose payload is the first min(1024, length) bytes of the driver's ring,
  wherever the ring's end falls; on success it records that length as outstanding, leaves the
  driver alone and advances the transaction number; a failed send is an exception.
\<close>

theorem xmit_sends_ring:
  assumes "io_law net" "drv_inv v" "va_w a = (v, t, n)" "rx_view (va_rx a) (v_rx v)"
    and "vc_inv False a" "stk_curnt a = Ok NETUP \<or> stk_curnt a = Ok PAUSE"
    and "k = min 1024 (nat (get_rb_length (va_rx a)))"
  shows "\<exists>r n'. vc_check_send (link_os lin ops net)
        (vc_frame (va_tid a) VCOM_CMD_WRITE (of_nat k) 0 (take k (rb_contents (v_rx v)))) a
        = Ok (r, a\<lparr>va_w := (v, t, n')\<rparr>) \<and>
    vc_try_xmit (link_os lin ops net) a =
      (if r = 0 then Ok (a\<lparr>va_w := (v, t, n'), va_xmit_pending := int k, va_tid := va_tid a + 1\<rparr>)
       else excp_init (link_os lin ops net) (vc_init (link_os lin ops net)) (a\<lparr>va_w := (v, t, n')\<rparr>))"
proof -
  let ?os = "link_os lin ops net"
  have "va_ssl a = None" using assms(5) by (simp add: vc_inv_def sess_def)
  from link_check_send [OF this assms(3)] obtain r n' where
    cs: "vc_check_send ?os (vc_frame (va_tid a) VCOM_CMD_WRITE (of_nat k) 0 (take k (rb_contents (v_rx v)))) a
      = Ok (r, a\<lparr>va_w := (v, t, n')\<rparr>)" by blast
  let ?a = "a\<lparr>va_w := (v, t, n'), va_xmit_pending := int k, va_tid := va_tid a + 1\<rparr>"
  have "ret_curnt ?a = Ok ?a"
    using assms(5) by (intro ret_curnt_ok) (simp add: vc_inv_def stk_ok_def)
  moreover have "vc_try_xmit ?os a = vc_common_xmit ?os (vc_init ?os) a"
    using assms(6) by (auto simp: vc_try_xmit_def)
  ultimately show ?thesis
    using link_xmit_frame [OF assms(1-4,7), of lin ops "vc_init ?os"] cs by (auto simp: tid_inc_def)
qed

lemma xmit_sends_ring_witness:
  "\<exists>a'. vc_try_xmit sample_os (sample_attr 5 None 1 [NETDOWN, NETUP] [] \<lparr>va_w := (sample_busy, [], [], []),
      va_rx := \<lparr>rb_head = 0, rb_tail = 2, rb_begin = 4096, rb_size = 4096\<rparr>\<rparr>) = Ok a' \<and>
    va_xmit_pending a' = 2 \<and> va_w a' = (sample_busy, [], [], vc_frame 7 VCOM_CMD_WRITE 2 0 [65, 66])"
proof -
  let ?a = "sample_attr 5 None 1 [NETDOWN, NETUP] [] \<lparr>va_w := (sample_busy, [], [], []),
      va_rx := \<lparr>rb_head = 0, rb_tail = 2, rb_begin = 4096, rb_size = 4096\<rparr>\<rparr>"
  have v: "rx_view (va_rx ?a) (v_rx sample_busy)"
    using sample_busy_facts by (auto simp: rx_view_def rb_inv_def drv_inv_def PAGE_SIZE_def rb_query_defs)
  have w: "va_w ?a = (sample_busy, [], [], [])" by simp
  have i: "vc_inv False ?a" "stk_curnt ?a = Ok NETUP \<or> stk_curnt ?a = Ok PAUSE"
    using sample_attr_inv(1) by (simp_all add: stk_curnt_def stk_empty_def)
  have k: "(2 :: nat) = min 1024 (nat (get_rb_length (va_rx ?a)))" by (simp add: rb_query_defs)
  have s: "vc_check_send sample_os (vc_frame 7 VCOM_CMD_WRITE 2 0 [65, 66]) ?a =
      Ok (0, ?a\<lparr>va_w := (sample_busy, [], [], vc_frame 7 VCOM_CMD_WRITE 2 0 [65, 66])\<rparr>)"
    using sample_check_send [of ?a sample_busy "[]" "[]" "[]"] by simp
  from xmit_sends_ring [OF sample_net_laws(2) sample_busy_facts(1) w v i k, of sample_lin sample_tty]
  obtain r n' where r: "Ok (0, ?a\<lparr>va_w := (sample_busy, [], [], vc_frame 7 VCOM_CMD_WRITE 2 0 [65, 66])\<rparr>) =
      Ok (r, ?a\<lparr>va_w := (sample_busy, [], n')\<rparr>)"
    "vc_try_xmit sample_os ?a =
      (if r = 0 then Ok (?a\<lparr>va_w := (sample_busy, [], n'), va_xmit_pending := 2, va_tid := va_tid ?a + 1\<rparr>)
       else excp_init sample_os (vc_init sample_os) (?a\<lparr>va_w := (sample_busy, [], n')\<rparr>))"
    using s by (auto simp: sample_busy_facts(2))
  from r(1) have "r = 0" "(sample_busy, [], [], vc_frame 7 VCOM_CMD_WRITE 2 0 [65, 66]) = (sample_busy, [], n')"
    by (auto dest: arg_cong [where f = va_w])
  with r(2) show ?thesis by simp
qed

end
