(* ===== verification/Adv_List.thy ===== *)
theory Adv_List
  imports VC_Prelude
begin

text \<open>
  The intrusive list of shared/container/advlist.h, on a store of links: an address is allocated
  if the store has a node for it, the address 0 is the null pointer, and the use of an address that
  is not allocated is \<open>Crash\<close>. \<open>rep st h xs\<close> says that the list with the head \<open>h\<close> holds the nodes \<open>xs\<close>.
\<close>

subsection \<open>The model\<close>

record list_head =
  lh_next :: nat
  lh_prev :: nat

type_synonym lstore = "nat \<rightharpoonup> list_head"

definition get_next :: "nat \<Rightarrow> lstore \<Rightarrow> nat out" where
  "get_next p st = (case st p of None \<Rightarrow> Crash | Some n \<Rightarrow> Ok (lh_next n))"

definition get_prev :: "nat \<Rightarrow> lstore \<Rightarrow> nat out" where
  "get_prev p st = (case st p of None \<Rightarrow> Crash | Some n \<Rightarrow> Ok (lh_prev n))"

definition set_next :: "nat \<Rightarrow> nat \<Rightarrow> lstore \<Rightarrow> lstore out" where
  "set_next p v st = (case st p of None \<Rightarrow> Crash | Some n \<Rightarrow> Ok (st(p \<mapsto> n\<lparr>lh_next := v\<rparr>)))"

definition set_prev :: "nat \<Rightarrow> nat \<Rightarrow> lstore \<Rightarrow> lstore out" where
  "set_prev p v st = (case st p of None \<Rightarrow> Crash | Some n \<Rightarrow> Ok (st(p \<mapsto> n\<lparr>lh_prev := v\<rparr>)))"

definition INIT_LIST_HEAD :: "nat \<Rightarrow> lstore \<Rightarrow> lstore out" where
  "INIT_LIST_HEAD h st = out_bind (set_next h h st) (set_prev h h)"

definition list_empty :: "nat \<Rightarrow> lstore \<Rightarrow> bool out" where
  "list_empty h st = out_bind (get_next h st) (\<lambda>n. Ok (n = h))"

definition list_add_between :: "nat \<Rightarrow> nat \<Rightarrow> nat \<Rightarrow> lstore \<Rightarrow> lstore out" where
  "list_add_between new p n st =
     out_bind (set_prev n new st) (\<lambda>st.
     out_bind (set_next new n st) (\<lambda>st.
     out_bind (set_prev new p st) (set_next p new)))"

definition list_add :: "nat \<Rightarrow> nat \<Rightarrow> lstore \<Rightarrow> lstore out" where
  "list_add new h st = out_bind (get_next h st) (\<lambda>n. list_add_between new h n st)"

definition list_add_tail :: "nat \<Rightarrow> nat \<Rightarrow> lstore \<Rightarrow> lstore out" where
  "list_add_tail new h st = out_bind (get_prev h st) (\<lambda>p. list_add_between new p h st)"

definition list_del_between :: "nat \<Rightarrow> nat \<Rightarrow> lstore \<Rightarrow> lstore out" where
  "list_del_between p n st = out_bind (set_prev n p st) (set_next p n)"

definition list_del :: "nat \<Rightarrow> lstore \<Rightarrow> lstore out" where
  "list_del e st =
     out_bind (get_prev e st) (\<lambda>p.
     out_bind (get_next e st) (\<lambda>n.
     out_bind (list_del_between p n st) (\<lambda>st.
     out_bind (set_next e 0 st) (set_prev e 0))))"

definition free_node :: "nat \<Rightarrow> lstore \<Rightarrow> lstore" where
  "free_node p st = st(p := None)"

text \<open>
  The loops: \<open>walk\<close> is list_for_each, which visits the positions from \<open>pos\<close> on and
  collects them; \<open>walk_safe\<close> is
  list_for_each_safe, whose body may delete the position it is called with and says whether to
  leave the loop. \<open>nxt\<close> is the read of the next pointer.
\<close>

partial_function (option) walk :: "('p \<Rightarrow> 's \<Rightarrow> 'p out) \<Rightarrow> 'p \<Rightarrow> 's \<Rightarrow> 'p list \<Rightarrow> 'p \<Rightarrow> 'p list out option" where
  "walk nxt h s seen pos =
     (if pos = h then Some (Ok seen)
      else case nxt pos s of
        Ok q \<Rightarrow> walk nxt h s (seen @ [pos]) q
      | Exit \<Rightarrow> Some Exit | Crash \<Rightarrow> Some Crash | Hang \<Rightarrow> Some Hang)"

partial_function (option) walk_safe :: "('p \<Rightarrow> 's \<Rightarrow> 'p out) \<Rightarrow> ('p \<Rightarrow> 's \<times> 'x \<Rightarrow> (bool \<times> 's \<times> 'x) out) \<Rightarrow> 'p \<Rightarrow>
    'p \<Rightarrow> 'p \<Rightarrow> 's \<times> 'x \<Rightarrow> ('s \<times> 'x) out option" where
  "walk_safe nxt body h pos n sx =
     (if pos = h then Some (Ok sx)
      else case body pos sx of
        Ok (stop, sx') \<Rightarrow>
          if stop then Some (Ok sx')
          else (case nxt n (fst sx') of
              Ok n' \<Rightarrow> walk_safe nxt body h n n' sx'
            | Exit \<Rightarrow> Some Exit | Crash \<Rightarrow> Some Crash | Hang \<Rightarrow> Some Hang)
      | Exit \<Rightarrow> Some Exit | Crash \<Rightarrow> Some Crash | Hang \<Rightarrow> Some Hang)"

definition list_for_each :: "nat \<Rightarrow> lstore \<Rightarrow> nat list out option" where
  "list_for_each h st =
     (case get_next h st of
        Ok p \<Rightarrow> walk get_next h st [] p
      | Exit \<Rightarrow> Some Exit | Crash \<Rightarrow> Some Crash | Hang \<Rightarrow> Some Hang)"

definition list_for_each_safe :: "(nat \<Rightarrow> lstore \<times> 'x \<Rightarrow> (bool \<times> lstore \<times> 'x) out) \<Rightarrow> nat \<Rightarrow> lstore \<times> 'x \<Rightarrow>
    (lstore \<times> 'x) out option" where
  "list_for_each_safe body h sx =
     (case get_next h (fst sx) of
        Ok p \<Rightarrow>
          (case get_next p (fst sx) of
             Ok n \<Rightarrow> walk_safe get_next body h p n sx
           | Exit \<Rightarrow> Some Exit | Crash \<Rightarrow> Some Crash | Hang \<Rightarrow> Some Hang)
      | Exit \<Rightarrow> Some Exit | Crash \<Rightarrow> Some Crash | Hang \<Rightarrow> Some Hang)"

subsection \<open>Linked paths\<close>

fun linked :: "lstore \<Rightarrow> nat list \<Rightarrow> bool" where
  "linked st (x # y # zs) \<longleftrightarrow> get_next x st = Ok y \<and> get_prev y st = Ok x \<and> linked st (y # zs)"
| "linked st _ \<longleftrightarrow> True"

lemma linked_append: "linked st (xs @ y # ys) \<longleftrightarrow> linked st (xs @ [y]) \<and> linked st (y # ys)"
  by (induction st xs rule: linked.induct) (auto simp: neq_Nil_conv)

definition rep :: "lstore \<Rightarrow> nat \<Rightarrow> nat list \<Rightarrow> bool" where
  "rep st h xs \<longleftrightarrow> distinct (h # xs) \<and> linked st (h # xs @ [h])"

definition allocated :: "lstore \<Rightarrow> nat \<Rightarrow> bool" where
  "allocated st p \<longleftrightarrow> p \<noteq> 0 \<and> st p \<noteq> None"

subsection \<open>The interface\<close>

text \<open>
  What the users of a list rely on, and what they get: a loop over the list visits its nodes in
  order and ends; a loop that deletes some of the nodes it visits leaves the others.
\<close>

locale node_list =
  fixes rep :: "'s \<Rightarrow> 'p \<Rightarrow> 'p list \<Rightarrow> bool"
    and alloc :: "'s \<Rightarrow> 'p \<Rightarrow> bool"
    and ini :: "'p \<Rightarrow> 's \<Rightarrow> 's out"
    and add_front :: "'p \<Rightarrow> 'p \<Rightarrow> 's \<Rightarrow> 's out"
    and add_back :: "'p \<Rightarrow> 'p \<Rightarrow> 's \<Rightarrow> 's out"
    and del :: "'p \<Rightarrow> 's \<Rightarrow> 's out"
    and rel :: "'p \<Rightarrow> 's \<Rightarrow> 's"
    and empt :: "'p \<Rightarrow> 's \<Rightarrow> bool out"
    and nxt :: "'p \<Rightarrow> 's \<Rightarrow> 'p out"
  assumes rep_distinct: "rep s h xs \<Longrightarrow> distinct (h # xs)"
    and ini_ok: "alloc s h \<Longrightarrow> \<exists>s'. ini h s = Ok s' \<and> rep s' h []"
    and add_front_ok: "rep s h xs \<Longrightarrow> alloc s n \<Longrightarrow> n \<notin> set (h # xs) \<Longrightarrow>
      \<exists>s'. add_front n h s = Ok s' \<and> rep s' h (n # xs) \<and> (\<forall>m. alloc s' m = alloc s m)"
    and add_back_ok: "rep s h xs \<Longrightarrow> alloc s n \<Longrightarrow> n \<notin> set (h # xs) \<Longrightarrow>
      \<exists>s'. add_back n h s = Ok s' \<and> rep s' h (xs @ [n]) \<and> (\<forall>m. alloc s' m = alloc s m)"
    and del_ok: "rep s h (xs @ n # ys) \<Longrightarrow> \<exists>s'. del n s = Ok s' \<and> rep (rel n s') h (xs @ ys)"
    and empt_ok: "rep s h xs \<Longrightarrow> empt h s = Ok (xs = [])"
    and nxt_head: "rep s h xs \<Longrightarrow> nxt h s = Ok (hd (xs @ [h]))"
    and nxt_node: "rep s h (xs @ n # ys) \<Longrightarrow> nxt n s = Ok (hd (ys @ [h]))"
begin

lemma walk_visits: "rep s h (seen @ xs) \<Longrightarrow> walk nxt h s seen (hd (xs @ [h])) = Some (Ok (seen @ xs))"
proof (induction xs arbitrary: seen)
  case Nil
  then show ?case by (subst walk.simps) simp
next
  case (Cons x xs)
  have "x \<noteq> h" using rep_distinct [OF Cons.prems] by auto
  moreover have "nxt x s = Ok (hd (xs @ [h]))" using nxt_node [OF Cons.prems] .
  moreover have "walk nxt h s (seen @ [x]) (hd (xs @ [h])) = Some (Ok (seen @ x # xs))"
    using Cons.IH [of "seen @ [x]"] Cons.prems by simp
  ultimately show ?case by (subst walk.simps) simp
qed

lemma add_all_back:
  "rep s h xs \<Longrightarrow> distinct (h # xs @ ns) \<Longrightarrow> \<forall>n \<in> set ns. alloc s n \<Longrightarrow>
    \<exists>s'. foldl (\<lambda>r n. out_bind r (add_back n h)) (Ok s) ns = Ok s' \<and> rep s' h (xs @ ns)"
proof (induction ns arbitrary: s xs)
  case (Cons n ns)
  then obtain s1 where s1: "add_back n h s = Ok s1" "rep s1 h (xs @ [n])" "\<forall>m. alloc s1 m = alloc s m"
    using add_back_ok [OF Cons.prems(1), of n] by auto
  from Cons.IH [OF s1(2)] Cons.prems(2,3) s1(1,3) show ?case by simp
qed auto

end

text \<open>
  A loop with deletion. The body decides on each node by \<open>verdict\<close>: keep it, delete and release it
  and go on, or delete and release it and leave the loop. \<open>scan_list\<close> is the same on a list.
\<close>

datatype verdict = Keep | Drop | Take

definition safe_body :: "('p \<Rightarrow> 's \<Rightarrow> 's out) \<Rightarrow> ('p \<Rightarrow> 's \<Rightarrow> 's) \<Rightarrow> ('p \<Rightarrow> 'x \<Rightarrow> (verdict \<times> 'x) out) \<Rightarrow> 'p \<Rightarrow> 's \<times> 'x \<Rightarrow>
    (bool \<times> 's \<times> 'x) out" where
  "safe_body del rel verdict p sx =
     out_bind (verdict p (snd sx)) (\<lambda>(v, x).
       if v = Keep then Ok (False, fst sx, x)
       else out_bind (del p (fst sx)) (\<lambda>s. Ok (v = Take, rel p s, x)))"

fun scan_list :: "('p \<Rightarrow> 'x \<Rightarrow> (verdict \<times> 'x) out) \<Rightarrow> 'p list \<Rightarrow> 'x \<Rightarrow> ('p list \<times> 'x) out" where
  "scan_list verdict [] x = Ok ([], x)"
| "scan_list verdict (p # ps) x =
     out_bind (verdict p x) (\<lambda>(v, x').
       if v = Take then Ok (ps, x')
       else out_bind (scan_list verdict ps x') (\<lambda>(ps', x''). Ok (if v = Keep then p # ps' else ps', x'')))"

context node_list
begin

lemma nxt_of:
  assumes "rep s h (seen @ ps)"
  shows "\<exists>n. nxt (hd (ps @ [h])) s = Ok n \<and> (ps \<noteq> [] \<longrightarrow> n = hd (tl ps @ [h]))"
  using assms nxt_head [OF assms] nxt_node [of s h seen "hd ps" "tl ps"] by (cases ps) auto

lemma scan_visits:
  assumes "rep s h (seen @ xs)" "scan_list verdict xs x = Ok (ys, x')" "xs \<noteq> [] \<longrightarrow> n = hd (tl xs @ [h])"
  shows "\<exists>s'. walk_safe nxt (safe_body del rel verdict) h (hd (xs @ [h])) n (s, x) = Some (Ok (s', x')) \<and> rep s' h (seen @ ys)"
  using assms
proof (induction xs arbitrary: seen s x n ys)
  case Nil
  then show ?case by (subst walk_safe.simps) auto
next
  case (Cons p ps)
  have p: "p \<noteq> h" using rep_distinct [OF Cons.prems(1)] by auto
  obtain v x1 where v: "verdict p x = Ok (v, x1)" using Cons.prems(2) by (cases "verdict p x") auto
  obtain s1 where s1: "del p s = Ok s1" "rep (rel p s1) h (seen @ ps)" using del_ok [OF Cons.prems(1)] by metis
  have n: "n = hd (ps @ [h])" using Cons.prems(3) by simp
  show ?case
  proof (cases v)
    case Keep
    then obtain ys' where ys: "scan_list verdict ps x1 = Ok (ys', x')" "ys = p # ys'"
      using Cons.prems(2) v by (auto simp: out_bind_Ok_iff)
    have r: "rep s h ((seen @ [p]) @ ps)" using Cons.prems(1) by simp
    from nxt_of [OF r] obtain n' where "nxt n s = Ok n'" "ps \<noteq> [] \<longrightarrow> n' = hd (tl ps @ [h])" using n by auto
    moreover have "safe_body del rel verdict p (s, x) = Ok (False, s, x1)" using v Keep by (simp add: safe_body_def)
    ultimately show ?thesis using Cons.IH [OF r ys(1)] ys(2) p n by (subst walk_safe.simps) auto
  next
    case Drop
    then have ys: "scan_list verdict ps x1 = Ok (ys, x')" using Cons.prems(2) v by (auto simp: out_bind_Ok_iff)
    from nxt_of [OF s1(2)] obtain n' where "nxt n (rel p s1) = Ok n'" "ps \<noteq> [] \<longrightarrow> n' = hd (tl ps @ [h])" using n by auto
    moreover have "safe_body del rel verdict p (s, x) = Ok (False, rel p s1, x1)" using v Drop s1(1) by (simp add: safe_body_def)
    ultimately show ?thesis using Cons.IH [OF s1(2) ys] p n by (subst walk_safe.simps) auto
  next
    case Take
    with Cons.prems(2) v s1 p show ?thesis by (subst walk_safe.simps) (auto simp: safe_body_def)
  qed
qed

end

subsection \<open>The links implement the interface\<close>

lemmas link_defs = get_next_def get_prev_def set_next_def set_prev_def

lemma set_next_ok:
  "set_next p v st = Ok st' \<Longrightarrow> get_next q st' = (if q = p then Ok v else get_next q st) \<and>
    get_prev q st' = get_prev q st \<and> (st' q = None) = (st q = None)"
  "st p \<noteq> None \<Longrightarrow> \<exists>st'. set_next p v st = Ok st'"
  by (auto simp: link_defs split: option.splits if_splits)

lemma set_prev_ok:
  "set_prev p v st = Ok st' \<Longrightarrow> get_prev q st' = (if q = p then Ok v else get_prev q st) \<and>
    get_next q st' = get_next q st \<and> (st' q = None) = (st q = None)"
  "st p \<noteq> None \<Longrightarrow> \<exists>st'. set_prev p v st = Ok st'"
  by (auto simp: link_defs split: option.splits if_splits)

lemma get_ok: "get_next p st = Ok q \<Longrightarrow> st p \<noteq> None" "get_prev p st = Ok q \<Longrightarrow> st p \<noteq> None"
  by (auto simp: link_defs split: option.splits)

text \<open>A path stays linked if the links it uses do not change.\<close>

lemma linked_cong:
  "\<forall>x \<in> set (butlast ps). get_next x st' = get_next x st \<Longrightarrow> \<forall>x \<in> set (tl ps). get_prev x st' = get_prev x st \<Longrightarrow>
    linked st' ps = linked st ps"
proof (induction ps)
  case (Cons x ps)
  then show ?case by (cases ps) (auto split: if_splits dest!: list.set_sel(2))
qed simp

lemma path_alloc: "linked st ps \<Longrightarrow> 2 \<le> length ps \<Longrightarrow> x \<in> set ps \<Longrightarrow> st x \<noteq> None"
proof (induction st ps rule: linked.induct)
  case (1 st x y zs)
  then show ?case by (cases zs) (auto dest: get_ok)
qed auto

lemma add_between_linked:
  assumes "linked st (us @ a # b # vs)" "distinct (us @ [a])" "distinct (b # vs)" "a \<notin> set (butlast (b # vs))"
    "b \<notin> set (tl (us @ [a]))" "new \<notin> set (us @ a # b # vs)" "st new \<noteq> None"
  shows "\<exists>st'. list_add_between new a b st = Ok st' \<and> linked st' (us @ a # new # b # vs) \<and> (\<forall>q. (st' q = None) = (st q = None))"
proof -
  have ab: "st a \<noteq> None" "st b \<noteq> None" using path_alloc [OF assms(1)] by auto
  obtain s1 where 1: "set_prev b new st = Ok s1" using set_prev_ok(2) [of st b] ab(2) by blast
  obtain s2 where 2: "set_next new b s1 = Ok s2" using set_next_ok(2) [of s1 new] set_prev_ok(1) [OF 1] assms(7) by metis
  obtain s3 where 3: "set_prev new a s2 = Ok s3"
    using set_prev_ok(2) [of s2 new] set_next_ok(1) [OF 2] set_prev_ok(1) [OF 1] assms(7) by metis
  obtain s4 where 4: "set_next a new s3 = Ok s4"
    using set_next_ok(2) [of s3 a] set_prev_ok(1) [OF 3] set_next_ok(1) [OF 2] set_prev_ok(1) [OF 1] ab(1) by metis
  note upd = set_prev_ok(1) [OF 1] set_next_ok(1) [OF 2] set_prev_ok(1) [OF 3] set_next_ok(1) [OF 4]
  have l: "linked st (us @ [a])" "linked st (b # vs)"
    using assms(1) linked_append [of st us a "b # vs"] by auto
  have gn: "get_next q s4 = (if q = a then Ok new else if q = new then Ok b else get_next q st)" for q
    using upd by simp
  have gp: "get_prev q s4 = (if q = new then Ok a else if q = b then Ok new else get_prev q st)" for q
    using upd by simp
  have t: "set (tl (us @ [a])) \<subseteq> set (us @ [a])" "set (butlast (b # vs)) \<subseteq> set (b # vs)"
    by (auto dest: list.set_sel(2) [rotated] in_set_butlastD)
  have "linked s4 (us @ [a]) = linked st (us @ [a])"
    using assms(2,5,6) t by (intro linked_cong) (auto simp: gn gp)
  moreover have "linked s4 (b # vs) = linked st (b # vs)"
    using assms(3,4,6) t by (intro linked_cong) (auto simp: gn gp)
  ultimately have "linked s4 (us @ a # new # b # vs)"
    using l assms(6) linked_append [of s4 us a "new # b # vs"] by (auto simp: gn gp)
  then show ?thesis using 1 2 3 4 upd by (auto simp: list_add_between_def)
qed

lemma del_linked:
  assumes "linked st (us @ a # e # b # vs)" "distinct (us @ [a])" "distinct (b # vs)" "a \<notin> set (butlast (b # vs))"
    "b \<notin> set (tl (us @ [a]))" "e \<notin> set (us @ a # b # vs)"
  shows "\<exists>st'. list_del e st = Ok st' \<and> linked (free_node e st') (us @ a # b # vs)"
proof -
  have l: "linked st (us @ [a])" "linked st (b # vs)" and e: "get_prev e st = Ok a" "get_next e st = Ok b"
    using assms(1) linked_append [of st us a "e # b # vs"] by auto
  have abe: "st a \<noteq> None" "st b \<noteq> None" "st e \<noteq> None" using path_alloc [OF assms(1)] by auto
  obtain s1 where 1: "set_prev b a st = Ok s1" using set_prev_ok(2) [of st b] abe(2) by blast
  obtain s2 where 2: "set_next a b s1 = Ok s2" using set_next_ok(2) [of s1 a] set_prev_ok(1) [OF 1] abe(1) by metis
  obtain s3 where 3: "set_next e 0 s2 = Ok s3"
    using set_next_ok(2) [of s2 e] set_next_ok(1) [OF 2] set_prev_ok(1) [OF 1] abe(3) by metis
  obtain s4 where 4: "set_prev e 0 s3 = Ok s4"
    using set_prev_ok(2) [of s3 e] set_next_ok(1) [OF 3] set_next_ok(1) [OF 2] set_prev_ok(1) [OF 1] abe(3) by metis
  note upd = set_prev_ok(1) [OF 1] set_next_ok(1) [OF 2] set_next_ok(1) [OF 3] set_prev_ok(1) [OF 4]
  let ?s = "free_node e s4"
  have gn: "get_next q ?s = (if q = a then Ok b else get_next q st)" if "q \<noteq> e" for q
    using that upd [of q] by (simp add: free_node_def link_defs)
  have gp: "get_prev q ?s = (if q = b then Ok a else get_prev q st)" if "q \<noteq> e" for q
    using that upd [of q] by (simp add: free_node_def link_defs)
  have t: "set (tl (us @ [a])) \<subseteq> set (us @ [a])" "set (butlast (b # vs)) \<subseteq> set (b # vs)"
    by (auto dest: list.set_sel(2) [rotated] in_set_butlastD)
  have "linked ?s (us @ [a]) = linked st (us @ [a])"
    using assms(2,5,6) t by (intro linked_cong ballI; subst gn gp; auto)
  moreover have "linked ?s (b # vs) = linked st (b # vs)"
    using assms(3,4,6) t by (intro linked_cong ballI; subst gn gp; auto)
  ultimately have "linked (free_node e s4) (us @ a # b # vs)"
    using l assms(6) linked_append [of ?s us a "b # vs"] gn [of a] gp [of b] by auto
  then show ?thesis using 1 2 3 4 e by (auto simp: list_del_def list_del_between_def)
qed

text \<open>Cutting the ring open between two neighbours.\<close>

lemma ring_cut:
  assumes "distinct (h # xs @ ys)"
  obtains us a b vs where "h # xs = us @ [a]" "ys @ [h] = b # vs" "distinct (us @ [a])" "distinct (b # vs)"
    "a \<notin> set (butlast (b # vs))" "b \<notin> set (tl (us @ [a]))"
proof -
  obtain us a where u: "h # xs = us @ [a]" by (metis append_butlast_last_id list.distinct(1))
  obtain b vs where v: "ys @ [h] = b # vs" by (cases "ys @ [h]") auto
  have "a \<notin> set ys" using assms u by (cases xs rule: rev_cases) auto
  then have "a \<notin> set (butlast (b # vs))" using v by (metis butlast_snoc)
  moreover have "tl (us @ [a]) = xs" using u by (metis list.sel(3))
  then have "b \<notin> set (tl (us @ [a]))" using assms v by (cases ys) auto
  moreover have "distinct (us @ [a])" using assms by (simp flip: u)
  moreover have "distinct (b # vs)" using assms by (simp flip: v)
  ultimately show thesis using that u v by blast
qed

lemma rep_add_between:
  assumes "rep st h (xs @ ys)" "allocated st n" "n \<notin> set (h # xs @ ys)"
  shows "\<exists>st'. list_add_between n (last (h # xs)) (hd (ys @ [h])) st = Ok st' \<and> rep st' h (xs @ n # ys) \<and>
    (\<forall>m. allocated st' m = allocated st m)"
proof -
  have d: "distinct (h # xs @ ys)" and l: "linked st ((h # xs) @ ys @ [h])" using assms(1) by (simp_all add: rep_def)
  from ring_cut [OF d] obtain us a b vs where c: "h # xs = us @ [a]" "ys @ [h] = b # vs" "distinct (us @ [a])"
    "distinct (b # vs)" "a \<notin> set (butlast (b # vs))" "b \<notin> set (tl (us @ [a]))" .
  have sets: "set (h # xs) = set (us @ [a])" "set (ys @ [h]) = set (b # vs)" using c(1,2) by simp_all
  have "n \<notin> set (us @ a # b # vs)" using assms(3) sets by auto
  with add_between_linked [of st us a b vs n] l c assms(2) obtain st' where
    s: "list_add_between n a b st = Ok st'" "linked st' (us @ a # n # b # vs)" "\<forall>q. (st' q = None) = (st q = None)"
    by (auto simp: allocated_def)
  have "us @ a # n # b # vs = (h # xs) @ n # ys @ [h]" unfolding c(1,2) by simp
  with s d assms(3) have "rep st' h (xs @ n # ys)" by (auto simp: rep_def)
  moreover have "last (h # xs) = a" "hd (ys @ [h]) = b" unfolding c(1,2) by simp_all
  ultimately show ?thesis using s(1,3) unfolding allocated_def by metis
qed

lemma rep_del:
  assumes "rep st h (xs @ n # ys)"
  shows "\<exists>st'. list_del n st = Ok st' \<and> rep (free_node n st') h (xs @ ys)"
proof -
  have d: "distinct (h # xs @ ys)" "n \<notin> set (h # xs @ ys)" and l: "linked st ((h # xs) @ n # ys @ [h])"
    using assms by (auto simp: rep_def)
  from ring_cut [OF d(1)] obtain us a b vs where c: "h # xs = us @ [a]" "ys @ [h] = b # vs" "distinct (us @ [a])"
    "distinct (b # vs)" "a \<notin> set (butlast (b # vs))" "b \<notin> set (tl (us @ [a]))" .
  have sets: "set (h # xs) = set (us @ [a])" "set (ys @ [h]) = set (b # vs)" using c(1,2) by simp_all
  have "n \<notin> set (us @ a # b # vs)" using d(2) sets by auto
  with del_linked [of st us a n b vs] l c obtain st' where
    s: "list_del n st = Ok st'" "linked (free_node n st') (us @ a # b # vs)" by auto
  have "us @ a # b # vs = (h # xs) @ ys @ [h]" unfolding c(1,2) by simp
  with s d(1) show ?thesis by (auto simp: rep_def)
qed

lemma rep_next: "rep st h (xs @ n # ys) \<Longrightarrow> get_next n st = Ok (hd (ys @ [h]))"
  using linked_append [of st "h # xs" n "ys @ [h]"] by (cases ys) (auto simp: rep_def)

lemma rep_head: "rep st h xs \<Longrightarrow> get_next h st = Ok (hd (xs @ [h])) \<and> get_prev h st = Ok (last (h # xs))"
proof -
  assume r: "rep st h xs"
  have "get_next h st = Ok (hd (xs @ [h]))" using r by (cases xs) (auto simp: rep_def)
  moreover have "get_prev h st = Ok (last (h # xs))"
  proof (cases xs rule: rev_cases)
    case (snoc ys y)
    then show ?thesis using r linked_append [of st "h # ys" y "[h]"] by (simp add: rep_def)
  qed (use r in \<open>simp add: rep_def\<close>)
  ultimately show ?thesis by simp
qed

interpretation advlist: node_list rep allocated INIT_LIST_HEAD list_add list_add_tail list_del free_node list_empty get_next
proof unfold_locales
  fix s h assume "allocated s h"
  then show "\<exists>s'. INIT_LIST_HEAD h s = Ok s' \<and> rep s' h []"
    by (auto simp: INIT_LIST_HEAD_def allocated_def rep_def link_defs)
next
  fix s h xs n assume r: "rep s h xs" "allocated s n" "n \<notin> set (h # xs)"
  show "\<exists>s'. list_add n h s = Ok s' \<and> rep s' h (n # xs) \<and> (\<forall>m. allocated s' m = allocated s m)"
    using rep_add_between [of s h "[]" xs n] r rep_head [OF r(1)] by (simp add: list_add_def)
  show "\<exists>s'. list_add_tail n h s = Ok s' \<and> rep s' h (xs @ [n]) \<and> (\<forall>m. allocated s' m = allocated s m)"
    using rep_add_between [of s h xs "[]" n] r rep_head [OF r(1)] by (simp add: list_add_tail_def)
next
  fix s h xs assume r: "rep s h xs"
  then show "list_empty h s = Ok (xs = [])"
    using rep_head [OF r] by (cases xs) (auto simp: list_empty_def rep_def)
qed (use rep_del rep_next rep_head in \<open>auto simp: rep_def\<close>)

end
