(* ===== verification/Vcom_Waitlist.thy ===== *)
theory Vcom_Waitlist
  imports Adv_List Vcom_Daemon
begin

text \<open>
  The list of sockets vc_connect waits for (daemon/state_mach/vc_client_netdown.c) is an intrusive
  list of client structures. The model of vc_connect in Vcom_States works on the list of their
  sockets; here are the loops on the links themselves, and that they do the same. \<open>skof\<close> is the
  field \<^verbatim>\<open>sk\<close> of the structure that contains a node.
\<close>

subsection \<open>The loops\<close>

definition wait_fds :: "(nat \<Rightarrow> int) \<Rightarrow> nat \<Rightarrow> lstore \<Rightarrow> (int list \<times> int) out option" where
  "wait_fds skof h st =
     (case list_for_each h st of
        None \<Rightarrow> None
      | Some r \<Rightarrow> Some (out_bind r (\<lambda>ps. Ok (foldl (\<lambda>s p. FD_SET (skof p) s) [] ps,
          foldl (\<lambda>m p. if skof p > m then skof p else m) (- 1) ps))))"

definition wait_verdict :: "'w os \<Rightarrow> int list \<Rightarrow> (nat \<Rightarrow> int) \<Rightarrow> nat \<Rightarrow> int \<times> 'w vc_attr \<Rightarrow> (verdict \<times> int \<times> 'w vc_attr) out" where
  "wait_verdict os ready skof p = (\<lambda>(sk, a).
     if \<not> FD_ISSET (skof p) ready then Ok (Keep, sk, a)
     else case sock_err os (skof p) (va_w a) of (e, w1) \<Rightarrow>
       if e \<noteq> 0 then out_bind (stk_log (a\<lparr>va_w := os_close os (skof p) w1\<rparr>)) (\<lambda>a'. Ok (Drop, sk, a'))
       else Ok (Take, skof p, a\<lparr>va_w := w1\<rparr>))"

definition scan_waitlist :: "'w os \<Rightarrow> int list \<Rightarrow> (nat \<Rightarrow> int) \<Rightarrow> nat \<Rightarrow> lstore \<times> int \<times> 'w vc_attr \<Rightarrow>
    (lstore \<times> int \<times> 'w vc_attr) out option" where
  "scan_waitlist os ready skof = list_for_each_safe (safe_body list_del free_node (wait_verdict os ready skof))"

definition close_verdict :: "'w os \<Rightarrow> (nat \<Rightarrow> int) \<Rightarrow> nat \<Rightarrow> 'w \<Rightarrow> (verdict \<times> 'w) out" where
  "close_verdict os skof p w = Ok (Drop, os_close os (skof p) w)"

definition close_waitlist :: "'w os \<Rightarrow> (nat \<Rightarrow> int) \<Rightarrow> nat \<Rightarrow> lstore \<times> 'w \<Rightarrow> (lstore \<times> 'w) out option" where
  "close_waitlist os skof = list_for_each_safe (safe_body list_del free_node (close_verdict os skof))"

subsection \<open>They do what the model does\<close>

lemma for_each_visits: "rep st h ps \<Longrightarrow> list_for_each h st = Some (Ok ps)"
  using advlist.walk_visits [of st h "[]" ps] advlist.nxt_head [of st h ps] by (simp add: list_for_each_def)

lemma for_each_safe_scans:
  assumes "rep st h ps" "scan_list verdict ps x = Ok (ps', x')"
  shows "\<exists>st'. list_for_each_safe (safe_body list_del free_node verdict) h (st, x) = Some (Ok (st', x')) \<and> rep st' h ps'"
proof -
  from advlist.nxt_of [of st h "[]" ps] assms(1) obtain n where
    n: "get_next (hd (ps @ [h])) st = Ok n" "ps \<noteq> [] \<longrightarrow> n = hd (tl ps @ [h])" by auto
  from advlist.scan_visits [of st h "[]" ps, OF _ assms(2) n(2)] assms(1) n(1) advlist.nxt_head [OF assms(1)]
  show ?thesis by (simp add: list_for_each_safe_def)
qed

lemma scan_list_clients:
  "scan_clients os ready (map skof ps) sk a = Ok (cl, sk', a') \<Longrightarrow>
    \<exists>ps'. scan_list (wait_verdict os ready skof) ps (sk, a) = Ok (ps', sk', a') \<and> map skof ps' = cl"
proof (induction ps arbitrary: sk a cl)
  case (Cons p ps)
  show ?case
  proof (cases "FD_ISSET (skof p) ready")
    case False
    with Cons.prems obtain cl1 where c: "scan_clients os ready (map skof ps) sk a = Ok (cl1, sk', a')" "cl = skof p # cl1"
      by (auto simp: out_bind_Ok_iff)
    have "wait_verdict os ready skof p (sk, a) = Ok (Keep, sk, a)" using False by (simp add: wait_verdict_def)
    with Cons.IH [OF c(1)] c(2) show ?thesis by auto
  next
    case True
    obtain e w1 where e: "sock_err os (skof p) (va_w a) = (e, w1)" by fastforce
    show ?thesis
    proof (cases "e = 0")
      case True
      with \<open>FD_ISSET (skof p) ready\<close> e Cons.prems show ?thesis by (auto simp: wait_verdict_def)
    next
      case False
      with \<open>FD_ISSET (skof p) ready\<close> e Cons.prems obtain a1 where
        a1: "stk_log (a\<lparr>va_w := os_close os (skof p) w1\<rparr>) = Ok a1" "scan_clients os ready (map skof ps) sk a1 = Ok (cl, sk', a')"
        by (auto simp: out_bind_Ok_iff)
      have "wait_verdict os ready skof p (sk, a) = Ok (Drop, sk, a1)"
        using False \<open>FD_ISSET (skof p) ready\<close> e a1(1) by (simp add: wait_verdict_def)
      with Cons.IH [OF a1(2)] show ?thesis by auto
    qed
  qed
qed simp

lemma scan_list_close: "scan_list (close_verdict os skof) ps w = Ok ([], foldl (\<lambda>w c. os_close os c w) w (map skof ps))"
  by (induction ps arbitrary: w) (simp_all add: close_verdict_def)

text \<open>
  C40. The loops of vc_connect over the intrusive list of waiting sockets implement the model's
  operations on a list: building the descriptor set visits every client once; the pass after
  \<^verbatim>\<open>select\<close>, which unlinks and frees clients while it runs, leaves exactly the clients the model
  leaves and never touches a freed one; the final loop closes and frees all of them and leaves an
  empty list.
\<close>

theorem waitlist_refines:
  assumes "rep st h ps" "scan_clients os ready (map skof ps) sk a = Ok (cl, sk', a')"
  shows "wait_fds skof h st = Some (Ok (foldl (\<lambda>s c. FD_SET c s) [] (map skof ps), sk_max (map skof ps))) \<and>
    (\<exists>st1 ps1. scan_waitlist os ready skof h (st, sk, a) = Some (Ok (st1, sk', a')) \<and> rep st1 h ps1 \<and> map skof ps1 = cl \<and>
      (\<exists>st2. close_waitlist os skof h (st1, w) = Some (Ok (st2, foldl (\<lambda>w c. os_close os c w) w cl)) \<and>
        list_empty h st2 = Ok True))"
proof -
  have "wait_fds skof h st = Some (Ok (foldl (\<lambda>s c. FD_SET c s) [] (map skof ps), sk_max (map skof ps)))"
    by (simp add: wait_fds_def for_each_visits [OF assms(1)] sk_max_def foldl_map)
  moreover from scan_list_clients [OF assms(2)] obtain ps1 where
    p1: "scan_list (wait_verdict os ready skof) ps (sk, a) = Ok (ps1, sk', a')" "map skof ps1 = cl" by blast
  from for_each_safe_scans [OF assms(1) p1(1)] obtain st1 where
    s1: "scan_waitlist os ready skof h (st, sk, a) = Some (Ok (st1, sk', a'))" "rep st1 h ps1"
    by (auto simp: scan_waitlist_def)
  from for_each_safe_scans [OF s1(2) scan_list_close, of os skof w] obtain st2 where
    s2: "close_waitlist os skof h (st1, w) = Some (Ok (st2, foldl (\<lambda>w c. os_close os c w) w cl))" "rep st2 h []"
    using p1(2) by (auto simp: close_waitlist_def)
  ultimately show ?thesis using s1 p1(2) advlist.empt_ok [OF s2(2)] by auto
qed

text \<open>Two waiting clients, built with list_add_tail.\<close>

definition sample_links :: lstore where
  "sample_links = (\<lambda>p. if p \<in> {1, 2, 3} then Some \<lparr>lh_next = 0, lh_prev = 0\<rparr> else None)"

lemma sample_links_rep:
  "\<exists>st. out_bind (INIT_LIST_HEAD 1 sample_links) (\<lambda>st. out_bind (list_add_tail 2 1 st) (list_add_tail 3 1)) = Ok st \<and> rep st 1 [2, 3]"
  by (auto simp: INIT_LIST_HEAD_def list_add_tail_def list_add_between_def link_defs sample_links_def rep_def)

lemma waitlist_refines_witness:
  "\<exists>st sk' a' st1. rep st 1 [2, 3] \<and> scan_waitlist sample_os [] (\<lambda>p. int p + 10) 1 (st, - 1, sample_attr (- 1) None 0 [NETDOWN] []) = Some (Ok (st1, sk', a'))"
proof -
  obtain st where st: "rep st 1 [2, 3]" using sample_links_rep by blast
  have "scan_clients sample_os [] (map (\<lambda>p. int p + 10) [2, 3]) (- 1) (sample_attr (- 1) None 0 [NETDOWN] []) = Ok ([12, 13], - 1, sample_attr (- 1) None 0 [NETDOWN] [])"
    by (simp add: FD_ISSET_def)
  from waitlist_refines [OF st this] st show ?thesis by blast
qed

end
