(* ===== verification/C_Text.thy ===== *)
theory C_Text
  imports VC_Prelude
begin

text \<open>
  The text functions of the C library the tools and the daemon use: blanks and digits, decimal
  printing, the conversions of \<^verbatim>\<open>sscanf\<close>, \<^verbatim>\<open>atoi\<close>, \<^verbatim>\<open>strstr\<close>, \<^verbatim>\<open>fgets\<close>, \<^verbatim>\<open>snprintf\<close> and \<^verbatim>\<open>getopt\<close>. A
  string is the list of its bytes without the terminating zero; a string inside a buffer is read
  with \<open>c_str\<close>, which is \<open>Crash\<close> when the buffer has no zero behind the position.
\<close>

named_theorems text_simps \<open>evaluation of scanned and printed text\<close>

abbreviation (input) str :: "string \<Rightarrow> byte list" where
  "str s \<equiv> map of_char s"

definition is_space :: "byte \<Rightarrow> bool" where
  "is_space c \<longleftrightarrow> c = 32 \<or> (9 \<le> c \<and> c \<le> 13)"

definition is_digit :: "byte \<Rightarrow> bool" where
  "is_digit c \<longleftrightarrow> 48 \<le> c \<and> c \<le> 57"

definition is_xdigit :: "byte \<Rightarrow> bool" where
  "is_xdigit c \<longleftrightarrow> is_digit c \<or> (65 \<le> c \<and> c \<le> 70) \<or> (97 \<le> c \<and> c \<le> 102)"

definition digit_val :: "byte \<Rightarrow> int" where
  "digit_val c = (if is_digit c then uint c - 48 else if c \<le> 70 then uint c - 55 else uint c - 87)"

definition base_val :: "int \<Rightarrow> byte list \<Rightarrow> int" where
  "base_val b ds = foldl (\<lambda>n c. b * n + digit_val c) 0 ds"

subsection \<open>Strings in buffers\<close>

definition c_str :: "byte list \<Rightarrow> nat \<Rightarrow> byte list out" where
  "c_str buf i = (if 0 \<in> set (drop i buf) then Ok (takeWhile (\<lambda>c. c \<noteq> 0) (drop i buf)) else Crash)"

fun strstr :: "byte list \<Rightarrow> byte list \<Rightarrow> nat option" where
  "strstr [] n = (if n = [] then Some 0 else None)"
| "strstr (c # cs) n = (if take (length n) (c # cs) = n then Some 0 else map_option Suc (strstr cs n))"

text \<open>The string that \<^verbatim>\<open>snprintf\<close> leaves in a buffer of \<open>n\<close> bytes; its result is the length of \<open>s\<close>.\<close>

definition snprintf_text :: "nat \<Rightarrow> byte list \<Rightarrow> byte list" where
  "snprintf_text n s = take (n - 1) s"

text \<open>One line of at most \<open>n - 1\<close> bytes with its newline, and what is left of the file.\<close>

definition fgets :: "nat \<Rightarrow> byte list \<Rightarrow> (byte list \<times> byte list) option" where
  "fgets n s =
     (if s = [] then None
      else let l = length (takeWhile (\<lambda>c. c \<noteq> 10) s); k = min (l + 1) (n - 1) in Some (take k s, drop k s))"

subsection \<open>Conversions\<close>

definition scan_sign :: "byte list \<Rightarrow> bool \<times> byte list" where
  "scan_sign s =
     (case s of
        [] \<Rightarrow> (False, [])
      | c # cs \<Rightarrow> if c = 45 then (True, cs) else if c = 43 then (False, cs) else (False, s))"

text \<open>\<^verbatim>\<open>strtol\<close> saturates at the ends of a 64-bit long; \<^verbatim>\<open>%d\<close> and \<^verbatim>\<open>atoi\<close> keep the low 32 bits.\<close>

definition scan_long :: "byte list \<Rightarrow> (int \<times> byte list) option" where
  "scan_long s =
     (let (neg, s1) = scan_sign (dropWhile is_space s);
          ds = takeWhile is_digit s1;
          v = base_val 10 ds
      in if ds = [] then None
         else Some (if neg then max (- (2 ^ 63)) (- v) else min (2 ^ 63 - 1) v, drop (length ds) s1))"

definition scan_int :: "byte list \<Rightarrow> (int \<times> byte list) option" where
  "scan_int s = map_option (\<lambda>(v, r). (c_int v, r)) (scan_long s)"

definition atol :: "byte list \<Rightarrow> int" where
  "atol s = (case scan_long s of None \<Rightarrow> 0 | Some (v, r) \<Rightarrow> v)"

definition atoi :: "byte list \<Rightarrow> int" where
  "atoi s = c_int (atol s)"

text \<open>The unsigned conversions, before they are cut to the width of their variable.\<close>

definition hex_prefix :: "byte list \<Rightarrow> bool" where
  "hex_prefix s \<longleftrightarrow> (case s of c # d # e # r \<Rightarrow> c = 48 \<and> d \<in> {120, 88} \<and> is_xdigit e | _ \<Rightarrow> False)"

definition scan_ulong :: "int \<Rightarrow> byte list \<Rightarrow> (int \<times> byte list) option" where
  "scan_ulong b s =
     (let (neg, s1) = scan_sign (dropWhile is_space s);
          s2 = (if b = 16 \<and> hex_prefix s1 then drop 2 s1 else s1);
          ds = takeWhile (if b = 16 then is_xdigit else is_digit) s2;
          v = base_val b ds
      in if ds = [] then None
         else Some (if 2 ^ 64 \<le> v then 2 ^ 64 - 1 else if neg then (- v) mod 2 ^ 64 else v, drop (length ds) s2))"

definition scan_str :: "nat \<Rightarrow> byte list \<Rightarrow> (byte list \<times> byte list) option" where
  "scan_str w s =
     (let s1 = dropWhile is_space s;
          t = take w (takeWhile (\<lambda>c. \<not> is_space c) s1)
      in if t = [] then None else Some (t, drop (length t) s1))"

definition scan_char :: "byte \<Rightarrow> byte list \<Rightarrow> byte list option" where
  "scan_char c s = (case s of [] \<Rightarrow> None | d # ds \<Rightarrow> if d = c then Some ds else None)"

subsection \<open>Decimal printing\<close>

fun dec_nat :: "nat \<Rightarrow> byte list" where
  "dec_nat n = (if n < 10 then [48 + of_nat n] else dec_nat (n div 10) @ [48 + of_nat (n mod 10)])"

declare dec_nat.simps [simp del]

definition dec :: "int \<Rightarrow> byte list" where
  "dec i = (if i < 0 then 45 # dec_nat (nat (- i)) else dec_nat (nat i))"

subsection \<open>Command lines\<close>

text \<open>
  \<^verbatim>\<open>getopt\<close> on the arguments behind the program name: the options it reports in their order, \<open>63\<close>
  (a question mark) for an unknown option or a missing value. \<open>spec\<close> says of an option letter
  whether it exists and whether it takes a value. Other arguments are skipped, \<^verbatim>\<open>--\<close> ends the options.
\<close>

function getopt :: "(byte \<Rightarrow> bool option) \<Rightarrow> byte list list \<Rightarrow> (byte \<times> byte list) list"
  and getopt_in :: "(byte \<Rightarrow> bool option) \<Rightarrow> byte list \<Rightarrow> byte list list \<Rightarrow> (byte \<times> byte list) list" where
  "getopt spec [] = []"
| "getopt spec (a # as) =
     (if a = [45, 45] then []
      else if 2 \<le> length a \<and> hd a = 45 then getopt_in spec (tl a) as
      else getopt spec as)"
| "getopt_in spec [] as = getopt spec as"
| "getopt_in spec (c # cs) as =
     (case spec c of
        None \<Rightarrow> (63, []) # getopt_in spec cs as
      | Some False \<Rightarrow> (c, []) # getopt_in spec cs as
      | Some True \<Rightarrow>
          if cs \<noteq> [] then (c, cs) # getopt spec as
          else (case as of [] \<Rightarrow> [(63, [])] | b # bs \<Rightarrow> (c, b) # getopt spec bs))"
  by pat_completeness auto
termination
  by (relation "measure (\<lambda>x. case x of
      Inl (spec, as) \<Rightarrow> sum_list (map (\<lambda>a. length a + 2) as)
    | Inr (spec, cs, as) \<Rightarrow> length cs + 1 + sum_list (map (\<lambda>a. length a + 2) as))") auto

subsection \<open>Laws\<close>

definition word_text :: "byte list \<Rightarrow> bool" where
  "word_text s \<longleftrightarrow> s \<noteq> [] \<and> (\<forall>c\<in>set s. \<not> is_space c \<and> c \<noteq> 0)"

lemma is_space_simps [simp]: "is_space 32" "is_space 9" "is_space 10" "\<not> is_space 48" "\<not> is_space 0" "\<not> is_space 45"
  by (simp_all add: is_space_def word_le_nat_alt)

lemma digit_not_space: "is_digit c \<Longrightarrow> \<not> is_space c \<and> c \<noteq> 0 \<and> c \<noteq> 45 \<and> c \<noteq> 43"
  by (auto simp: is_digit_def is_space_def word_le_nat_alt)

lemma base_val_Nil [simp]: "base_val b [] = 0"
  by (simp add: base_val_def)

lemma base_val_snoc [simp]: "base_val b (ds @ [d]) = b * base_val b ds + digit_val d"
  by (simp add: base_val_def)

lemma dec_digit: "n < 10 \<Longrightarrow> is_digit (48 + of_nat n) \<and> digit_val (48 + of_nat n) = int n"
proof -
  assume "n < 10"
  hence "n \<in> {0, 1, 2, 3, 4, 5, 6, 7, 8, 9}" by auto
  thus ?thesis by (auto simp: is_digit_def digit_val_def word_le_nat_alt)
qed

lemma dec_nat_digits: "list_all is_digit (dec_nat n) \<and> dec_nat n \<noteq> [] \<and> base_val 10 (dec_nat n) = int n"
proof (induction n rule: dec_nat.induct)
  case (1 n)
  show ?case
  proof (cases "n < 10")
    case True thus ?thesis using dec_digit [of n] base_val_snoc [of 10 "[]"] by (simp add: dec_nat.simps)
  next
    case False
    have "10 * int (n div 10) + int (n mod 10) = int n" by (metis mult_div_mod_eq of_nat_add of_nat_mult of_nat_numeral)
    with False 1 show ?thesis using dec_digit [of "n mod 10"] by (simp add: dec_nat.simps [of n])
  qed
qed

lemma dec_nat_length: "n < 10 ^ k \<Longrightarrow> 0 < k \<Longrightarrow> length (dec_nat n) \<le> k"
proof (induction k arbitrary: n)
  case (Suc k)
  show ?case
  proof (cases "n < 10")
    case True thus ?thesis by (simp add: dec_nat.simps)
  next
    case False
    hence "0 < k" using Suc.prems by (cases k) auto
    moreover have "n div 10 < 10 ^ k" using Suc.prems(1) by (simp add: less_mult_imp_div_less mult.commute)
    ultimately show ?thesis using Suc.IH [of "n div 10"] False by (simp add: dec_nat.simps [of n])
  qed
qed simp

lemma takeWhile_stop: "list_all P xs \<Longrightarrow> (ys = [] \<or> \<not> P (hd ys)) \<Longrightarrow> takeWhile P (xs @ ys) = xs"
  by (induction xs) (auto split: list.splits simp: neq_Nil_conv takeWhile_eq_Nil_iff)

lemma dropWhile_word: "word_text s \<Longrightarrow> dropWhile is_space (s @ r) = s @ r"
  by (cases s) (auto simp: word_text_def)

lemma dropWhile_blanks: "list_all is_space bs \<Longrightarrow> dropWhile is_space (bs @ s) = dropWhile is_space s"
  by (induction bs) auto

lemma scan_str_word:
  assumes "word_text t" "length t \<le> w" "r = [] \<or> is_space (hd r)"
  shows "scan_str w (t @ r) = Some (t, r)"
proof -
  have "list_all (\<lambda>c. \<not> is_space c) t" using assms(1) by (auto simp: word_text_def list_all_iff)
  hence "takeWhile (\<lambda>c. \<not> is_space c) (t @ r) = t" using assms(3) by (intro takeWhile_stop) auto
  thus ?thesis using assms(1,2) by (cases w) (simp_all add: scan_str_def dropWhile_word Let_def word_text_def)
qed

lemma scan_str_blank: "list_all is_space bs \<Longrightarrow> scan_str w (bs @ s) = scan_str w s"
  by (simp add: scan_str_def dropWhile_blanks)

lemma scan_str_result:
  assumes "scan_str w s = Some (t, r)"
  shows "t \<noteq> [] \<and> length t \<le> w \<and> (\<forall>c\<in>set t. \<not> is_space c) \<and> set t \<subseteq> set s \<and> set r \<subseteq> set s"
proof -
  define s1 where "s1 = dropWhile is_space s"
  define u where "u = takeWhile (\<lambda>c. \<not> is_space c) s1"
  have t: "t = take w u" "t \<noteq> []" and r: "r = drop (length t) s1"
    using assms [unfolded scan_str_def Let_def, folded s1_def, folded u_def] by (auto split: if_splits)
  have s1: "set s1 \<subseteq> set s" by (auto simp: s1_def dest: set_dropWhileD)
  have u: "\<not> is_space c \<and> c \<in> set s1" if "c \<in> set u" for c using set_takeWhileD [OF that [unfolded u_def]] by simp
  have "set t \<subseteq> set u" unfolding t(1) by (rule set_take_subset)
  moreover have "set r \<subseteq> set s1" unfolding r by (rule set_drop_subset)
  moreover have "length t \<le> w" by (simp add: t(1))
  ultimately show ?thesis using t(2) u s1 by blast
qed

lemma sign_digit: "list_all is_digit ds \<Longrightarrow> ds \<noteq> [] \<Longrightarrow> scan_sign (ds @ r) = (False, ds @ r)"
  by (cases ds) (auto simp: scan_sign_def dest: digit_not_space)

lemma word_digits: "list_all is_digit ds \<Longrightarrow> ds \<noteq> [] \<Longrightarrow> word_text ds"
  by (auto simp: word_text_def list_all_iff dest: digit_not_space)

lemma scan_long_dec:
  assumes "list_all is_digit ds" "ds \<noteq> []" "r = [] \<or> \<not> is_digit (hd r)"
  shows "scan_long (ds @ r) = Some (min (2 ^ 63 - 1) (base_val 10 ds), r)"
  using assms by (simp add: scan_long_def dropWhile_word word_digits sign_digit takeWhile_stop Let_def)

lemma atoi_dec: "int n < 2 ^ 31 \<Longrightarrow> atoi (dec_nat n) = int n"
  using scan_long_dec [of "dec_nat n" "[]"] dec_nat_digits [of n]
  by (simp add: atoi_def atol_def c_int_small)

lemma strstr_absent: "n \<noteq> [] \<Longrightarrow> hd n \<notin> set h \<Longrightarrow> strstr h n = None"
  by (induction h) (auto simp: neq_Nil_conv)

lemma strstr_Some: "strstr h n = Some k \<Longrightarrow> \<exists>r. h = take k h @ n @ r \<and> k + length n \<le> length h"
proof (induction h arbitrary: k)
  case (Cons c cs)
  show ?case
  proof (cases "take (length n) (c # cs) = n")
    case True
    have "c # cs = n @ drop (length n) (c # cs)" using True by (metis append_take_drop_id)
    moreover have "length n \<le> length (c # cs)" using True by (metis nat_le_linear take_all order_refl)
    moreover have "k = 0" using Cons.prems True by simp
    ultimately show ?thesis by (intro exI [of _ "drop (length n) (c # cs)"]) (simp del: drop_Suc_Cons)
  next
    case False
    then obtain j where j: "strstr cs n = Some j" "k = Suc j" using Cons.prems by auto
    thus ?thesis using Cons.IH [OF j(1)] by auto
  qed
qed (auto split: if_splits)

lemma takeWhile_until: "x \<notin> set l \<Longrightarrow> takeWhile (\<lambda>c. c \<noteq> x) (l @ x # r) = l"
  by (rule takeWhile_stop) (auto simp: list_all_iff)

lemma c_str_at: "0 \<notin> set s \<Longrightarrow> c_str (pre @ s @ 0 # post) (length pre) = Ok s"
  by (simp add: c_str_def takeWhile_until)

lemma fgets_shrinks: "fgets n s = Some (l, r) \<Longrightarrow> 2 \<le> n \<Longrightarrow> length r < length s"
  by (auto simp: fgets_def Let_def split: if_splits)

lemma fgets_line:
  assumes "10 \<notin> set l" "length l + 1 < n"
  shows "fgets n (l @ 10 # r) = Some (l @ [10], r)"
proof -
  have "takeWhile (\<lambda>c. c \<noteq> 10) (l @ 10 # r) = l" using assms(1) by (rule takeWhile_until)
  thus ?thesis using assms(2) by (simp add: fgets_def Let_def min_def)
qed

text \<open>All lines of a file, read with a buffer of \<open>n\<close> bytes.\<close>

function fgets_all :: "nat \<Rightarrow> byte list \<Rightarrow> byte list list" where
  "fgets_all n file =
     (if n < 2 then [] else case fgets n file of None \<Rightarrow> [] | Some (l, rest) \<Rightarrow> l # fgets_all n rest)"
  by pat_completeness auto
termination
  by (relation "measure (\<lambda>(n, file). length file)") (auto dest: fgets_shrinks)

declare fgets_all.simps [simp del]

lemma fgets_all_lines:
  assumes "\<forall>l\<in>set ls. 10 \<notin> set l \<and> length l + 1 < n"
  shows "fgets_all n (concat (map (\<lambda>l. l @ [10]) ls)) = map (\<lambda>l. l @ [10]) ls"
  using assms
proof (induction ls)
  case Nil show ?case by (subst fgets_all.simps) (simp add: fgets_def)
next
  case (Cons l ls)
  thus ?case using fgets_line [of l n "concat (map (\<lambda>l. l @ [10]) ls)"] by (subst fgets_all.simps) simp
qed

end
