(* ===== verification/Proc_Tools.thy ===== *)
theory Proc_Tools
  imports C_Text
begin

text \<open>
  shared/proc_tools/proc_tools.c: finding the process that holds a proc file open, its command line
  and the options on it, and finding the socket of a listening port. What \<^verbatim>\<open>/proc\<close> contains is a
  parameter: the entries of a directory, the inode of a path and the contents of a file. One search
  sees one state of it.
\<close>

record procfs =
  pf_dir :: "byte list \<Rightarrow> byte list list option"
  pf_ino :: "byte list \<Rightarrow> u64 option"
  pf_file :: "byte list \<Rightarrow> byte list option"

subsection \<open>Sockets of a port\<close>

text \<open>
  One line of \<^verbatim>\<open>/proc/net/tcp\<close>: slot, local and remote address, state, five words and the inode. Fewer
  than ten conversions skip the line.
\<close>

definition scan_tcp_line :: "byte list \<Rightarrow> (byte list \<times> u32 \<times> u64) option" where
  "scan_tcp_line s0 =
     Option.bind (scan_int s0) (\<lambda>(sl, s1).
     Option.bind (scan_char 58 s1) (\<lambda>s2.
     Option.bind (scan_str 63 s2) (\<lambda>(laddr, s3).
     Option.bind (scan_str 63 s3) (\<lambda>(raddr, s4).
     Option.bind (scan_ulong 16 s4) (\<lambda>(state, s5).
     Option.bind (scan_str 1023 s5) (\<lambda>(t1, s6).
     Option.bind (scan_str 1023 s6) (\<lambda>(t2, s7).
     Option.bind (scan_str 1023 s7) (\<lambda>(t3, s8).
     Option.bind (scan_str 1023 s8) (\<lambda>(t4, s9).
     Option.bind (scan_str 1023 s9) (\<lambda>(t5, s10).
     Option.bind (scan_ulong 10 s10) (\<lambda>(inode, s11).
       Some (laddr, word_of_int state, word_of_int inode))))))))))))"

text \<open>The variable \<open>lport\<close> keeps its value when the text behind the colon is no number.\<close>

definition local_port :: "byte list \<Rightarrow> u16 \<Rightarrow> u16 option" where
  "local_port laddr lport =
     map_option (\<lambda>k. case scan_ulong 16 (drop (k + 1) laddr) of None \<Rightarrow> lport | Some (v, r) \<Rightarrow> word_of_int v)
       (strstr laddr [58])"

function search_lport_loop :: "u16 \<Rightarrow> u16 \<Rightarrow> u16 \<Rightarrow> byte list \<Rightarrow> u64 option" where
  "search_lport_loop port stat lport file =
     (case fgets 2048 file of
        None \<Rightarrow> None
      | Some (buf, rest) \<Rightarrow>
          (case scan_tcp_line (takeWhile (\<lambda>c. c \<noteq> 0) buf) of
             None \<Rightarrow> search_lport_loop port stat lport rest
           | Some (laddr, state, inode) \<Rightarrow>
               if state \<noteq> ucast stat then search_lport_loop port stat lport rest
               else (case local_port laddr lport of
                   None \<Rightarrow> search_lport_loop port stat lport rest
                 | Some lport' \<Rightarrow>
                     if lport' = port then Some inode else search_lport_loop port stat lport' rest)))"
  by pat_completeness auto
termination
  by (relation "measure (\<lambda>(port, stat, lport, file). length file)") (auto dest: fgets_shrinks)

declare search_lport_loop.simps [simp del]

definition search_lport_stat_inode :: "procfs \<Rightarrow> u16 \<Rightarrow> int \<Rightarrow> u16 \<Rightarrow> u16 \<Rightarrow> u64 option" where
  "search_lport_stat_inode pf lport ipfamily port stat =
     (case pf_file pf (str ''/proc/net/tcp'' @ (if ipfamily = 4 then [] else str ''6'')) of
        None \<Rightarrow> None
      | Some file \<Rightarrow>
          search_lport_loop port stat lport (case fgets 2048 file of None \<Rightarrow> file | Some (buf, rest) \<Rightarrow> rest))"

definition search_port_inode :: "procfs \<Rightarrow> u16 \<Rightarrow> u16 \<Rightarrow> u16 \<Rightarrow> u64 option" where
  "search_port_inode pf lport port stat =
     (case search_lport_stat_inode pf lport 4 port stat of
        Some inode \<Rightarrow> Some inode
      | None \<Rightarrow> search_lport_stat_inode pf lport 6 port stat)"

text \<open>The search finds the first line with the port and the state, if every local address has a port number.\<close>

definition tcp_entry :: "u16 \<Rightarrow> u16 \<Rightarrow> byte list \<Rightarrow> u64 option" where
  "tcp_entry port stat line =
     (case scan_tcp_line (takeWhile (\<lambda>c. c \<noteq> 0) line) of
        None \<Rightarrow> None
      | Some (laddr, state, inode) \<Rightarrow> if state = ucast stat \<and> local_port laddr 0 = Some port then Some inode else None)"

definition has_port :: "byte list \<Rightarrow> bool" where
  "has_port line \<longleftrightarrow> (\<forall>laddr state inode lport. scan_tcp_line (takeWhile (\<lambda>c. c \<noteq> 0) line) = Some (laddr, state, inode) \<longrightarrow>
     local_port laddr lport = local_port laddr 0)"

lemma search_lport_first:
  assumes "\<forall>line\<in>set (fgets_all 2048 file). has_port line"
  shows "search_lport_loop port stat lport file =
    (case List.map_filter (tcp_entry port stat) (fgets_all 2048 file) of [] \<Rightarrow> None | inode # _ \<Rightarrow> Some inode)"
  using assms
proof (induction "length file" arbitrary: "file" lport rule: less_induct)
  case less
  show ?case
  proof (cases "fgets 2048 file")
    case None thus ?thesis by (simp add: search_lport_loop.simps [of port] fgets_all.simps [of 2048] map_filter_simps)
  next
    case (Some p)
    obtain l r where p: "p = (l, r)" by force
    have r: "length r < length file" using fgets_shrinks Some p by simp
    have all: "fgets_all 2048 file = l # fgets_all 2048 r" using Some p by (simp add: fgets_all.simps [of 2048])
    have ih: "search_lport_loop port stat lp r =
        (case List.map_filter (tcp_entry port stat) (fgets_all 2048 r) of [] \<Rightarrow> None | inode # _ \<Rightarrow> Some inode)" for lp
      using less.hyps [OF r] less.prems all by simp
    have "local_port laddr lport = local_port laddr 0" if "scan_tcp_line (takeWhile (\<lambda>c. c \<noteq> 0) l) = Some (laddr, state, inode)" for laddr state inode
      using less.prems all that by (simp add: has_port_def)
    thus ?thesis using Some p all ih
      by (auto simp: search_lport_loop.simps [of port stat lport "file"] tcp_entry_def map_filter_simps split: option.splits)
  qed
qed

subsection \<open>Processes\<close>

definition starts_digit :: "byte list \<Rightarrow> bool" where
  "starts_digit name \<longleftrightarrow> name \<noteq> [] \<and> is_digit (hd name)"

definition proc_path :: "int \<Rightarrow> byte list" where
  "proc_path pid = str ''/proc/'' @ dec pid"

definition fd_path :: "int \<Rightarrow> byte list" where
  "fd_path pid = proc_path pid @ str ''/fd''"

fun fd_loop :: "procfs \<Rightarrow> int \<Rightarrow> u64 \<Rightarrow> byte list list \<Rightarrow> int" where
  "fd_loop pf pid inode [] = - 1"
| "fd_loop pf pid inode (name # rest) =
     (if \<not> starts_digit name then fd_loop pf pid inode rest
      else if pf_ino pf (fd_path pid @ str ''/'' @ dec (atoi name)) = Some inode then 0
      else fd_loop pf pid inode rest)"

definition pid_search_fd_inode :: "procfs \<Rightarrow> int \<Rightarrow> u64 \<Rightarrow> int" where
  "pid_search_fd_inode pf pid inode =
     (case pf_dir pf (fd_path pid) of None \<Rightarrow> - 1 | Some names \<Rightarrow> fd_loop pf pid inode names)"

text \<open>The command line is read over the beginning of the buffer; what was behind it stays.\<close>

definition pidpath_get_cmd :: "procfs \<Rightarrow> byte list \<Rightarrow> byte list \<Rightarrow> int \<times> byte list" where
  "pidpath_get_cmd pf pidpath cmd =
     (case pf_file pf pidpath of
        None \<Rightarrow> (- 1, cmd)
      | Some s \<Rightarrow>
          let d = take (length cmd) s
          in if d = [] then (- 1, cmd) else (int (length d), d @ drop (length d) cmd))"

definition pid_get_cmd :: "procfs \<Rightarrow> int \<Rightarrow> byte list \<Rightarrow> int \<times> byte list" where
  "pid_get_cmd pf pid cmd = pidpath_get_cmd pf (str ''/poc/'' @ dec (pid mod 2 ^ 64) @ str ''/cmdline'') cmd"

definition cmd_path :: "int \<Rightarrow> byte list" where
  "cmd_path pid = proc_path pid @ str ''/cmdline''"

definition cmd_matches :: "byte list option \<Rightarrow> byte list \<Rightarrow> bool out" where
  "cmd_matches cmd buf =
     (case cmd of None \<Rightarrow> Ok True | Some c \<Rightarrow> out_bind (c_str buf 0) (\<lambda>s. Ok (strstr s c \<noteq> None)))"

fun search_pid_loop :: "procfs \<Rightarrow> byte list option \<Rightarrow> u64 \<Rightarrow> byte list list \<Rightarrow> byte list \<Rightarrow> ((int \<times> int) option \<times> byte list) out" where
  "search_pid_loop pf cmd inode [] buf = Ok (None, buf)"
| "search_pid_loop pf cmd inode (name # rest) buf =
     (if \<not> starts_digit name then search_pid_loop pf cmd inode rest buf
      else let pid = atol name in
        if pf_ino pf (proc_path pid) = None then search_pid_loop pf cmd inode rest buf
        else let (cmdlen, buf') = pidpath_get_cmd pf (cmd_path pid) buf in
          if cmdlen \<le> 0 then search_pid_loop pf cmd inode rest buf'
          else out_bind (cmd_matches cmd buf') (\<lambda>hit.
            if hit \<and> pid_search_fd_inode pf (c_int pid) inode = 0 then Ok (Some (cmdlen, c_int pid), buf')
            else search_pid_loop pf cmd inode rest buf'))"

definition cmd_inode_search_pid :: "procfs \<Rightarrow> byte list option \<Rightarrow> u64 \<Rightarrow> byte list \<Rightarrow> ((int \<times> int) option \<times> byte list) out" where
  "cmd_inode_search_pid pf cmd inode buf =
     (case pf_dir pf (str ''/proc'') of None \<Rightarrow> Ok (None, buf) | Some names \<Rightarrow> search_pid_loop pf cmd inode names buf)"

subsection \<open>Options of a command line\<close>

text \<open>The position of the value of an option in the buffer; None is the null pointer.\<close>

function get_opts_loop :: "byte list \<Rightarrow> int \<Rightarrow> byte list \<Rightarrow> nat \<Rightarrow> nat option out" where
  "get_opts_loop cmd cmdlen opt i =
     (case c_str cmd i of
        Ok s \<Rightarrow>
          (case strstr s opt of
             Some k \<Rightarrow> Ok (Some (i + k + length opt + (if s = opt then 1 else 0)))
           | None \<Rightarrow>
               let i' = i + length s + 1
               in if int i' < cmdlen then get_opts_loop cmd cmdlen opt i' else Ok None)
      | Exit \<Rightarrow> Exit | Crash \<Rightarrow> Crash | Hang \<Rightarrow> Hang)"
  by pat_completeness auto
termination
  by (relation "measure (\<lambda>(cmd, cmdlen, opt, i). nat (cmdlen - int i))") auto

declare get_opts_loop.simps [simp del]

definition cmd_get_opts :: "byte list \<Rightarrow> int \<Rightarrow> byte list \<Rightarrow> nat option out" where
  "cmd_get_opts cmd cmdlen opt = get_opts_loop cmd cmdlen opt 0"

subsection \<open>The command line of a process\<close>

text \<open>
  The kernel shows the arguments of a process one after the other, each with its terminating zero. An
  option written in one argument with its value is found if no earlier argument contains it.
\<close>

definition cmdline :: "byte list list \<Rightarrow> byte list" where
  "cmdline as = concat (map (\<lambda>a. a @ [0]) as)"

fun opt_value :: "byte list list \<Rightarrow> byte list \<Rightarrow> byte list option" where
  "opt_value [] opt = None"
| "opt_value (a # as) opt =
     (case strstr a opt of Some k \<Rightarrow> Some (drop (k + length opt) a) | None \<Rightarrow> opt_value as opt)"

lemma cmdline_simps [simp]: "cmdline [] = []" "cmdline (a # as) = a @ 0 # cmdline as"
  by (simp_all add: cmdline_def)

lemma c_str_inside:
  assumes "0 \<notin> set a" "j \<le> length a"
  shows "c_str (pre @ a @ 0 # post) (length pre + j) = Ok (drop j a)"
proof -
  have "drop (length pre + j) (pre @ a @ 0 # post) = drop j a @ 0 # post" using assms(2) by simp
  moreover have "0 \<notin> set (drop j a)" using assms(1) by (meson in_set_dropD)
  ultimately show ?thesis by (simp add: c_str_def takeWhile_until)
qed

lemma get_opts_step:
  assumes "0 \<notin> set a" "a \<noteq> opt"
  shows "get_opts_loop (pre @ a @ 0 # post) n opt (length pre) =
    (case strstr a opt of
       Some k \<Rightarrow> Ok (Some (length pre + (k + length opt)))
     | None \<Rightarrow> if int (length pre + length a + 1) < n then get_opts_loop (pre @ a @ 0 # post) n opt (length pre + length a + 1) else Ok None)"
  using assms c_str_inside [of a 0 pre post] by (subst get_opts_loop.simps) (simp add: Let_def split: option.split)

lemma opt_in_arg: "strstr a opt = Some k \<Longrightarrow> 0 \<notin> set a \<Longrightarrow>
    c_str (pre @ a @ 0 # post) (length pre + (k + length opt)) = Ok (drop (k + length opt) a)"
  by (rule c_str_inside) (use strstr_Some in blast)+

lemma get_opts_at:
  assumes "\<forall>a\<in>set as. 0 \<notin> set a \<and> a \<noteq> opt" "as \<noteq> []"
  shows "\<exists>r. get_opts_loop (pre @ cmdline as @ junk) (int (length pre + length (cmdline as))) opt (length pre) = Ok r \<and>
      (case opt_value as opt of
         None \<Rightarrow> r = None
       | Some v \<Rightarrow> \<exists>p. r = Some p \<and> c_str (pre @ cmdline as @ junk) p = Ok v)"
  using assms
proof (induction as arbitrary: pre)
  case (Cons a as)
  let ?post = "cmdline as @ junk"
  have a: "0 \<notin> set a" "a \<noteq> opt" using Cons.prems by auto
  note st = get_opts_step [OF a, of pre ?post "int (length pre + length (cmdline (a # as)))"]
  show ?case
  proof (cases "strstr a opt")
    case None
    show ?thesis
    proof (cases as)
      case Nil thus ?thesis using st None by simp
    next
      case (Cons b bs)
      hence "\<forall>a\<in>set as. 0 \<notin> set a \<and> a \<noteq> opt" "as \<noteq> []" using Cons.prems by auto
      note ih = Cons.IH [OF this, of "pre @ a @ [0]"]
      have "length pre + length a + 1 = length (pre @ a @ [0])" "0 < length (cmdline as)" using Cons by auto
      thus ?thesis using ih st None by (simp add: add_ac cong: option.case_cong)
    qed
  next
    case (Some k)
    thus ?thesis using st opt_in_arg [OF Some a(1), of pre ?post] by auto
  qed
qed simp

text \<open>The options of a command line, found in a buffer that holds it.\<close>

lemma cmd_get_opts_value:
  assumes "\<forall>a\<in>set as. 0 \<notin> set a \<and> a \<noteq> opt" "as \<noteq> []"
  shows "\<exists>r. cmd_get_opts (cmdline as @ junk) (int (length (cmdline as))) opt = Ok r \<and>
      (case opt_value as opt of None \<Rightarrow> r = None | Some v \<Rightarrow> \<exists>p. r = Some p \<and> c_str (cmdline as @ junk) p = Ok v)"
  using get_opts_at [OF assms, of "[]" junk] by (simp add: cmd_get_opts_def cong: option.case_cong)

subsection \<open>The process that holds a file\<close>

definition holds_open :: "procfs \<Rightarrow> byte list \<Rightarrow> u64 \<Rightarrow> byte list \<Rightarrow> bool" where
  "holds_open pf c inode name \<longleftrightarrow>
     starts_digit name \<and> pf_ino pf (proc_path (atol name)) \<noteq> None \<and>
     (case pf_file pf (cmd_path (atol name)) of
        None \<Rightarrow> False
      | Some s \<Rightarrow> s \<noteq> [] \<and> strstr (takeWhile (\<lambda>b. b \<noteq> 0) s) c \<noteq> None) \<and>
     pid_search_fd_inode pf (c_int (atol name)) inode = 0"

text \<open>Command lines show a terminated program name within the first \<open>n\<close> bytes.\<close>

definition cmdlines_ok :: "procfs \<Rightarrow> nat \<Rightarrow> bool" where
  "cmdlines_ok pf n \<longleftrightarrow> (\<forall>pid s. pf_file pf (cmd_path pid) = Some s \<longrightarrow> s \<noteq> [] \<longrightarrow> 0 \<in> set (take n s))"

lemma takeWhile_take: "x \<in> set (take n s) \<Longrightarrow> takeWhile (\<lambda>c. c \<noteq> x) (take n s @ r) = takeWhile (\<lambda>c. c \<noteq> x) s"
proof -
  assume "x \<in> set (take n s)"
  hence "takeWhile (\<lambda>c. c \<noteq> x) (take n s @ u) = takeWhile (\<lambda>c. c \<noteq> x) (take n s)" for u by (rule takeWhile_append1) simp
  from this [of r] this [of "drop n s"] show ?thesis by simp
qed

lemma search_pid_loop_first:
  assumes "cmdlines_ok pf (length buf)"
  shows "\<exists>buf'. length buf' = length buf \<and> (case find (holds_open pf c inode) names of
      None \<Rightarrow> search_pid_loop pf (Some c) inode names buf = Ok (None, buf')
    | Some name \<Rightarrow> \<exists>s junk. pf_file pf (cmd_path (atol name)) = Some s \<and> buf' = take (length buf) s @ junk \<and>
        search_pid_loop pf (Some c) inode names buf = Ok (Some (int (min (length s) (length buf)), c_int (atol name)), buf'))"
  using assms
proof (induction names arbitrary: buf)
  case (Cons name names)
  note ih = Cons.IH [OF Cons.prems]
  show ?case
  proof (cases "starts_digit name \<and> pf_ino pf (proc_path (atol name)) \<noteq> None \<and> pf_file pf (cmd_path (atol name)) \<notin> {None, Some []} \<and> buf \<noteq> []")
    case False
    moreover have "buf = [] \<Longrightarrow> pf_file pf (cmd_path (atol name)) \<in> {None, Some []}"
      using Cons.prems by (cases "pf_file pf (cmd_path (atol name))") (auto simp: cmdlines_ok_def)
    ultimately have "\<not> holds_open pf c inode name" "search_pid_loop pf (Some c) inode (name # names) buf = search_pid_loop pf (Some c) inode names buf"
      by (auto simp: holds_open_def pidpath_get_cmd_def Let_def split: option.splits)
    thus ?thesis using ih by (simp del: search_pid_loop.simps cong: option.case_cong)
  next
    case True
    then obtain s where s: "pf_file pf (cmd_path (atol name)) = Some s" "s \<noteq> []" by auto
    define buf1 where "buf1 = take (length buf) s @ drop (length (take (length buf) s)) buf"
    have z: "0 \<in> set (take (length buf) s)" using Cons.prems s by (auto simp: cmdlines_ok_def)
    have len: "length buf1 = length buf" by (simp add: buf1_def)
    have "cmd_matches (Some c) buf1 = Ok (strstr (takeWhile (\<lambda>b. b \<noteq> 0) s) c \<noteq> None)"
      using z takeWhile_take [OF z] by (simp add: cmd_matches_def c_str_def buf1_def)
    hence step: "search_pid_loop pf (Some c) inode (name # names) buf =
      (if holds_open pf c inode name then Ok (Some (int (min (length s) (length buf)), c_int (atol name)), buf1)
       else search_pid_loop pf (Some c) inode names buf1)"
      using True s z by (auto simp: holds_open_def pidpath_get_cmd_def Let_def buf1_def min_def split: if_splits)
    show ?thesis
    proof (cases "holds_open pf c inode name")
      case True thus ?thesis using step s(1) len by (intro exI [of _ buf1]) (auto simp: buf1_def simp del: search_pid_loop.simps)
    next
      case False
      have ok: "cmdlines_ok pf (length buf1)" using Cons.prems len by simp
      show ?thesis using Cons.IH [OF ok] step False len by (simp del: search_pid_loop.simps cong: option.case_cong)
    qed
  qed
qed simp

end
