(* ===== verification/Advttyd.thy ===== *)
theory Advttyd
  imports Proc_Tools
begin

text \<open>
  initd/advttyd.c: reading the configuration file, composing the command line of the daemon of each
  port, comparing it with the one of a running daemon, and starting or replacing daemons. The files
  and the process table are those of \<open>procfs\<close>; what \<^verbatim>\<open>kill\<close> and \<^verbatim>\<open>system\<close> do to them is a parameter.
\<close>

definition CF_MAXPORTS :: int where "CF_MAXPORTS = 256"
definition CF_MAXSTRLEN :: nat where "CF_MAXSTRLEN = 32"
definition CF_CONFNAME :: "byte list" where "CF_CONFNAME = str ''advttyd.conf''"
definition CF_PORTPROG :: "byte list" where "CF_PORTPROG = str ''vcomd''"
definition CF_SSLCONF :: "byte list" where "CF_SSLCONF = str ''ssl.json''"
definition MON_PATH :: "byte list" where "MON_PATH = str ''/tmp/advmon''"

abbreviation (input) INET6_ADDRSTRLEN :: nat where "INET6_ADDRSTRLEN \<equiv> 46"
abbreviation (input) PATH_MAX :: nat where "PATH_MAX \<equiv> 4096"
abbreviation (input) NAME_MAX :: nat where "NAME_MAX \<equiv> 255"

record TTYINFO =
  ti_mpt_nameidx :: "byte list"
  ti_dev_type :: "byte list"
  ti_dev_ipaddr :: "byte list"
  ti_dev_portidx :: "byte list"
  ti_dev_redundant :: "byte list"
  ti_has_redundant_ip :: bool
  ti_dev_ssl :: bool

subsection \<open>The configuration file\<close>

text \<open>The words that \<^verbatim>\<open>sscanf\<close> with \<^verbatim>\<open>%31s%31s%45s%31s%45s\<close> stores; their number is its result.\<close>

fun scan_words :: "nat list \<Rightarrow> byte list \<Rightarrow> byte list list" where
  "scan_words [] s = []"
| "scan_words (w # ws) s = (case scan_str w s of None \<Rightarrow> [] | Some (t, r) \<Rightarrow> t # scan_words ws r)"

definition conf_format :: "nat list" where
  "conf_format = [CF_MAXSTRLEN - 1, CF_MAXSTRLEN - 1, INET6_ADDRSTRLEN - 1, CF_MAXSTRLEN - 1, INET6_ADDRSTRLEN - 1]"

definition split_type :: "byte list \<Rightarrow> bool \<times> byte list" where
  "split_type ty = (if 4 < length ty \<and> take 4 ty = str ''ssl:'' then (True, drop 4 ty) else (False, ty))"

text \<open>One line; None continues with the next one.\<close>

definition parse_line :: "byte list \<Rightarrow> TTYINFO option" where
  "parse_line conf_dp =
     (case scan_words conf_format conf_dp of
        name # ty # ip # port # red \<Rightarrow>
          if hd name = 35 \<or> CF_MAXPORTS < atoi name then None
          else let (ssl, dev_type) = split_type ty in
            if atoi port \<le> 0 then None
            else Some \<lparr>ti_mpt_nameidx = snprintf_text CF_MAXSTRLEN name,
                       ti_dev_type = snprintf_text CF_MAXSTRLEN dev_type,
                       ti_dev_ipaddr = snprintf_text INET6_ADDRSTRLEN ip,
                       ti_dev_portidx = snprintf_text CF_MAXSTRLEN port,
                       ti_dev_redundant = (case red of [] \<Rightarrow> [] | r # _ \<Rightarrow> snprintf_text INET6_ADDRSTRLEN r),
                       ti_has_redundant_ip = (red \<noteq> []), ti_dev_ssl = ssl\<rparr>
      | _ \<Rightarrow> None)"

function paser_loop :: "int \<Rightarrow> byte list \<Rightarrow> TTYINFO list" where
  "paser_loop nrport conf =
     (if nrport < CF_MAXPORTS then
        (case fgets 256 conf of
           None \<Rightarrow> []
         | Some (conf_dp, rest) \<Rightarrow>
             (case parse_line (takeWhile (\<lambda>c. c \<noteq> 0) conf_dp) of
                None \<Rightarrow> paser_loop nrport rest
              | Some t \<Rightarrow> t # paser_loop (nrport + 1) rest))
      else [])"
  by pat_completeness auto
termination
  by (relation "measure (\<lambda>(nrport, conf). length conf)") (auto dest: fgets_shrinks)

declare paser_loop.simps [simp del]

text \<open>The filled part of the array; its length is the result.\<close>

definition paser_config :: "byte list option \<Rightarrow> TTYINFO list" where
  "paser_config conf = (case conf of None \<Rightarrow> [] | Some s \<Rightarrow> paser_loop 0 s)"

subsection \<open>Command lines\<close>

definition mon_name :: "TTYINFO \<Rightarrow> byte list" where
  "mon_name t = MON_PATH @ str ''/advtty'' @ ti_mpt_nameidx t"

text \<open>The text before it is cut to the buffer; its length is the result of \<^verbatim>\<open>snprintf\<close>.\<close>

definition create_syscmd :: "byte list \<Rightarrow> byte list \<Rightarrow> TTYINFO \<Rightarrow> byte list" where
  "create_syscmd mon sslconf t =
     CF_PORTPROG @ str '' -l'' @ mon @ str '' -t'' @ ti_mpt_nameidx t @ str '' -d'' @ ti_dev_type t @
     str '' -a'' @ ti_dev_ipaddr t @ str '' -p'' @ ti_dev_portidx t @
     (if ti_has_redundant_ip t then
        if ti_dev_ssl t then str '' -r'' @ ti_dev_redundant t @ str '' -S'' @ sslconf
        else str '' -r'' @ ti_dev_redundant t @ str '' ''
      else if ti_dev_ssl t then str '' -S'' @ sslconf else str '' '')"

definition opt_cmp :: "byte list \<Rightarrow> int \<Rightarrow> byte list \<Rightarrow> byte list option \<Rightarrow> int out" where
  "opt_cmp oldcmd oldcmdlen option val =
     out_bind (cmd_get_opts oldcmd oldcmdlen option) (\<lambda>p.
     out_bind (case p of None \<Rightarrow> Ok None | Some i \<Rightarrow> out_bind (c_str oldcmd i) (\<lambda>s. Ok (Some s))) (\<lambda>old.
       let newoptlen = (case val of None \<Rightarrow> 0 | Some v \<Rightarrow> min (length v) (nat oldcmdlen));
           oldoptlen = (case old of None \<Rightarrow> 0 | Some v \<Rightarrow> min (length v) (nat oldcmdlen));
           strcmplen = (if newoptlen > oldoptlen then newoptlen else oldoptlen)
       in Ok (case val of
            None \<Rightarrow> (case old of None \<Rightarrow> 0 | Some o' \<Rightarrow> 1)
          | Some v \<Rightarrow> (case old of None \<Rightarrow> 1 | Some o' \<Rightarrow> if take strcmplen v = take strcmplen o' then 0 else 1))))"

definition oldcmd_cmp :: "byte list \<Rightarrow> byte list \<Rightarrow> byte list \<Rightarrow> int \<Rightarrow> TTYINFO \<Rightarrow> int out" where
  "oldcmd_cmp mon sslconf oldcmd oldcmdlen t =
     out_bind (opt_cmp oldcmd oldcmdlen (str ''-l'') (Some mon)) (\<lambda>d1.
     out_bind (opt_cmp oldcmd oldcmdlen (str ''-d'') (Some (ti_dev_type t))) (\<lambda>d2.
     out_bind (opt_cmp oldcmd oldcmdlen (str ''-a'') (Some (ti_dev_ipaddr t))) (\<lambda>d3.
     out_bind (opt_cmp oldcmd oldcmdlen (str ''-p'') (Some (ti_dev_portidx t))) (\<lambda>d4.
     out_bind (opt_cmp oldcmd oldcmdlen (str ''-r'') (if ti_has_redundant_ip t then Some (ti_dev_redundant t) else None)) (\<lambda>d5.
     out_bind (opt_cmp oldcmd oldcmdlen (str ''-S'') (if ti_dev_ssl t then Some sslconf else None)) (\<lambda>d6.
       Ok (d1 + d2 + d3 + d4 + d5 + d6)))))))"

subsection \<open>Starting and stopping daemons\<close>

record 'w sysops =
  so_fs :: "'w \<Rightarrow> procfs"
  so_kill :: "int \<Rightarrow> int \<Rightarrow> 'w \<Rightarrow> 'w"
  so_system :: "byte list \<Rightarrow> 'w \<Rightarrow> 'w"

definition vcomif :: "byte list \<Rightarrow> byte list" where
  "vcomif idx = str ''/proc/vcom/advproc'' @ idx"

text \<open>
  \<^verbatim>\<open>syscmd\<close> has 1024 bytes. The ampersand is printed at \<^verbatim>\<open>cmdidx\<close> with the size \<^verbatim>\<open>1024 - cmdidx - 1\<close>: it is
  missing for the last two lengths that fit, and for a longer command the position is outside the
  buffer and the size wraps around.
\<close>

definition exec_syscmd :: "'w sysops \<Rightarrow> bool \<Rightarrow> byte list \<Rightarrow> 'w \<Rightarrow> 'w out" where
  "exec_syscmd ops testrun c w =
     (if 1024 \<le> length c then Crash
      else Ok (if testrun then w else so_system ops (c @ snprintf_text (1024 - length c - 1) (str ''&'')) w))"

definition spawn_port :: "'w sysops \<Rightarrow> byte list \<Rightarrow> bool \<Rightarrow> TTYINFO \<Rightarrow> byte list \<times> 'w \<Rightarrow> (byte list \<times> 'w) out" where
  "spawn_port ops sslconf testrun t = (\<lambda>(oldcmd, w).
     case pf_ino (so_fs ops w) (vcomif (ti_mpt_nameidx t)) of
       None \<Rightarrow> Exit
     | Some ino \<Rightarrow>
         out_bind (cmd_inode_search_pid (so_fs ops w) (Some (str ''vcomd'')) ino oldcmd) (\<lambda>(r, oldcmd').
         out_bind (case r of
             None \<Rightarrow> Ok (False, 0)
           | Some (oldcmdlen, pid) \<Rightarrow> out_bind (oldcmd_cmp (mon_name t) sslconf oldcmd' oldcmdlen t) (\<lambda>d. Ok (d = 0, pid)))
         (\<lambda>(same, oldpid).
           if same then Ok (oldcmd', w)
           else out_bind (exec_syscmd ops testrun (create_syscmd (mon_name t) sslconf t)
               (if oldpid > 0 \<and> \<not> testrun then so_kill ops oldpid 9 w else w)) (\<lambda>w'. Ok (oldcmd', w')))))"

fun spawn_ttyp :: "'w sysops \<Rightarrow> byte list \<Rightarrow> bool \<Rightarrow> TTYINFO list \<Rightarrow> byte list \<times> 'w \<Rightarrow> (byte list \<times> 'w) out" where
  "spawn_ttyp ops sslconf testrun [] s = Ok s"
| "spawn_ttyp ops sslconf testrun (t # ts) s =
     out_bind (spawn_port ops sslconf testrun t s) (spawn_ttyp ops sslconf testrun ts)"

text \<open>One interface of the cleanup: a daemon on a port that is not configured is killed.\<close>

definition cleanup_port :: "'w sysops \<Rightarrow> bool \<Rightarrow> TTYINFO list \<Rightarrow> int \<Rightarrow> byte list \<times> 'w \<Rightarrow> (byte list \<times> 'w) out" where
  "cleanup_port ops testrun ts i = (\<lambda>(cmd, w).
     case pf_ino (so_fs ops w) (vcomif (dec i)) of
       None \<Rightarrow> Ok (cmd, w)
     | Some ino \<Rightarrow>
         out_bind (cmd_inode_search_pid (so_fs ops w) (Some (str ''vcomd'')) ino cmd) (\<lambda>(r, cmd').
           case r of
             None \<Rightarrow> Ok (cmd', w)
           | Some (cmdlen, pid) \<Rightarrow>
               if list_ex (\<lambda>t. atoi (ti_mpt_nameidx t) = i) ts then Ok (cmd', w)
               else Ok (cmd', if testrun then w else so_kill ops pid 9 w)))"

fun cleanup_ttyp :: "'w sysops \<Rightarrow> bool \<Rightarrow> TTYINFO list \<Rightarrow> int list \<Rightarrow> byte list \<times> 'w \<Rightarrow> (byte list \<times> 'w) out" where
  "cleanup_ttyp ops testrun ts [] s = Ok s"
| "cleanup_ttyp ops testrun ts (i # is) s =
     out_bind (cleanup_port ops testrun ts i s) (cleanup_ttyp ops testrun ts is)"

subsection \<open>The program\<close>

record adv_opts =
  ao_custom_wpath :: "byte list option"
  ao_run_as_daemon :: bool
  ao_daemon_cleanup :: bool
  ao_testrun :: bool

definition adv_spec :: "byte \<Rightarrow> bool option" where
  "adv_spec c = (if c \<in> set (str ''cdht'') then Some False else if c = 119 then Some True else None)"

text \<open>None is the result -1. An unknown option is ignored.\<close>

fun setup_options :: "(byte \<times> byte list) list \<Rightarrow> adv_opts \<Rightarrow> adv_opts option" where
  "setup_options [] opts = Some opts"
| "setup_options ((ch, arg) # rest) opts =
     (if ch = 104 then None
      else setup_options rest
        (if ch = 100 then opts\<lparr>ao_run_as_daemon := True\<rparr>
         else if ch = 116 then opts\<lparr>ao_testrun := True\<rparr>
         else if ch = 119 then opts\<lparr>ao_custom_wpath := Some arg\<rparr>
         else if ch = 99 then opts\<lparr>ao_daemon_cleanup := True\<rparr>
         else opts))"

text \<open>\<open>buf1\<close> and \<open>buf2\<close> are the initial contents of the command buffers of the two passes.\<close>

definition advttyd_main :: "'w sysops \<Rightarrow> byte list \<Rightarrow> byte list \<Rightarrow> byte list list \<Rightarrow> 'w \<Rightarrow> 'w out" where
  "advttyd_main ops buf1 buf2 args w =
     (case setup_options (getopt adv_spec args)
         \<lparr>ao_custom_wpath = None, ao_run_as_daemon = False, ao_daemon_cleanup = False, ao_testrun = False\<rparr> of
        None \<Rightarrow> Ok w
      | Some opts \<Rightarrow>
          (case ao_custom_wpath opts of
             None \<Rightarrow> Ok w
           | Some wpath \<Rightarrow>
               let work_path = snprintf_text (PATH_MAX - NAME_MAX) wpath;
                   file_name = snprintf_text PATH_MAX (wpath @ str ''/'' @ CF_CONFNAME);
                   ts = paser_config (pf_file (so_fs ops w) file_name);
                   sslconf = snprintf_text PATH_MAX (work_path @ str ''/'' @ CF_SSLCONF)
               in if ts = [] then Ok w
                  else out_bind (if ao_daemon_cleanup opts
                      then out_bind (cleanup_ttyp ops (ao_testrun opts) ts (map int [0..<256]) (buf1, w)) (\<lambda>(b, w'). Ok w')
                      else Ok w) (\<lambda>w'.
                    out_bind (spawn_ttyp ops sslconf (ao_testrun opts) ts (buf2, w')) (\<lambda>(b, w''). Ok w''))))"

subsection \<open>What the configuration gives\<close>

text \<open>
  The type of an entry of the array: every text fits its field with the terminating zero and is one
  word, so that it stays one argument on the command line.
\<close>

definition field_ok :: "nat \<Rightarrow> byte list \<Rightarrow> bool" where
  "field_ok n s \<longleftrightarrow> word_text s \<and> length s < n"

definition ttyinfo_ok :: "TTYINFO \<Rightarrow> bool" where
  "ttyinfo_ok t \<longleftrightarrow>
     field_ok CF_MAXSTRLEN (ti_mpt_nameidx t) \<and> field_ok CF_MAXSTRLEN (ti_dev_type t) \<and>
     field_ok INET6_ADDRSTRLEN (ti_dev_ipaddr t) \<and> field_ok CF_MAXSTRLEN (ti_dev_portidx t) \<and>
     (if ti_has_redundant_ip t then field_ok INET6_ADDRSTRLEN (ti_dev_redundant t) else ti_dev_redundant t = []) \<and>
     hd (ti_mpt_nameidx t) \<noteq> 35 \<and> atoi (ti_mpt_nameidx t) \<le> CF_MAXPORTS \<and> 0 < atoi (ti_dev_portidx t)"

lemma scan_words_fields:
  "0 \<notin> set s \<Longrightarrow> list_all2 (\<lambda>t w. field_ok (w + 1) t) (scan_words ws s) (take (length (scan_words ws s)) ws)"
proof (induction ws arbitrary: s)
  case (Cons w ws)
  show ?case
  proof (cases "scan_str w s")
    case (Some p)
    obtain t r where p: "p = (t, r)" by force
    have "0 \<notin> set r" "field_ok (w + 1) t"
      using scan_str_result [of w s t r] Some p Cons.prems by (auto simp: field_ok_def word_text_def)
    thus ?thesis using Cons.IH [of r] Some p by simp
  qed simp
qed simp

lemma snprintf_field: "field_ok n s \<Longrightarrow> snprintf_text n s = s"
  unfolding field_ok_def snprintf_text_def by (rule take_all) arith

lemma split_type_field: "field_ok n ty \<Longrightarrow> field_ok n (snd (split_type ty))"
  by (auto simp: split_type_def field_ok_def word_text_def dest: in_set_dropD)

lemma parse_line_ok:
  assumes "0 \<notin> set s" "parse_line s = Some t"
  shows "ttyinfo_ok t"
proof -
  obtain name ty ip port red where w: "scan_words conf_format s = name # ty # ip # port # red"
    using assms(2) by (auto simp: parse_line_def split: list.splits)
  have "list_all2 (\<lambda>t w. field_ok (w + 1) t) (name # ty # ip # port # red) (take (length (name # ty # ip # port # red)) conf_format)"
    using scan_words_fields [OF assms(1), of conf_format] by (simp only: w)
  hence f: "field_ok CF_MAXSTRLEN name" "field_ok CF_MAXSTRLEN ty" "field_ok INET6_ADDRSTRLEN ip" "field_ok CF_MAXSTRLEN port"
    "red \<noteq> [] \<Longrightarrow> field_ok INET6_ADDRSTRLEN (hd red)"
    by (auto simp: conf_format_def CF_MAXSTRLEN_def list_all2_Cons1 neq_Nil_conv)
  obtain ssl dt where dt: "split_type ty = (ssl, dt)" by force
  have "field_ok CF_MAXSTRLEN dt" using split_type_field [OF f(2)] dt by simp
  thus ?thesis using assms(2) w dt f
    by (cases red) (auto simp: parse_line_def ttyinfo_ok_def snprintf_field split: if_splits)
qed

text \<open>The loop takes the entries of the lines, as many as the array holds.\<close>

abbreviation (input) line_entry :: "byte list \<Rightarrow> TTYINFO option" where
  "line_entry l \<equiv> parse_line (takeWhile (\<lambda>c. c \<noteq> 0) l)"

lemma paser_loop_lines:
  "paser_loop n conf = take (nat (CF_MAXPORTS - n)) (List.map_filter line_entry (fgets_all 256 conf))"
proof (induction n conf rule: paser_loop.induct)
  case (1 n conf)
  show ?case
  proof (cases "n < CF_MAXPORTS")
    case True
    have n: "nat (CF_MAXPORTS - n) = Suc (nat (CF_MAXPORTS - (n + 1)))" using True by simp
    show ?thesis
    proof (cases "fgets 256 conf")
      case None thus ?thesis by (simp add: paser_loop.simps [of n] fgets_all.simps [of 256 conf] map_filter_simps)
    next
      case (Some p)
      obtain l r where p: "p = (l, r)" by force
      show ?thesis
      proof (cases "line_entry l")
        case None
        thus ?thesis using "1.IH"(1) True Some p
          by (simp add: paser_loop.simps [of n] fgets_all.simps [of 256 conf] map_filter_simps)
      next
        case (Some t)
        thus ?thesis using "1.IH"(2) [OF True \<open>fgets 256 conf = Some p\<close> p [symmetric] Some] True \<open>fgets 256 conf = Some p\<close> p n
          by (simp add: paser_loop.simps [of n] fgets_all.simps [of 256 conf] map_filter_simps)
      qed
    qed
  qed (simp add: paser_loop.simps [of n])
qed

lemma paser_config_lines:
  "paser_config (Some s) = take 256 (List.map_filter line_entry (fgets_all 256 s))"
  by (simp add: paser_config_def paser_loop_lines CF_MAXPORTS_def)

lemma paser_config_ok: "list_all ttyinfo_ok (paser_config (Some s))"
proof -
  have "ttyinfo_ok t" if "t \<in> set (paser_config (Some s))" for t
  proof -
    have "t \<in> set (List.map_filter line_entry (fgets_all 256 s))"
      using that by (auto simp: paser_config_lines dest: in_set_takeD)
    then obtain l where "line_entry l = Some t" by (auto simp: List.map_filter_def)
    thus ?thesis by (rule parse_line_ok [rotated]) (auto dest: set_takeWhileD)
  qed
  thus ?thesis by (simp add: list_all_iff)
qed

text \<open>
  C21. Whatever the configuration file contains, every entry of the array is well typed: its texts are
  single words that fit their fields, the redundant address is present exactly when its flag is set,
  the minor is at most 256 and not a comment, the port index is positive, and there are at most as many
  entries as the array has room for.
\<close>

theorem paser_config_typed:
  "list_all ttyinfo_ok (paser_config conf) \<and> int (length (paser_config conf)) \<le> CF_MAXPORTS"
proof (cases conf)
  case None thus ?thesis by (simp add: paser_config_def CF_MAXPORTS_def)
next
  case (Some s)
  have "length (paser_config (Some s)) \<le> 256" by (simp add: paser_config_lines)
  thus ?thesis using Some paser_config_ok [of s] by (simp add: CF_MAXPORTS_def)
qed

subsection \<open>Writing a configuration\<close>

definition conf_line :: "TTYINFO \<Rightarrow> byte list" where
  "conf_line t =
     ti_mpt_nameidx t @ [32] @ (if ti_dev_ssl t then str ''ssl:'' else []) @ ti_dev_type t @ [32] @
     ti_dev_ipaddr t @ [32] @ ti_dev_portidx t @ (if ti_has_redundant_ip t then 32 # ti_dev_redundant t else [])"

text \<open>The prefix of a secure type needs four bytes of its field, and no other type starts with it.\<close>

definition conf_able :: "TTYINFO \<Rightarrow> bool" where
  "conf_able t \<longleftrightarrow> ttyinfo_ok t \<and>
     (if ti_dev_ssl t then length (ti_dev_type t) + 4 < CF_MAXSTRLEN else \<not> fst (split_type (ti_dev_type t)))"

definition remark_ok :: "byte list \<Rightarrow> bool" where
  "remark_ok r \<longleftrightarrow> (r = [] \<or> hd r = 35) \<and> 10 \<notin> set r \<and> 0 \<notin> set r \<and> length r + 1 < 256"

lemma scan_str_32: "scan_str w (32 # s) = scan_str w s"
  using scan_str_blank [of "[32]" w s] by simp

lemma scan_words_blank: "scan_words ws (32 # r) = scan_words ws r" "scan_words ws [10] = []"
  by (cases ws; simp add: scan_str_32 scan_str_def)+

lemma scan_words_step:
  "field_ok (w + 1) t \<Longrightarrow> scan_words (w # ws) (t @ 32 # r) = t # scan_words ws r"
  "field_ok (w + 1) t \<Longrightarrow> scan_words (w # ws) (t @ [10]) = t # scan_words ws [10]"
  by (auto simp: field_ok_def scan_str_word scan_words_blank)

lemma word_text_append: "word_text s \<Longrightarrow> word_text u \<Longrightarrow> word_text (s @ u)"
  by (auto simp: word_text_def)

lemma word_text_ssl: "word_text (str ''ssl:'')"
  by (simp add: word_text_def is_space_def word_le_nat_alt)

lemma type_field:
  assumes "conf_able t"
  shows "field_ok CF_MAXSTRLEN ((if ti_dev_ssl t then str ''ssl:'' else []) @ ti_dev_type t)"
    "split_type ((if ti_dev_ssl t then str ''ssl:'' else []) @ ti_dev_type t) = (ti_dev_ssl t, ti_dev_type t)"
  using assms word_text_append [OF word_text_ssl, of "ti_dev_type t"]
  by (simp_all add: conf_able_def ttyinfo_ok_def field_ok_def split_type_def CF_MAXSTRLEN_def word_text_def [of "ti_dev_type t"] split: if_splits)

lemma parse_conf_line:
  assumes "conf_able t"
  shows "parse_line (conf_line t @ [10]) = Some t"
proof -
  let ?ty = "(if ti_dev_ssl t then str ''ssl:'' else []) @ ti_dev_type t"
  let ?red = "if ti_has_redundant_ip t then [ti_dev_redundant t] else []"
  have ok: "ttyinfo_ok t" using assms by (simp add: conf_able_def)
  note f = ok [unfolded ttyinfo_ok_def] type_field [OF assms]
  have w: "scan_words conf_format (conf_line t @ [10]) = [ti_mpt_nameidx t, ?ty, ti_dev_ipaddr t, ti_dev_portidx t] @ ?red"
    using f scan_words_step(1) [of 31 "ti_mpt_nameidx t"] scan_words_step(1) [of 31 ?ty] scan_words_step [of 45 "ti_dev_ipaddr t"]
      scan_words_step [of 31 "ti_dev_portidx t"] scan_words_step(2) [of 45 "ti_dev_redundant t"]
    by (simp add: conf_format_def conf_line_def CF_MAXSTRLEN_def scan_words_blank)
  show ?thesis using f w by (cases "ti_has_redundant_ip t") (simp_all add: parse_line_def snprintf_field)
qed

lemma parse_remark:
  assumes "remark_ok r"
  shows "parse_line (r @ [10]) = None"
proof (cases r)
  case Nil thus ?thesis by (simp add: parse_line_def conf_format_def scan_str_def)
next
  case (Cons c cs)
  hence c: "c = 35" using assms by (simp add: remark_ok_def)
  have "\<not> is_space 35" by (simp add: is_space_def word_le_nat_alt)
  hence "scan_words conf_format (r @ [10]) \<noteq> [] \<and> hd (hd (scan_words conf_format (r @ [10]))) = 35"
    using Cons c by (auto simp: conf_format_def CF_MAXSTRLEN_def scan_str_def Let_def)
  thus ?thesis by (auto simp: parse_line_def split: list.splits)
qed

definition item_line :: "byte list + TTYINFO \<Rightarrow> byte list" where
  "item_line x = (case x of Inl r \<Rightarrow> r | Inr t \<Rightarrow> conf_line t)"

lemma field_chars: "field_ok n s \<Longrightarrow> 10 \<notin> set s \<and> 0 \<notin> set s \<and> length s < n"
  by (auto simp: field_ok_def word_text_def)

lemma conf_line_length:
  assumes "conf_able t" shows "10 \<notin> set (conf_line t) \<and> 0 \<notin> set (conf_line t) \<and> length (conf_line t) + 1 < 256"
proof -
  define ty where "ty = (if ti_dev_ssl t then str ''ssl:'' else []) @ ti_dev_type t"
  have "ttyinfo_ok t" using assms by (simp add: conf_able_def)
  note f = this [unfolded ttyinfo_ok_def] type_field(1) [OF assms, folded ty_def]
  have "conf_line t = ti_mpt_nameidx t @ 32 # ty @ 32 # ti_dev_ipaddr t @ 32 # ti_dev_portidx t @
      (if ti_has_redundant_ip t then 32 # ti_dev_redundant t else [])" by (simp add: conf_line_def ty_def)
  thus ?thesis using f field_chars [of 32 "ti_mpt_nameidx t"] field_chars [of 32 ty] field_chars [of 46 "ti_dev_ipaddr t"]
      field_chars [of 32 "ti_dev_portidx t"] field_chars [of 46 "ti_dev_redundant t"]
    by (simp add: CF_MAXSTRLEN_def split: if_splits)
qed

text \<open>
  C22. Writing a configuration and reading it back: a file with one line per entry, with comment lines and
  empty lines anywhere between them, gives exactly these entries in their order.
\<close>

theorem conf_roundtrip:
  assumes "\<forall>x\<in>set items. case x of Inl r \<Rightarrow> remark_ok r | Inr t \<Rightarrow> conf_able t"
    "length (List.map_filter (\<lambda>x. case x of Inl r \<Rightarrow> None | Inr t \<Rightarrow> Some t) items) \<le> 256"
  shows "paser_config (Some (concat (map (\<lambda>x. item_line x @ [10]) items))) =
    List.map_filter (\<lambda>x. case x of Inl r \<Rightarrow> None | Inr t \<Rightarrow> Some t) items"
proof -
  have line: "10 \<notin> set (item_line x) \<and> length (item_line x) + 1 < 256 \<and>
      line_entry (item_line x @ [10]) = (case x of Inl r \<Rightarrow> None | Inr t \<Rightarrow> Some t)" if "x \<in> set items" for x
  proof -
    have x: "10 \<notin> set (item_line x) \<and> 0 \<notin> set (item_line x) \<and> length (item_line x) + 1 < 256"
      using assms(1) that conf_line_length by (cases x) (auto simp: item_line_def remark_ok_def)
    hence "takeWhile (\<lambda>c. c \<noteq> 0) (item_line x @ [10]) = item_line x @ [10]" by (auto simp: takeWhile_eq_all_conv)
    thus ?thesis using x assms(1) that parse_remark parse_conf_line by (cases x) (auto simp: item_line_def)
  qed
  have "fgets_all 256 (concat (map (\<lambda>x. item_line x @ [10]) items)) = map (\<lambda>x. item_line x @ [10]) items"
    using fgets_all_lines [of "map item_line items" 256] line by (simp add: comp_def)
  moreover have "List.map_filter line_entry (map (\<lambda>x. item_line x @ [10]) items) =
      List.map_filter (\<lambda>x. case x of Inl r \<Rightarrow> None | Inr t \<Rightarrow> Some t) items"
    using line by (induction items) (auto simp: map_filter_simps split: option.splits)
  ultimately show ?thesis using assms(2) by (simp add: paser_config_lines)
qed

definition sample_tty :: TTYINFO where
  "sample_tty = \<lparr>ti_mpt_nameidx = str ''1'', ti_dev_type = str ''1322'', ti_dev_ipaddr = str ''2001:db8:0:f101::4'',
     ti_dev_portidx = str ''2'', ti_dev_redundant = str ''10.0.0.7'', ti_has_redundant_ip = True, ti_dev_ssl = True\<rparr>"

lemmas number_defs = atoi_def atol_def scan_long_def scan_sign_def base_val_def digit_val_def is_digit_def is_space_def
  word_le_nat_alt c_int_def

lemma sample_tty_able: "conf_able sample_tty"
  by (simp add: sample_tty_def conf_able_def ttyinfo_ok_def field_ok_def word_text_def CF_MAXSTRLEN_def CF_MAXPORTS_def number_defs)

lemma conf_roundtrip_witness:
  "paser_config (Some (concat (map (\<lambda>x. item_line x @ [10]) [Inl (str ''# ports''), Inl [], Inr sample_tty]))) = [sample_tty]"
  using conf_roundtrip [of "[Inl (str ''# ports''), Inl [], Inr sample_tty]"] sample_tty_able
  by (simp add: remark_ok_def map_filter_simps)

subsection \<open>A running daemon and its configuration\<close>

definition daemon_args :: "byte list \<Rightarrow> TTYINFO \<Rightarrow> byte list list" where
  "daemon_args sslconf t =
     [CF_PORTPROG, str ''-l'' @ mon_name t, str ''-t'' @ ti_mpt_nameidx t, str ''-d'' @ ti_dev_type t,
      str ''-a'' @ ti_dev_ipaddr t, str ''-p'' @ ti_dev_portidx t] @
     (if ti_has_redundant_ip t then [str ''-r'' @ ti_dev_redundant t] else []) @
     (if ti_dev_ssl t then [str ''-S'' @ sslconf] else [])"

lemma opt_value_length: "opt_value as opt = Some v \<Longrightarrow> length v < length (cmdline as)"
  by (induction as) (auto split: option.splits)

lemma take_max_eq:
  fixes u v :: "'a list"
  assumes "length v < L"
  shows "take (if min (length u) L > length v then min (length u) L else length v) u =
    take (if min (length u) L > length v then min (length u) L else length v) v \<longleftrightarrow> u = v"
proof (cases "min (length u) L > length v")
  case True
  hence "length (take (min (length u) L) u) \<noteq> length (take (min (length u) L) v)" by (auto simp: min_def)
  thus ?thesis using True by auto
next
  case False
  hence "length u \<le> length v" using assms by auto
  thus ?thesis using False by simp
qed

lemma opt_cmp_value:
  assumes "\<forall>a\<in>set as. 0 \<notin> set a \<and> a \<noteq> opt" "as \<noteq> []"
  shows "opt_cmp (cmdline as @ junk) (int (length (cmdline as))) opt val = Ok (if opt_value as opt = val then 0 else 1)"
proof -
  obtain r where r: "cmd_get_opts (cmdline as @ junk) (int (length (cmdline as))) opt = Ok r"
    "case opt_value as opt of None \<Rightarrow> r = None | Some v \<Rightarrow> \<exists>p. r = Some p \<and> c_str (cmdline as @ junk) p = Ok v"
    using cmd_get_opts_value [OF assms] by blast
  show ?thesis
  proof (cases "opt_value as opt")
    case None thus ?thesis using r by (cases val) (simp_all add: opt_cmp_def)
  next
    case (Some v)
    then obtain p where p: "r = Some p" "c_str (cmdline as @ junk) p = Ok v" using r(2) by auto
    let ?L = "length (cmdline as)"
    define n where "n u = (if min (length u) ?L > length v then min (length u) ?L else length v)" for u :: "byte list"
    have L: "length v < ?L" using opt_value_length [OF Some] .
    have eq: "take (n u) u = take (n u) v \<longleftrightarrow> u = v" for u unfolding n_def by (rule take_max_eq [OF L])
    show ?thesis
    proof (cases val)
      case None thus ?thesis using r(1) p Some by (simp add: opt_cmp_def)
    next
      case (Some u)
      have "opt_cmp (cmdline as @ junk) (int ?L) opt (Some u) = Ok (if take (n u) u = take (n u) v then 0 else 1)"
        using L by (simp add: opt_cmp_def r(1) p Let_def n_def min_absorb1)
      thus ?thesis using Some \<open>opt_value as opt = Some v\<close> eq [of u] by auto
    qed
  qed
qed

text \<open>Without a dash in the values every option is found where it was written.\<close>

definition dash_free :: "TTYINFO \<Rightarrow> bool" where
  "dash_free t \<longleftrightarrow> 45 \<notin> set (ti_mpt_nameidx t) \<union> set (ti_dev_type t) \<union> set (ti_dev_ipaddr t) \<union>
     set (ti_dev_portidx t) \<union> set (ti_dev_redundant t)"

lemma opt_hit: "strstr (45 # x # v) [45, x] = Some 0"
  by simp

lemma opt_miss: "x \<noteq> y \<Longrightarrow> x \<noteq> 45 \<Longrightarrow> 45 \<notin> set v \<Longrightarrow> strstr (45 # x # v) [45, y] = None"
  using strstr_absent [of "[45, y]" "x # v"] by simp

lemma prog_miss: "strstr CF_PORTPROG [45, y] = None"
  by (rule strstr_absent) (simp_all add: CF_PORTPROG_def)

lemma mon_dash: "45 \<in> set (mon_name t) \<longleftrightarrow> 45 \<in> set (ti_mpt_nameidx t)"
  by (simp add: mon_name_def MON_PATH_def)

lemma mon_inject: "mon_name t = mon_name t' \<longleftrightarrow> ti_mpt_nameidx t = ti_mpt_nameidx t'"
  by (simp add: mon_name_def)

lemma daemon_opts:
  assumes "dash_free t" "45 \<notin> set sslconf"
  shows "opt_value (daemon_args sslconf t) (str ''-l'') = Some (mon_name t)"
    "opt_value (daemon_args sslconf t) (str ''-t'') = Some (ti_mpt_nameidx t)"
    "opt_value (daemon_args sslconf t) (str ''-d'') = Some (ti_dev_type t)"
    "opt_value (daemon_args sslconf t) (str ''-a'') = Some (ti_dev_ipaddr t)"
    "opt_value (daemon_args sslconf t) (str ''-p'') = Some (ti_dev_portidx t)"
    "opt_value (daemon_args sslconf t) (str ''-r'') = (if ti_has_redundant_ip t then Some (ti_dev_redundant t) else None)"
    "opt_value (daemon_args sslconf t) (str ''-S'') = (if ti_dev_ssl t then Some sslconf else None)"
  using assms by (simp_all add: daemon_args_def opt_hit opt_miss prog_miss mon_dash dash_free_def del: strstr.simps)

lemma daemon_args_texts:
  assumes "ttyinfo_ok t" "0 \<notin> set sslconf" "sslconf \<noteq> []" "length opt = 2"
  shows "\<forall>a\<in>set (daemon_args sslconf t). 0 \<notin> set a \<and> a \<noteq> opt"
proof -
  have "3 \<le> length a" "0 \<notin> set a" if "a \<in> set (daemon_args sslconf t)" for a
    using that assms
    by (auto simp: daemon_args_def ttyinfo_ok_def field_ok_def word_text_def CF_PORTPROG_def mon_name_def MON_PATH_def Suc_le_eq split: if_splits)
  thus ?thesis using assms(4) by fastforce
qed

lemma daemon_args_ne: "daemon_args sslconf t \<noteq> []"
  by (simp add: daemon_args_def)

lemma ttyinfo_same:
  assumes "ttyinfo_ok t" "ttyinfo_ok t'"
  shows "t' = t \<longleftrightarrow> mon_name t' = mon_name t \<and> ti_dev_type t' = ti_dev_type t \<and> ti_dev_ipaddr t' = ti_dev_ipaddr t \<and>
    ti_dev_portidx t' = ti_dev_portidx t \<and>
    (if ti_has_redundant_ip t' then Some (ti_dev_redundant t') else None) = (if ti_has_redundant_ip t then Some (ti_dev_redundant t) else None) \<and>
    ti_dev_ssl t' = ti_dev_ssl t"
  using assms by (cases t; cases t') (auto simp: ttyinfo_ok_def mon_inject mon_name_def split: if_splits)

lemma oldcmd_cmp_exact:
  assumes "ttyinfo_ok t" "ttyinfo_ok t'" "dash_free t'" "0 \<notin> set sslconf" "45 \<notin> set sslconf" "sslconf \<noteq> []"
  shows "\<exists>d. oldcmd_cmp (mon_name t) sslconf (cmdline (daemon_args sslconf t') @ junk) (int (length (cmdline (daemon_args sslconf t')))) t = Ok d \<and>
    (d = 0 \<longleftrightarrow> t' = t)"
proof -
  note v = opt_cmp_value [OF daemon_args_texts [OF assms(2,4,6)] daemon_args_ne, of _ junk]
  note o' = daemon_opts [OF assms(3,5)]
  have s: "(if ti_dev_ssl t' then Some sslconf else None) = (if ti_dev_ssl t then Some sslconf else None) \<longleftrightarrow> ti_dev_ssl t' = ti_dev_ssl t"
    by simp
  show ?thesis unfolding oldcmd_cmp_def ttyinfo_same [OF assms(1,2)]
    by (subst v, simp, subst o')+ (auto simp: s)
qed

lemma syscmd_length:
  assumes "ttyinfo_ok t"
  shows "length (create_syscmd (mon_name t) sslconf t) \<le> 282 + (if ti_dev_ssl t then length sslconf else 0)"
  using assms by (auto simp: ttyinfo_ok_def field_ok_def CF_MAXSTRLEN_def create_syscmd_def CF_PORTPROG_def mon_name_def MON_PATH_def split: if_splits)

lemma exec_fits:
  assumes "ttyinfo_ok t" "ti_dev_ssl t \<longrightarrow> length sslconf \<le> 739"
  shows "exec_syscmd ops False (create_syscmd (mon_name t) sslconf t) w = Ok (so_system ops (create_syscmd (mon_name t) sslconf t @ str ''&'') w)"
proof -
  have "length (create_syscmd (mon_name t) sslconf t) \<le> 1021" using assms(2) syscmd_length [OF assms(1), of sslconf] by (auto split: if_splits)
  thus ?thesis by (simp add: exec_syscmd_def snprintf_text_def)
qed

text \<open>
  C25. The command fits its buffer whatever the configuration file says, as long as the path of the TLS
  settings is not too long: then the shell gets the whole command, in the background. A port with TLS
  and a path of 1024 bytes or more makes the program write behind the buffer.
\<close>

theorem syscmd_bounds:
  assumes "ttyinfo_ok t"
  shows "((ti_dev_ssl t \<longrightarrow> length sslconf \<le> 739) \<longrightarrow>
      exec_syscmd ops False (create_syscmd (mon_name t) sslconf t) w = Ok (so_system ops (create_syscmd (mon_name t) sslconf t @ str ''&'') w)) \<and>
    (ti_dev_ssl t \<and> 1024 \<le> length sslconf \<longrightarrow> exec_syscmd ops testrun (create_syscmd (mon_name t) sslconf t) w = Crash)"
proof -
  have "exec_syscmd ops testrun (create_syscmd (mon_name t) sslconf t) w = Crash" if "ti_dev_ssl t" "1024 \<le> length sslconf"
  proof -
    have "length sslconf \<le> length (create_syscmd (mon_name t) sslconf t)" using that(1) by (simp add: create_syscmd_def)
    thus ?thesis using that(2) by (simp add: exec_syscmd_def)
  qed
  thus ?thesis using exec_fits [OF assms, of sslconf ops w] by simp
qed

lemma sample_tty_facts: "ttyinfo_ok sample_tty" "dash_free sample_tty" "ti_dev_ssl sample_tty"
  using sample_tty_able by (simp_all add: conf_able_def dash_free_def) (simp_all add: sample_tty_def)

text \<open>A system that records what is executed and killed.\<close>

definition record_sys :: "(procfs \<times> (int + byte list) list) sysops" where
  "record_sys = \<lparr>so_fs = fst, so_kill = (\<lambda>pid sig (fs, log). (fs, log @ [Inl pid])),
     so_system = (\<lambda>c (fs, log). (fs, log @ [Inr c]))\<rparr>"

text \<open>A process table with the daemon of one entry, which has the proc file of its port open.\<close>

definition sample_procfs :: "byte list \<Rightarrow> TTYINFO \<Rightarrow> procfs" where
  "sample_procfs conf t = \<lparr>
     pf_dir = [str ''/proc'' \<mapsto> [str ''net'', str ''7''], fd_path 7 \<mapsto> [str ''3'']],
     pf_ino = [str ''/proc/vcom/advproc1'' \<mapsto> 99, proc_path 7 \<mapsto> 5, fd_path 7 @ str ''/3'' \<mapsto> 99],
     pf_file = [str ''/d/advttyd.conf'' \<mapsto> conf, cmd_path 7 \<mapsto> cmdline (daemon_args (str ''/d/ssl.json'') t)]\<rparr>"

lemma syscmd_bounds_witness:
  "(\<exists>c. exec_syscmd record_sys False (create_syscmd (mon_name sample_tty) (str ''/ssl.json'') sample_tty) (sample_procfs [] sample_tty, []) = Ok (sample_procfs [] sample_tty, [Inr (c @ str ''&'')])) \<and>
   exec_syscmd record_sys True (create_syscmd (mon_name sample_tty) (replicate 2000 97) sample_tty) (sample_procfs [] sample_tty, []) = Crash"
  using syscmd_bounds [OF sample_tty_facts(1), of "str ''/ssl.json''" record_sys "(sample_procfs [] sample_tty, [])" True]
    syscmd_bounds [OF sample_tty_facts(1), of "replicate 2000 97" record_sys "(sample_procfs [] sample_tty, [])" True] sample_tty_facts(3)
  by (simp add: record_sys_def)

subsection \<open>One port\<close>

text \<open>
  What runs on a port: nothing, or the process with a command line as this program writes it, for the
  entry \<open>t'\<close>. It is the first process of the table that has the proc file of the port open.
\<close>

definition port_state :: "procfs \<Rightarrow> nat \<Rightarrow> byte list \<Rightarrow> TTYINFO \<Rightarrow> (int \<times> TTYINFO) option \<Rightarrow> bool" where
  "port_state fs n sslconf t r \<longleftrightarrow> cmdlines_ok fs n \<and>
     (\<exists>ino names. pf_ino fs (vcomif (ti_mpt_nameidx t)) = Some ino \<and> pf_dir fs (str ''/proc'') = Some names \<and>
       (case r of
          None \<Rightarrow> find (holds_open fs (str ''vcomd'') ino) names = None
        | Some (pid, t') \<Rightarrow>
            \<exists>name. find (holds_open fs (str ''vcomd'') ino) names = Some name \<and> pid = c_int (atol name) \<and> 0 < pid \<and>
              pf_file fs (cmd_path (atol name)) = Some (cmdline (daemon_args sslconf t')) \<and>
              length (cmdline (daemon_args sslconf t')) \<le> n \<and> ttyinfo_ok t' \<and> dash_free t'))"

definition path_ok :: "byte list \<Rightarrow> bool" where
  "path_ok sslconf \<longleftrightarrow> sslconf \<noteq> [] \<and> 0 \<notin> set sslconf \<and> 45 \<notin> set sslconf \<and> length sslconf \<le> 739"

lemma port_search:
  assumes "port_state fs (length buf) sslconf t r"
  shows "\<exists>ino buf'. pf_ino fs (vcomif (ti_mpt_nameidx t)) = Some ino \<and> length buf' = length buf \<and>
    (case r of
       None \<Rightarrow> cmd_inode_search_pid fs (Some (str ''vcomd'')) ino buf = Ok (None, buf')
     | Some (pid, t') \<Rightarrow> (\<exists>junk. buf' = cmdline (daemon_args sslconf t') @ junk) \<and> 0 < pid \<and> ttyinfo_ok t' \<and> dash_free t' \<and>
         cmd_inode_search_pid fs (Some (str ''vcomd'')) ino buf = Ok (Some (int (length (cmdline (daemon_args sslconf t'))), pid), buf'))"
proof -
  obtain ino names where n: "pf_ino fs (vcomif (ti_mpt_nameidx t)) = Some ino" "pf_dir fs (str ''/proc'') = Some names"
    and ok: "cmdlines_ok fs (length buf)" and r: "case r of
          None \<Rightarrow> find (holds_open fs (str ''vcomd'') ino) names = None
        | Some (pid, t') \<Rightarrow>
            \<exists>name. find (holds_open fs (str ''vcomd'') ino) names = Some name \<and> pid = c_int (atol name) \<and> 0 < pid \<and>
              pf_file fs (cmd_path (atol name)) = Some (cmdline (daemon_args sslconf t')) \<and>
              length (cmdline (daemon_args sslconf t')) \<le> length buf \<and> ttyinfo_ok t' \<and> dash_free t'"
    using assms unfolding port_state_def by blast
  note s = search_pid_loop_first [OF ok, of "str ''vcomd''" ino names]
  show ?thesis
  proof (cases r)
    case None
    hence "find (holds_open fs (str ''vcomd'') ino) names = None" using r by simp
    with s n None show ?thesis by (auto simp: cmd_inode_search_pid_def)
  next
    case (Some q)
    obtain pid t' where q: "q = (pid, t')" by force
    obtain name where name: "find (holds_open fs (str ''vcomd'') ino) names = Some name" "pid = c_int (atol name)" "0 < pid"
      "pf_file fs (cmd_path (atol name)) = Some (cmdline (daemon_args sslconf t'))"
      "length (cmdline (daemon_args sslconf t')) \<le> length buf" "ttyinfo_ok t'" "dash_free t'"
      using r Some q by auto
    with s n Some q show ?thesis by (auto simp: cmd_inode_search_pid_def min_absorb1)
  qed
qed

lemma spawn_port_result:
  assumes "ttyinfo_ok t" "path_ok sslconf" "port_state (so_fs ops w) (length buf) sslconf t r"
  shows "\<exists>buf'. length buf' = length buf \<and> spawn_port ops sslconf False t (buf, w) = Ok (buf',
    case r of
      None \<Rightarrow> so_system ops (create_syscmd (mon_name t) sslconf t @ str ''&'') w
    | Some (pid, t') \<Rightarrow>
        if t' = t then w else so_system ops (create_syscmd (mon_name t) sslconf t @ str ''&'') (so_kill ops pid 9 w))"
proof -
  have ex: "exec_syscmd ops False (create_syscmd (mon_name t) sslconf t) w' = Ok (so_system ops (create_syscmd (mon_name t) sslconf t @ str ''&'') w')" for w'
    using exec_fits [OF assms(1), of sslconf ops w'] assms(2) by (simp add: path_ok_def)
  obtain ino buf' where s: "pf_ino (so_fs ops w) (vcomif (ti_mpt_nameidx t)) = Some ino" "length buf' = length buf"
    "case r of
       None \<Rightarrow> cmd_inode_search_pid (so_fs ops w) (Some (str ''vcomd'')) ino buf = Ok (None, buf')
     | Some (pid, t') \<Rightarrow> (\<exists>junk. buf' = cmdline (daemon_args sslconf t') @ junk) \<and> 0 < pid \<and> ttyinfo_ok t' \<and> dash_free t' \<and>
         cmd_inode_search_pid (so_fs ops w) (Some (str ''vcomd'')) ino buf = Ok (Some (int (length (cmdline (daemon_args sslconf t'))), pid), buf')"
    using port_search [OF assms(3)] by blast
  show ?thesis
  proof (cases r)
    case None thus ?thesis using s ex by (simp add: spawn_port_def)
  next
    case (Some q)
    obtain pid t' where q: "q = (pid, t')" by force
    obtain junk where b: "buf' = cmdline (daemon_args sslconf t') @ junk" and t': "0 < pid" "ttyinfo_ok t'" "dash_free t'"
      and se: "cmd_inode_search_pid (so_fs ops w) (Some (str ''vcomd'')) ino buf = Ok (Some (int (length (cmdline (daemon_args sslconf t'))), pid), buf')"
      using s(3) Some q by auto
    obtain d where "oldcmd_cmp (mon_name t) sslconf buf' (int (length (cmdline (daemon_args sslconf t')))) t = Ok d" "d = 0 \<longleftrightarrow> t' = t"
      using oldcmd_cmp_exact [OF assms(1) t'(2,3), of sslconf junk] assms(2) b by (auto simp: path_ok_def)
    thus ?thesis using s(1,2) se Some q ex t'(1) by (simp add: spawn_port_def)
  qed
qed


lemma sample_number: "atol [55] = 7" "atoi [51] = 3" "dec 7 = [55]" "dec 3 = [51]" "starts_digit [55]" "starts_digit [51]"
  "\<not> starts_digit (110 # name)"
  by (simp_all add: number_defs dec_def dec_nat.simps starts_digit_def)

lemma sample_paths: "cmd_path 7 = str ''/proc/7/cmdline''" "fd_path 7 = str ''/proc/7/fd''" "proc_path 7 = str ''/proc/7''"
  by (simp_all add: cmd_path_def fd_path_def proc_path_def sample_number)

lemma cmd_path_conf: "cmd_path pid \<noteq> str ''/d/advttyd.conf''"
  by (simp add: cmd_path_def proc_path_def)

lemmas cmd_path_conf' = cmd_path_conf [simplified]

lemma daemon_args_hd: "\<exists>as. daemon_args sslconf t = CF_PORTPROG # as"
  by (simp add: daemon_args_def)

lemma sample_cmdline: "\<exists>r. cmdline (daemon_args sslconf t) = str ''vcomd'' @ 0 # r"
  using daemon_args_hd [of sslconf t] by (auto simp: CF_PORTPROG_def)

lemma sample_other: "\<not> holds_open fs c ino (110 # name)"
  by (simp add: holds_open_def sample_number)

lemma sample_runs:
  assumes "ti_mpt_nameidx t = str ''1''" "ttyinfo_ok t'" "dash_free t'" "length (cmdline (daemon_args (str ''/d/ssl.json'') t')) \<le> 2048"
  shows "port_state (sample_procfs conf t') 2048 (str ''/d/ssl.json'') t (Some (7, t'))"
proof -
  let ?fs = "sample_procfs conf t'"
  obtain r where r: "cmdline (daemon_args (str ''/d/ssl.json'') t') = str ''vcomd'' @ 0 # r" using sample_cmdline by blast
  have fd: "pid_search_fd_inode ?fs 7 99 = 0"
    by (simp add: pid_search_fd_inode_def sample_procfs_def sample_paths sample_number)
  have fl: "pf_file ?fs (cmd_path 7) = Some (cmdline (daemon_args (str ''/d/ssl.json'') t'))" by (simp add: sample_procfs_def sample_paths)
  have "holds_open ?fs (str ''vcomd'') 99 (str ''7'')"
    using fd fl r by (simp add: holds_open_def sample_number sample_procfs_def sample_paths c_int_small)
  moreover have "cmdlines_ok ?fs 2048"
    using r by (auto simp: cmdlines_ok_def sample_procfs_def cmd_path_conf' split: if_splits)
  ultimately show ?thesis using assms fl
    by (simp add: port_state_def vcomif_def sample_procfs_def sample_paths sample_other sample_number c_int_small)
qed

lemma sample_length: "length (cmdline (daemon_args (str ''/d/ssl.json'') sample_tty)) \<le> 2048"
  by (simp add: daemon_args_def sample_tty_def CF_PORTPROG_def mon_name_def MON_PATH_def)


lemma spawn_all_same:
  assumes "path_ok sslconf" "list_all ttyinfo_ok ts"
    "\<forall>t\<in>set ts. \<exists>pid. port_state (so_fs ops w) (length buf) sslconf t (Some (pid, t))"
  shows "\<exists>buf'. spawn_ttyp ops sslconf False ts (buf, w) = Ok (buf', w)"
  using assms(2,3)
proof (induction ts arbitrary: buf)
  case (Cons t ts)
  obtain pid where "port_state (so_fs ops w) (length buf) sslconf t (Some (pid, t))" using Cons.prems by auto
  then obtain b where b: "length b = length buf" "spawn_port ops sslconf False t (buf, w) = Ok (b, w)"
    using spawn_port_result [of t sslconf ops w buf "Some (pid, t)"] assms(1) Cons.prems(1) by auto
  have "list_all ttyinfo_ok ts" "\<forall>t\<in>set ts. \<exists>pid. port_state (so_fs ops w) (length b) sslconf t (Some (pid, t))"
    using Cons.prems b(1) by auto
  from Cons.IH [OF this] b(2) show ?case by simp
qed simp

lemma getopt_w: "getopt adv_spec [str ''-w'', dir] = [(119, dir)]"
  by (simp add: adv_spec_def)


lemma sample_conf: "paser_config (Some (conf_line sample_tty @ [10])) = [sample_tty]"
proof -
  note l = conf_line_length [OF sample_tty_able]
  have "takeWhile (\<lambda>c. c \<noteq> 0) (conf_line sample_tty @ [10]) = conf_line sample_tty @ [10]" using l by (auto simp: takeWhile_eq_all_conv)
  thus ?thesis using l parse_conf_line [OF sample_tty_able] fgets_all_lines [of "[conf_line sample_tty]" 256]
    by (simp add: paser_config_lines map_filter_simps)
qed


text \<open>
  C26. The search for an option looks inside the values of earlier options: a host name that contains \<^verbatim>\<open>-p\<close> hides
  the port of the entry, so that a daemon that runs with exactly its settings is taken for a different one
  and replaced at every start.
\<close>

theorem dashed_host_differs:
  assumes "ttyinfo_ok t" "45 \<notin> set (ti_mpt_nameidx t)" "45 \<notin> set (ti_dev_type t)"
    "strstr (ti_dev_ipaddr t) (str ''-p'') = Some k" "drop (k + 2) (ti_dev_ipaddr t) \<noteq> ti_dev_portidx t"
    "0 \<notin> set sslconf" "sslconf \<noteq> []"
  shows "\<exists>d. oldcmd_cmp (mon_name t) sslconf (cmdline (daemon_args sslconf t) @ junk) (int (length (cmdline (daemon_args sslconf t)))) t = Ok d \<and> 0 < d"
proof -
  note v = opt_cmp_value [OF daemon_args_texts [OF assms(1,6,7)] daemon_args_ne, of _ junk]
  have a: "strstr (45 # 97 # ti_dev_ipaddr t) [45, 112] = Some (k + 2)" using assms(4) by simp
  have "opt_value (daemon_args sslconf t) (str ''-p'') = Some (drop (k + 2) (ti_dev_ipaddr t))"
    using assms(2,3) by (simp add: daemon_args_def a opt_miss prog_miss mon_dash del: strstr.simps)
  thus ?thesis unfolding oldcmd_cmp_def using assms(5) by (simp add: v)
qed

definition dashed_tty :: TTYINFO where
  "dashed_tty = sample_tty\<lparr>ti_dev_ipaddr := str ''my-proxy''\<rparr>"

lemma dashed_host_differs_witness:
  "\<exists>d. oldcmd_cmp (mon_name dashed_tty) (str ''/d'') (cmdline (daemon_args (str ''/d'') dashed_tty) @ [])
     (int (length (cmdline (daemon_args (str ''/d'') dashed_tty)))) dashed_tty = Ok d \<and> 0 < d"
proof (rule dashed_host_differs [where k = 2])
  show "ttyinfo_ok dashed_tty"
    by (simp add: dashed_tty_def sample_tty_def ttyinfo_ok_def field_ok_def word_text_def CF_MAXSTRLEN_def CF_MAXPORTS_def number_defs)
qed (simp_all add: dashed_tty_def sample_tty_def)

end
