(* ===== verification/Vcom_Monitor.thy ===== *)
theory Vcom_Monitor
  imports C_Text Vcom_Daemon
begin

text \<open>
  daemon/monitor/vcom_monitor_dbg.h, the monitor that vcom.h includes: a mapped file of 2048 bytes with a
  status line and the latest messages, the newest first. The mapping is a whole page of 4096 bytes; an
  access behind it, or behind the 128 bytes of the buffer \<^verbatim>\<open>tmp\<close>, is \<open>Crash\<close>. Synchronising the file does
  not change its contents.
\<close>

definition MSIZE :: nat where "MSIZE = 2048"
definition FNAME_LEN :: nat where "FNAME_LEN = 256"
definition CUTTER :: "byte list" where "CUTTER = str ''> ''"
definition MON_MSGLEN_MAX :: nat where "MON_MSGLEN_MAX = 128"

text \<open>\<open>vm_addr\<close> is the mapped page; None stands for the null pointer and for MAP_FAILED.\<close>

record vc_monitor =
  vm_addr :: "byte list option"
  vm_fd :: int
  vm_pid :: int
  vm_max_statl :: nat
  vm_dbg_first :: bool
  vm_fname :: "byte list"

subsection \<open>Opening\<close>

text \<open>
  The process id, what \<^verbatim>\<open>open\<close> returns for a name, and whether the file can be mapped. The second component
  of the state is whether \<^verbatim>\<open>stk_mon\<close> points to the monitor.
\<close>

record mon_os =
  mo_pid :: int
  mo_open :: "byte list \<Rightarrow> int"
  mo_mmap :: "int \<Rightarrow> bool"

definition mon_init :: "mon_os \<Rightarrow> byte list option \<Rightarrow> vc_monitor \<times> bool \<Rightarrow> int \<times> vc_monitor \<times> bool" where
  "mon_init mo fname = (\<lambda>(m, stk_mon).
     let m0 = m\<lparr>vm_fd := - 1, vm_addr := None, vm_max_statl := 0, vm_dbg_first := True\<rparr> in
     case fname of
       None \<Rightarrow> (0, m0, stk_mon)
     | Some f \<Rightarrow>
         let name = snprintf_text FNAME_LEN f;
             m1 = m0\<lparr>vm_pid := mo_pid mo, vm_fname := name, vm_fd := mo_open mo name\<rparr>
         in if vm_fd m1 < 0 then (- 1, m1, stk_mon)
            else if \<not> mo_mmap mo (vm_fd m1) then (- 1, m1\<lparr>vm_fd := 0\<rparr>, stk_mon)
            else (0, m1\<lparr>vm_addr := Some (replicate MSIZE 13 @ replicate (4096 - MSIZE) 0)\<rparr>, True))"

subsection \<open>Writing\<close>

definition mem_copy :: "nat \<Rightarrow> byte list \<Rightarrow> nat \<Rightarrow> byte list \<Rightarrow> byte list out" where
  "mem_copy off src n mem =
     (if n \<le> length src \<and> off + n \<le> length mem then Ok (put_bytes off (take n src) mem) else Crash)"

definition mem_move :: "nat \<Rightarrow> nat \<Rightarrow> nat \<Rightarrow> byte list \<Rightarrow> byte list out" where
  "mem_move dst src n mem =
     (if dst + n \<le> length mem \<and> src + n \<le> length mem then Ok (put_bytes dst (get_bytes src n mem) mem) else Crash)"

text \<open>\<^verbatim>\<open>snprintf(&tmp[off], sizeof(tmp) - off, ...)\<close>, and \<^verbatim>\<open>strftime\<close> with the text of the local time.\<close>

definition print_at :: "nat \<Rightarrow> byte list \<Rightarrow> byte list \<Rightarrow> byte list" where
  "print_at off s tmp = put_bytes off (take (length tmp - off - 1) s @ [0]) tmp"

definition time2str :: "byte list \<Rightarrow> byte list \<Rightarrow> nat \<times> byte list" where
  "time2str tm tmp = (if length tm < length tmp then (length tm, print_at 0 tm tmp) else (0, tmp))"

definition vc_netdown_name :: "byte list" where
  [simp]: "vc_netdown_name = str ''Net Down''"

definition vc_netup_name :: "byte list" where
  [simp]: "vc_netup_name = str ''Net Up''"

definition vc_pause_name :: "byte list" where
  [simp]: "vc_pause_name = str ''Pause''"

definition vc_sync_name :: "byte list" where
  [simp]: "vc_sync_name = str ''Sync''"

definition vc_idle_name :: "byte list" where
  [simp]: "vc_idle_name = str ''Idle''"

fun vc_name :: "vc_ops \<Rightarrow> byte list" where
  "vc_name NETDOWN = vc_netdown_name"
| "vc_name NETUP = vc_netup_name"
| "vc_name PAUSE = vc_pause_name"
| "vc_name SYNC = vc_sync_name"
| "vc_name IDLE = vc_idle_name"

definition stat_text :: "int \<Rightarrow> vc_ops \<Rightarrow> byte list" where
  "stat_text pid s = str ''Pid '' @ dec pid @ str ''|State['' @ vc_name s @ [93, 10]"

definition mon_status :: "byte list \<Rightarrow> vc_monitor \<Rightarrow> vc_monitor out" where
  "mon_status stat m =
     (case vm_addr m of
        None \<Rightarrow> Crash
      | Some mem \<Rightarrow>
          let statl = length stat; tmp = print_at 0 stat (replicate MON_MSGLEN_MAX 32) in
          out_bind (if statl > vm_max_statl m then mem_move statl (vm_max_statl m) (MSIZE - statl) mem else Ok mem) (\<lambda>mem1.
          let maxl = (if statl > vm_max_statl m then statl else vm_max_statl m) in
          out_bind (mem_copy 0 tmp maxl mem1) (\<lambda>mem2. Ok (m\<lparr>vm_addr := Some mem2, vm_max_statl := maxl\<rparr>))))"

definition mon_message :: "nat \<Rightarrow> byte list \<Rightarrow> byte list \<Rightarrow> vc_monitor \<Rightarrow> (int \<times> vc_monitor) out" where
  "mon_message statl tm dbg m =
     (case vm_addr m of
        None \<Rightarrow> Crash
      | Some mem \<Rightarrow>
          let ptr = vm_max_statl m;
              (tml, tmp1) = time2str tm (replicate MON_MSGLEN_MAX 32);
              text = CUTTER @ dbg @ [10];
              tmp = print_at tml text tmp1;
              msglen = tml + length text
          in if int MSIZE - int msglen - int ptr \<le> 1 then Ok (- 1, m)
             else out_bind (if vm_dbg_first m then Ok mem else mem_move (ptr + msglen) ptr (MSIZE - statl - msglen) mem) (\<lambda>mem1.
               out_bind (mem_copy ptr tmp msglen mem1) (\<lambda>mem2. Ok (0, m\<lparr>vm_addr := Some mem2, vm_dbg_first := False\<rparr>))))"

definition mon_update :: "'w vc_attr \<Rightarrow> byte list \<Rightarrow> byte list option \<Rightarrow> vc_monitor \<Rightarrow> (int \<times> vc_monitor) out" where
  "mon_update a tm dbg m =
     (if vm_fd m < 0 then Ok (0, m)
      else if stk_empty a then Ok (- 1, m)
      else out_bind (stk_curnt a) (\<lambda>s.
        let stat = stat_text (vm_pid m) s in
        if int MSIZE - int (length stat) \<le> 1 then Ok (- 1, m)
        else out_bind (mon_status stat m) (\<lambda>m1.
          case dbg of None \<Rightarrow> Ok (0, m1) | Some d \<Rightarrow> mon_message (length stat) tm d m1)))"

text \<open>The message of _stk_log: the name of the state in parentheses and the text, cut to 511 bytes.\<close>

definition stk_log_msg :: "vc_ops \<Rightarrow> byte list \<Rightarrow> byte list" where
  "stk_log_msg s form = snprintf_text 512 (str ''('' @ vc_name s @ str '')'' @ form)"

subsection \<open>What the file shows\<close>

definition log_entry :: "byte list \<Rightarrow> byte list \<Rightarrow> byte list" where
  "log_entry tm d = tm @ CUTTER @ d @ [10]"

text \<open>
  The status line occupies as many bytes as the longest one so far; behind it come the entries, the
  newest first, as far as the file reaches, and carriage returns where nothing was written yet.
\<close>

definition mon_shows :: "byte list \<Rightarrow> byte list list \<Rightarrow> vc_monitor \<Rightarrow> bool" where
  "mon_shows stat entries m \<longleftrightarrow> (\<exists>mem. vm_addr m = Some mem \<and> length mem = 4096 \<and>
     take (vm_max_statl m) mem = take (vm_max_statl m) (stat @ 0 # replicate MON_MSGLEN_MAX 32) \<and>
     get_bytes (vm_max_statl m) (MSIZE - vm_max_statl m) mem =
       take (MSIZE - vm_max_statl m) (concat entries @ replicate MSIZE 13)) \<and>
     0 \<le> vm_fd m \<and> vm_max_statl m \<le> 64 \<and> (vm_dbg_first m \<longrightarrow> entries = [])"

lemma stat_text_length: "is_c_int pid \<Longrightarrow> length (stat_text pid s) \<le> 64"
proof -
  assume "is_c_int pid"
  hence "nat (- pid) < 10 ^ 10" "nat pid < 10 ^ 10" by (auto simp: is_c_int_def)
  hence "length (dec pid) \<le> 11" using dec_nat_length [of "nat (- pid)" 10] dec_nat_length [of "nat pid" 10] by (auto simp: dec_def)
  moreover have "length (vc_name s) \<le> 8" by (cases s) simp_all
  ultimately show ?thesis by (simp add: stat_text_def)
qed

lemma get_bytes_shorter: "k \<le> n \<Longrightarrow> get_bytes off n mem = take n L \<Longrightarrow> get_bytes off k mem = take k L"
  by (metis get_bytes_def min_absorb1 take_take)

lemma take_put_low: "length bs = n \<Longrightarrow> n \<le> off \<Longrightarrow> off + k \<le> length mem \<Longrightarrow> get_bytes off k (put_bytes 0 bs mem) = get_bytes off k mem"
  by (rule get_put_other) auto

lemma tmp_prefix:
  assumes "length s \<le> n" "n < MON_MSGLEN_MAX"
  shows "take n (print_at 0 s (replicate MON_MSGLEN_MAX 32)) = take n (s @ 0 # replicate MON_MSGLEN_MAX 32)"
proof -
  have "take (MON_MSGLEN_MAX - 1) s = s" using assms by simp
  moreover have "take k (replicate (MON_MSGLEN_MAX - Suc (length s)) 32) = take k (replicate MON_MSGLEN_MAX (32 :: byte))" if "k < n - length s" for k
    using that assms by simp
  ultimately show ?thesis using assms by (simp add: print_at_def put_bytes_def take_Cons')
qed

lemma status_shows:
  assumes "mon_shows stat0 entries m" "length stat \<le> 64"
  shows "\<exists>m'. mon_status stat m = Ok m' \<and> mon_shows stat entries m' \<and> vm_pid m' = vm_pid m \<and> vm_dbg_first m' = vm_dbg_first m \<and>
    length stat \<le> vm_max_statl m'"
proof -
  obtain mem where mem: "vm_addr m = Some mem" "length mem = 4096" "get_bytes (vm_max_statl m) (MSIZE - vm_max_statl m) mem =
       take (MSIZE - vm_max_statl m) (concat entries @ replicate MSIZE 13)"
    and m: "0 \<le> vm_fd m" "vm_max_statl m \<le> 64" "vm_dbg_first m \<longrightarrow> entries = []"
    using assms(1) unfolding mon_shows_def by blast
  define maxl where "maxl = (if length stat > vm_max_statl m then length stat else vm_max_statl m)"
  define mem1 where "mem1 = (if length stat > vm_max_statl m then put_bytes (length stat) (get_bytes (vm_max_statl m) (MSIZE - length stat) mem) mem else mem)"
  let ?tmp = "print_at 0 stat (replicate MON_MSGLEN_MAX 32)"
  have maxl: "maxl \<le> 64" "length stat \<le> maxl" using assms(2) m(2) by (auto simp: maxl_def)
  define L :: "byte list" where "L = concat entries @ replicate MSIZE 13"
  have mem1: "length mem1 = 4096 \<and> get_bytes maxl (MSIZE - maxl) mem1 = take (MSIZE - maxl) L"
  proof (cases "length stat > vm_max_statl m")
    case True
    let ?X = "get_bytes (vm_max_statl m) (MSIZE - length stat) mem"
    have "?X = take (MSIZE - length stat) L" using get_bytes_shorter [OF _ mem(3) [folded L_def], of "MSIZE - length stat"] True by simp
    moreover have x: "length ?X = MSIZE - length stat" using mem(2) m(2) assms(2) by (simp add: MSIZE_def)
    have "get_bytes (length stat) (MSIZE - length stat) (put_bytes (length stat) ?X mem) = ?X"
      using mem(2) assms(2) x by (intro get_put_same) (auto simp: MSIZE_def)
    ultimately show ?thesis using True x mem(2) assms(2) by (simp add: mem1_def maxl_def MSIZE_def)
  qed (use mem(2,3) in \<open>simp add: mem1_def maxl_def L_def\<close>)
  have tmp: "length ?tmp = 128" "take maxl ?tmp = take maxl (stat @ 0 # replicate MON_MSGLEN_MAX 32)"
    using assms(2) maxl tmp_prefix [of stat maxl] by (auto simp: print_at_def MON_MSGLEN_MAX_def)
  have "mon_status stat m = Ok (m\<lparr>vm_addr := Some (put_bytes 0 (take maxl ?tmp) mem1), vm_max_statl := maxl\<rparr>)"
    using mem mem1 m(2) assms(2) maxl(1) tmp(1)
    by (auto simp: mon_status_def mem_move_def mem_copy_def Let_def mem1_def maxl_def MSIZE_def)
  moreover have "mon_shows stat entries (m\<lparr>vm_addr := Some (put_bytes 0 (take maxl ?tmp) mem1), vm_max_statl := maxl\<rparr>)"
  proof -
    have "length (take maxl ?tmp) = maxl" "maxl + (MSIZE - maxl) \<le> length mem1" using tmp(1) mem1 maxl(1) by (auto simp: MSIZE_def)
    hence "get_bytes maxl (MSIZE - maxl) (put_bytes 0 (take maxl ?tmp) mem1) = take (MSIZE - maxl) L"
      "take maxl (put_bytes 0 (take maxl ?tmp) mem1) = take maxl ?tmp" "length (put_bytes 0 (take maxl ?tmp) mem1) = 4096"
      using take_put_low [of "take maxl ?tmp" maxl maxl "MSIZE - maxl" mem1] mem1 by (auto simp: put_bytes_def)
    thus ?thesis using tmp(2) maxl(1) m unfolding mon_shows_def L_def by simp
  qed
  ultimately show ?thesis using maxl by simp
qed

lemma tmp_message:
  assumes "length (log_entry tm d) < MON_MSGLEN_MAX"
  shows "time2str tm (replicate MON_MSGLEN_MAX 32) = (length tm, print_at 0 tm (replicate MON_MSGLEN_MAX 32))"
    "take (length (log_entry tm d)) (print_at (length tm) (CUTTER @ d @ [10]) (print_at 0 tm (replicate MON_MSGLEN_MAX 32))) = log_entry tm d"
    "length (print_at (length tm) (CUTTER @ d @ [10]) (print_at 0 tm (replicate MON_MSGLEN_MAX 32))) = MON_MSGLEN_MAX"
proof -
  define u where "u = CUTTER @ d @ [10]"
  define t1 where "t1 = print_at 0 tm (replicate MON_MSGLEN_MAX 32)"
  have len: "length tm + length u < MON_MSGLEN_MAX" "length (log_entry tm d) = length tm + length u"
    using assms by (simp_all add: log_entry_def u_def)
  have t1: "length t1 = MON_MSGLEN_MAX" "take (length tm) t1 = tm" using len by (simp_all add: t1_def print_at_def put_bytes_def)
  have "print_at (length tm) u t1 = tm @ u @ 0 # drop (length tm + length u + 1) t1"
    using len t1 by (simp add: print_at_def put_bytes_def)
  thus "take (length (log_entry tm d)) (print_at (length tm) (CUTTER @ d @ [10]) (print_at 0 tm (replicate MON_MSGLEN_MAX 32))) = log_entry tm d"
    "length (print_at (length tm) (CUTTER @ d @ [10]) (print_at 0 tm (replicate MON_MSGLEN_MAX 32))) = MON_MSGLEN_MAX"
    using len t1(1) by (simp_all add: len(2) log_entry_def flip: u_def t1_def)
  show "time2str tm (replicate MON_MSGLEN_MAX 32) = (length tm, print_at 0 tm (replicate MON_MSGLEN_MAX 32))"
    using len by (simp add: time2str_def)
qed

lemma get_bytes_replicate: "get_bytes p n mem = replicate n x \<Longrightarrow> k \<le> n \<Longrightarrow> get_bytes (p + k) (n - k) mem = replicate (n - k) x"
proof -
  assume "get_bytes p n mem = replicate n x" "k \<le> n"
  hence "drop k (get_bytes p n mem) = replicate (n - k) x" by simp
  thus ?thesis by (simp add: get_bytes_def drop_take add.commute)
qed

lemma message_shows:
  assumes "mon_shows stat entries m" "statl \<le> vm_max_statl m" "length (log_entry tm d) < MON_MSGLEN_MAX"
  shows "\<exists>m'. mon_message statl tm d m = Ok (0, m') \<and> mon_shows stat (log_entry tm d # entries) m' \<and> vm_pid m' = vm_pid m"
proof -
  define L :: "byte list" where "L = concat entries @ replicate MSIZE 13"
  define ptr where "ptr = vm_max_statl m"
  define e where "e = log_entry tm d"
  define n where "n = length e"
  obtain mem where mem: "vm_addr m = Some mem" "length mem = 4096" "take ptr mem = take ptr (stat @ 0 # replicate MON_MSGLEN_MAX 32)"
      "get_bytes ptr (MSIZE - ptr) mem = take (MSIZE - ptr) L"
    and m: "0 \<le> vm_fd m" "ptr \<le> 64" "vm_dbg_first m \<longrightarrow> entries = []"
    using assms(1) unfolding mon_shows_def L_def ptr_def by blast
  have n: "n < 128" using assms(3) by (simp add: n_def e_def MON_MSGLEN_MAX_def)
  define mem1 where "mem1 = (if vm_dbg_first m then mem else put_bytes (ptr + n) (get_bytes ptr (MSIZE - statl - n) mem) mem)"
  define mem2 where "mem2 = put_bytes ptr e mem1"
  have sl: "statl \<le> ptr" using assms(2) by (simp add: ptr_def)
  have x: "length (get_bytes ptr (MSIZE - statl - n) mem) = MSIZE - statl - n" using mem(2) m(2) by (simp add: MSIZE_def)
  have rest: "length mem1 = 4096 \<and> take ptr mem1 = take ptr mem \<and> get_bytes (ptr + n) (MSIZE - ptr - n) mem1 = take (MSIZE - ptr - n) L"
  proof (cases "vm_dbg_first m")
    case True
    hence "L = replicate MSIZE 13" using m(3) by (simp add: L_def)
    hence "get_bytes (ptr + n) (MSIZE - ptr - n) mem = take (MSIZE - ptr - n) L"
      using get_bytes_replicate [of ptr "MSIZE - ptr" mem 13 n] mem(4) m(2) n by (simp add: MSIZE_def)
    thus ?thesis using True mem(2) by (simp add: mem1_def)
  next
    case False
    let ?X = "get_bytes ptr (MSIZE - statl - n) mem"
    have f: "ptr + n + length ?X \<le> length mem" using x mem(2) m(2) n by (simp add: MSIZE_def)
    have "get_bytes (ptr + n) (MSIZE - ptr - n) (put_bytes (ptr + n) ?X mem) = take (MSIZE - ptr - n) ?X"
      using f x sl by (simp add: get_bytes_def put_bytes_def)
    also have "\<dots> = take (MSIZE - ptr - n) L"
      using get_bytes_shorter [OF _ mem(4), of "MSIZE - ptr - n"] sl by (simp add: get_bytes_def min_def)
    finally show ?thesis using False f mem(2) by (simp add: mem1_def) (simp add: put_bytes_def)
  qed
  have msg: "mon_message statl tm d m = Ok (0, m\<lparr>vm_addr := Some mem2, vm_dbg_first := False\<rparr>)"
    using mem(1,2) tmp_message [OF assms(3)] n m(2) x sl rest assms(3)
    by (auto simp: mon_message_def Let_def mem_move_def mem_copy_def mem1_def mem2_def n_def e_def log_entry_def MSIZE_def ptr_def)
  moreover have "mon_shows stat (e # entries) (m\<lparr>vm_addr := Some mem2, vm_dbg_first := False\<rparr>)"
  proof -
    have b: "ptr + length e \<le> length mem1" "ptr + n + (MSIZE - ptr - n) \<le> length mem1" using rest n m(2) by (auto simp: n_def MSIZE_def)
    have "get_bytes ptr (n + (MSIZE - ptr - n)) mem2 = e @ take (MSIZE - ptr - n) L"
      using b rest by (simp add: get_bytes_append_split mem2_def n_def)
    moreover have "length mem2 = 4096" using b(1) rest by (simp add: mem2_def)
    moreover have "take ptr mem2 = take ptr mem" using b(1) rest mem(2) by (simp add: mem2_def put_bytes_def)
    moreover have "n + (MSIZE - ptr - n) = MSIZE - ptr" using n m(2) by (simp add: MSIZE_def)
    ultimately show ?thesis using mem(3) m unfolding mon_shows_def by (simp add: L_def n_def flip: ptr_def)
  qed
  ultimately show ?thesis by (simp add: e_def)
qed

subsection \<open>Any sequence of updates\<close>

text \<open>One update: the daemon at that time, the text of the time, and the message if there is one.\<close>

fun mon_run :: "('w vc_attr \<times> byte list \<times> byte list option) list \<Rightarrow> vc_monitor \<Rightarrow> vc_monitor out" where
  "mon_run [] m = Ok m"
| "mon_run ((a, tm, dbg) # us) m = out_bind (mon_update a tm dbg m) (\<lambda>(r, m'). mon_run us m')"

definition update_ok :: "'w vc_attr \<times> byte list \<times> byte list option \<Rightarrow> bool" where
  "update_ok = (\<lambda>(a, tm, dbg). (\<exists>s. stk_curnt a = Ok s) \<and> (case dbg of None \<Rightarrow> True | Some d \<Rightarrow> length (log_entry tm d) < MON_MSGLEN_MAX))"

definition new_entries :: "('w vc_attr \<times> byte list \<times> byte list option) list \<Rightarrow> byte list list" where
  "new_entries us = rev (List.map_filter (\<lambda>(a, tm, dbg). map_option (log_entry tm) dbg) us)"

lemma update_shows:
  assumes "mon_shows stat0 entries m" "is_c_int (vm_pid m)" "update_ok (a, tm, dbg)" "stk_curnt a = Ok s"
  shows "\<exists>m'. mon_update a tm dbg m = Ok (0, m') \<and> vm_pid m' = vm_pid m \<and>
    mon_shows (stat_text (vm_pid m) s) ((case dbg of None \<Rightarrow> [] | Some d \<Rightarrow> [log_entry tm d]) @ entries) m'"
proof -
  let ?st = "stat_text (vm_pid m) s"
  have l: "length ?st \<le> 64" by (rule stat_text_length [OF assms(2)])
  obtain m1 where m1: "mon_status ?st m = Ok m1" "mon_shows ?st entries m1" "vm_pid m1 = vm_pid m" "length ?st \<le> vm_max_statl m1"
    using status_shows [OF assms(1) l] by blast
  have f: "\<not> vm_fd m < 0" "\<not> stk_empty a" using assms(1,4) by (auto simp: mon_shows_def stk_curnt_def split: if_splits)
  have u: "mon_update a tm dbg m = (case dbg of None \<Rightarrow> Ok (0, m1) | Some d \<Rightarrow> mon_message (length ?st) tm d m1)"
    using f assms(4) l m1(1) by (simp add: mon_update_def MSIZE_def)
  show ?thesis
  proof (cases dbg)
    case None thus ?thesis using u m1 by simp
  next
    case (Some d)
    hence "length (log_entry tm d) < MON_MSGLEN_MAX" using assms(3) by (simp add: update_ok_def)
    from message_shows [OF m1(2,4) this] show ?thesis using u m1(3) Some by auto
  qed
qed

lemma run_shows:
  assumes "mon_shows stat0 entries m" "is_c_int (vm_pid m)" "\<forall>u\<in>set us. update_ok u"
  shows "\<exists>m' stat. mon_run us m = Ok m' \<and> vm_pid m' = vm_pid m \<and> mon_shows stat (new_entries us @ entries) m' \<and>
    (us \<noteq> [] \<longrightarrow> (\<exists>s. stk_curnt (fst (last us)) = Ok s \<and> stat = stat_text (vm_pid m) s))"
  using assms
proof (induction us arbitrary: m stat0 entries)
  case Nil thus ?case by (auto simp: new_entries_def map_filter_simps)
next
  case (Cons u us)
  obtain a tm dbg where u: "u = (a, tm, dbg)" by (cases u) auto
  then obtain s where s: "stk_curnt a = Ok s" using Cons.prems(3) by (auto simp: update_ok_def)
  let ?e = "case dbg of None \<Rightarrow> [] | Some d \<Rightarrow> [log_entry tm d]"
  obtain m1 where m1: "mon_update a tm dbg m = Ok (0, m1)" "vm_pid m1 = vm_pid m" "mon_shows (stat_text (vm_pid m) s) (?e @ entries) m1"
    using update_shows [OF Cons.prems(1,2) _ s, of tm dbg] Cons.prems(3) u by auto
  have "is_c_int (vm_pid m1)" "\<forall>u\<in>set us. update_ok u" using Cons.prems m1(2) by auto
  from Cons.IH [OF m1(3) this] obtain m' stat where m': "mon_run us m1 = Ok m'" "vm_pid m' = vm_pid m1" "mon_shows stat (new_entries us @ ?e @ entries) m'"
    "us \<noteq> [] \<longrightarrow> (\<exists>s. stk_curnt (fst (last us)) = Ok s \<and> stat = stat_text (vm_pid m1) s)" by blast
  have e: "new_entries (u # us) = new_entries us @ ?e" by (simp add: new_entries_def u map_filter_simps split: option.splits)
  show ?case
  proof (cases "us = []")
    case True thus ?thesis using m1 s u e by (intro exI [of _ m1] exI [of _ "stat_text (vm_pid m) s"]) (simp add: new_entries_def map_filter_simps)
  next
    case False thus ?thesis using m1 m' e u by (intro exI [of _ m'] exI [of _ stat]) simp
  qed
qed

lemma init_shows:
  assumes "0 \<le> mo_open mo (snprintf_text FNAME_LEN f)" "mo_mmap mo (mo_open mo (snprintf_text FNAME_LEN f))"
  shows "\<exists>m1. mon_init mo (Some f) (m, sm) = (0, m1, True) \<and> mon_shows [] [] m1 \<and> vm_pid m1 = mo_pid mo"
proof -
  have "get_bytes 0 MSIZE (replicate MSIZE 13 @ replicate (4096 - MSIZE) 0) = replicate MSIZE (13 :: byte)" by (simp add: get_bytes_def)
  thus ?thesis using assms by (simp add: mon_init_def Let_def mon_shows_def) (simp add: MSIZE_def)
qed


definition sample_mon :: vc_monitor where
  "sample_mon = \<lparr>vm_addr = None, vm_fd = - 1, vm_pid = 0, vm_max_statl = 0, vm_dbg_first = True, vm_fname = []\<rparr>"

definition sample_mon_os :: mon_os where
  "sample_mon_os = \<lparr>mo_pid = 77, mo_open = (\<lambda>f. 4), mo_mmap = (\<lambda>fd. True)\<rparr>"

lemma sample_curnt: "stk_curnt (sample_attr 5 None 1 [NETDOWN, NETUP] []) = Ok NETUP"
  by (simp add: stk_curnt_def stk_empty_def)


text \<open>
  A message of more than 128 bytes, which _stk_log composes in a buffer of 512, makes mon_update copy bytes
  from behind its buffer of 128 into the file.
\<close>

lemma monitor_overread:
  assumes "mon_shows stat0 entries m" "is_c_int (vm_pid m)" "stk_curnt a = Ok s"
    "length tm < MON_MSGLEN_MAX" "MON_MSGLEN_MAX < length (log_entry tm d)" "length (log_entry tm d) \<le> 1024"
  shows "mon_update a tm (Some d) m = Crash"
proof -
  let ?st = "stat_text (vm_pid m) s"
  have l: "length ?st \<le> 64" by (rule stat_text_length [OF assms(2)])
  obtain m1 where m1: "mon_status ?st m = Ok m1" "mon_shows ?st entries m1" "length ?st \<le> vm_max_statl m1"
    using status_shows [OF assms(1) l] by blast
  obtain mem where mem: "vm_addr m1 = Some mem" "length mem = 4096" "vm_max_statl m1 \<le> 64" using m1(2) unfolding mon_shows_def by blast
  have f: "\<not> vm_fd m < 0" "\<not> stk_empty a" using assms(1,3) by (auto simp: mon_shows_def stk_curnt_def split: if_splits)
  have "length (print_at (length tm) u (print_at 0 tm (replicate MON_MSGLEN_MAX 32))) = MON_MSGLEN_MAX" for u
    using assms(4) by (simp add: print_at_def)
  moreover have "time2str tm (replicate MON_MSGLEN_MAX 32) = (length tm, print_at 0 tm (replicate MON_MSGLEN_MAX 32))"
    using assms(4) by (simp add: time2str_def)
  ultimately have "mon_message (length ?st) tm d m1 = Crash"
    using mem assms(5,6) m1(3) by (auto simp: mon_message_def Let_def mem_copy_def mem_move_def log_entry_def MSIZE_def MON_MSGLEN_MAX_def)
  thus ?thesis using f assms(3) l m1(1) by (simp add: mon_update_def MSIZE_def)
qed

lemma monitor_overread_witness:
  "\<exists>m1. mon_init sample_mon_os (Some (str ''/tmp/advmon/advtty1'')) (sample_mon, False) = (0, m1, True) \<and>
    mon_update (sample_attr 5 None 1 [NETDOWN, NETUP] []) (replicate 20 48) (Some (stk_log_msg NETUP (replicate 110 65))) m1 = Crash"
proof -
  obtain m1 where m1: "mon_init sample_mon_os (Some (str ''/tmp/advmon/advtty1'')) (sample_mon, False) = (0, m1, True)"
    "mon_shows [] [] m1" "vm_pid m1 = 77"
    using init_shows [of sample_mon_os "str ''/tmp/advmon/advtty1''" sample_mon False] by (auto simp: sample_mon_os_def)
  have "length (stk_log_msg NETUP (replicate 110 65)) = 118" by (simp add: stk_log_msg_def snprintf_text_def)
  hence "mon_update (sample_attr 5 None 1 [NETDOWN, NETUP] []) (replicate 20 48) (Some (stk_log_msg NETUP (replicate 110 65))) m1 = Crash"
    using monitor_overread [OF m1(2) _ sample_curnt, of "replicate 20 48" "stk_log_msg NETUP (replicate 110 65)"] m1(3)
    by (simp add: is_c_int_def log_entry_def CUTTER_def MON_MSGLEN_MAX_def)
  with m1(1) show ?thesis by blast
qed

end
