(* ===== verification/Ssl_Ctx.thy ===== *)
theory Ssl_Ctx
  imports C_Text
begin

text \<open>
  The rest of shared/ssl_select/ssl_select.c: the TLS context with its keys, the password callback, the
  certificate callbacks (the second one is of daemon/vcom_client.c) and the texts of errors. Whether
  OpenSSL accepts a file, and its error texts, are parameters.
\<close>

definition SSL_SEL_PASSWORD_MAX :: nat where "SSL_SEL_PASSWORD_MAX = 512"

record ssl_pwd_data =
  pw_len :: int
  pw_data :: "byte list"

subsection \<open>Passwords\<close>

text \<open>The result and the string stored in the buffer; None is an untouched buffer.\<close>

definition password_cb :: "int \<Rightarrow> ssl_pwd_data option \<Rightarrow> int \<times> byte list option" where
  "password_cb num userdata =
     (case userdata of
        None \<Rightarrow> (0, None)
      | Some p \<Rightarrow> if pw_len p > num then (0, None) else (pw_len p, Some (snprintf_text (nat num) (pw_data p))))"

definition strvalid :: "byte list \<Rightarrow> nat \<Rightarrow> nat" where
  "strvalid buf bufmax = (let len = min (length buf) bufmax in if len = bufmax then 0 else len)"

subsection \<open>Certificates\<close>

abbreviation (input) X509_V_ERR_CERT_NOT_YET_VALID :: int where "X509_V_ERR_CERT_NOT_YET_VALID \<equiv> 9"
abbreviation (input) X509_V_ERR_CERT_HAS_EXPIRED :: int where "X509_V_ERR_CERT_HAS_EXPIRED \<equiv> 10"

definition verify_callback :: "int \<Rightarrow> int \<Rightarrow> int" where
  "verify_callback ok err = ok"

definition custom_verify_callback :: "int \<Rightarrow> int \<Rightarrow> int" where
  "custom_verify_callback ok err =
     (if ok = 0 then
        (if err = X509_V_ERR_CERT_NOT_YET_VALID \<or> err = X509_V_ERR_CERT_HAS_EXPIRED then 1 else ok)
      else ok)"

subsection \<open>The context\<close>

text \<open>
  \<open>cx_verify\<close> is the callback that was set together with SSL_VERIFY_PEER, \<open>cx_passwd\<close> the data of the
  password callback.
\<close>

record ssl_ctx =
  cx_verify :: "(int \<Rightarrow> int \<Rightarrow> int) option"
  cx_passwd :: "ssl_pwd_data option"
  cx_keyfile :: "byte list option"
  cx_ca :: "byte list option"

text \<open>Paths are seen from the current directory, the first argument.\<close>

record ossl =
  ol_ctx_new :: bool
  ol_use_chain :: "byte list \<Rightarrow> byte list \<Rightarrow> bool"
  ol_use_key :: "byte list \<Rightarrow> byte list \<Rightarrow> ssl_pwd_data option \<Rightarrow> bool"
  ol_load_ca :: "byte list \<Rightarrow> byte list \<Rightarrow> bool"

definition set_passwd :: "byte list option \<Rightarrow> ssl_pwd_data \<Rightarrow> ssl_ctx \<Rightarrow> ssl_ctx \<times> ssl_pwd_data" where
  "set_passwd password pwd ctx =
     (case password of
        None \<Rightarrow> (ctx, pwd)
      | Some s \<Rightarrow>
          if strvalid s SSL_SEL_PASSWORD_MAX = 0 then (ctx, pwd)
          else let pwd' = \<lparr>pw_len = int (strvalid s SSL_SEL_PASSWORD_MAX), pw_data = snprintf_text SSL_SEL_PASSWORD_MAX s\<rparr>
               in (ctx\<lparr>cx_passwd := Some pwd'\<rparr>, pwd'))"

text \<open>
  None is the null pointer. Measuring a null path and using a null context is \<open>Crash\<close>; loading the
  authorities from a null path fails.
\<close>

definition initialize_ctx :: "ossl \<Rightarrow> byte list \<Rightarrow> byte list option \<Rightarrow> byte list option \<Rightarrow> byte list option \<Rightarrow> ssl_pwd_data \<Rightarrow>
    (ssl_ctx option \<times> ssl_pwd_data) out" where
  "initialize_ctx ol cwd rootCA keyfile password pwd =
     (let ctx = \<lparr>cx_verify = None, cx_passwd = None, cx_keyfile = None, cx_ca = None\<rparr> in
      case keyfile of
        None \<Rightarrow> Crash
      | Some kf \<Rightarrow>
          if \<not> ol_ctx_new ol then Crash
          else let (ctx1, pwd1) = (if strvalid kf 4096 \<noteq> 0 then set_passwd password pwd ctx else (ctx, pwd)) in
            if strvalid kf 4096 \<noteq> 0 \<and> \<not> ol_use_chain ol cwd kf then Ok (None, pwd)
            else if strvalid kf 4096 \<noteq> 0 \<and> \<not> ol_use_key ol cwd kf (cx_passwd ctx1) then Ok (None, pwd1)
            else let ctx2 = (if strvalid kf 4096 \<noteq> 0 then ctx1\<lparr>cx_keyfile := Some kf\<rparr> else ctx1) in
              (case rootCA of
                 None \<Rightarrow> Ok (None, pwd1)
               | Some ca \<Rightarrow>
                   if \<not> ol_load_ca ol cwd ca then Ok (None, pwd1)
                   else Ok (Some (ctx2\<lparr>cx_ca := Some ca, cx_verify := Some verify_callback\<rparr>), pwd1)))"

subsection \<open>Error texts\<close>

abbreviation (input) SSL_ERROR_SYSCALL :: int where "SSL_ERROR_SYSCALL \<equiv> 5"
abbreviation (input) SSL_ERROR_ZERO_RETURN :: int where "SSL_ERROR_ZERO_RETURN \<equiv> 6"

text \<open>
  \<open>x509\<close> is the verification error and its text, None for X509_V_OK. Printing behind the buffer with a
  negative size is \<open>Crash\<close>: the size is taken for a huge one. The result is the length and the string.
\<close>

definition show_x509_err_str :: "(int \<times> byte list) option \<Rightarrow> byte list" where
  "show_x509_err_str x509 =
     (case x509 of None \<Rightarrow> [] | Some (v_err, s) \<Rightarrow> str ''X509 error('' @ dec v_err @ str ''):'' @ s)"

definition ssl_errno_str :: "byte list \<Rightarrow> byte list \<Rightarrow> (int \<times> byte list) option \<Rightarrow> int \<Rightarrow> nat \<Rightarrow> (int \<times> byte list) out" where
  "ssl_errno_str strerror reason x509 ssl_errno buflen =
     (let out = (\<lambda>s. Ok (int (length s), snprintf_text buflen s)) in
      if ssl_errno = 2 then out (str ''SSL wait on read'')
      else if ssl_errno = 3 then out (str ''SSL wait on write'')
      else if ssl_errno = SSL_ERROR_ZERO_RETURN then out (str ''SSL connection closed by peer'')
      else if ssl_errno = SSL_ERROR_SYSCALL then out (str ''SSL syscall: '' @ strerror)
      else let s = str ''SSL error('' @ dec ssl_errno @ str ''):'' @ reason @ str '';'' in
        if x509 = None then out s
        else if length s > buflen then Crash
        else Ok (int (length s + length (show_x509_err_str x509)),
                 if length s = buflen then snprintf_text buflen s else snprintf_text buflen (s @ show_x509_err_str x509)))"

subsection \<open>Laws\<close>

text \<open>
  OpenSSL accepts a chain when the callback returns 1 for every error it finds in it.
\<close>

definition chain_accepted :: "ssl_ctx \<Rightarrow> int list \<Rightarrow> bool" where
  "chain_accepted ctx errs \<longleftrightarrow> (case cx_verify ctx of None \<Rightarrow> True | Some cb \<Rightarrow> list_all (\<lambda>err. cb 0 err = 1) errs)"

lemma callbacks_accept:
  "cx_verify ctx = Some verify_callback \<Longrightarrow> chain_accepted ctx errs \<longleftrightarrow> errs = []"
  "cx_verify ctx = Some custom_verify_callback \<Longrightarrow> chain_accepted ctx errs \<longleftrightarrow>
    set errs \<subseteq> {X509_V_ERR_CERT_NOT_YET_VALID, X509_V_ERR_CERT_HAS_EXPIRED}"
  by (cases errs) (auto simp: chain_accepted_def verify_callback_def custom_verify_callback_def list_all_iff)

lemma initialize_ctx_verifies:
  "initialize_ctx ol cwd rootCA keyfile password pwd = Ok (Some ctx, pwd') \<Longrightarrow>
    cx_verify ctx = Some verify_callback \<and> (\<exists>ca. rootCA = Some ca \<and> ol_load_ca ol cwd ca \<and> cx_ca ctx = Some ca)"
  by (auto simp: initialize_ctx_def Let_def split: option.splits if_splits prod.splits)

text \<open>
  Passwords: the password that initialize_ctx stores reaches OpenSSL unchanged through the callback whenever
  it is shorter than the buffer it is asked for; a longer one is refused, and one of exactly the size
  of the buffer loses its last character although its full length is returned.
\<close>

lemma password_reaches_openssl:
  assumes "s \<noteq> []" "length s < SSL_SEL_PASSWORD_MAX"
  shows "\<exists>p. set_passwd (Some s) pwd ctx = (ctx\<lparr>cx_passwd := Some p\<rparr>, p) \<and>
    (int (length s) < num \<longrightarrow> password_cb num (Some p) = (int (length s), Some s)) \<and>
    (num < int (length s) \<longrightarrow> password_cb num (Some p) = (0, None)) \<and>
    (num = int (length s) \<longrightarrow> password_cb num (Some p) = (int (length s), Some (butlast s)))"
  using assms
  by (auto simp: set_passwd_def strvalid_def password_cb_def snprintf_text_def SSL_SEL_PASSWORD_MAX_def Let_def butlast_conv_take)

end
