(* ===== verification/Jsmn.thy ===== *)
theory Jsmn
  imports VC_Prelude
begin

text \<open>
  shared/json/jsmn.c and jsmn.h: the JSON tokenizer, in the configuration the repository builds
  (neither JSMN_STRICT nor JSMN_PARENT_LINKS). The text is a list of bytes, the pair \<open>js\<close>,
  \<open>len\<close> of the code. A token array is a list whose accesses are checked: an index outside it is
  \<open>Crash\<close>. The array is optional, as the code accepts a null pointer to count tokens only. Bytes
  are compared unsigned; the code's signed comparisons with 32 and 127 reject the same bytes.
\<close>

subsection \<open>Data\<close>

datatype jsmntype = JSMN_UNDEFINED | JSMN_OBJECT | JSMN_ARRAY | JSMN_STRING | JSMN_PRIMITIVE

definition JSMN_ERROR_NOMEM :: int where "JSMN_ERROR_NOMEM = - 1"
definition JSMN_ERROR_INVAL :: int where "JSMN_ERROR_INVAL = - 2"
definition JSMN_ERROR_PART :: int where "JSMN_ERROR_PART = - 3"

lemmas jsmn_errs = JSMN_ERROR_NOMEM_def JSMN_ERROR_INVAL_def JSMN_ERROR_PART_def

record jsmntok =
  tk_type :: jsmntype
  tk_start :: int
  tk_end :: int
  tk_size :: int

record jsmn_parser =
  jp_pos :: nat
  jp_toknext :: nat
  jp_toksuper :: int

text \<open>The characters the code names.\<close>

abbreviation (input) ch_tab :: byte where "ch_tab \<equiv> 9"
abbreviation (input) ch_nl :: byte where "ch_nl \<equiv> 10"
abbreviation (input) ch_cr :: byte where "ch_cr \<equiv> 13"
abbreviation (input) ch_sp :: byte where "ch_sp \<equiv> 32"
abbreviation (input) ch_quote :: byte where "ch_quote \<equiv> 34"
abbreviation (input) ch_comma :: byte where "ch_comma \<equiv> 44"
abbreviation (input) ch_slash :: byte where "ch_slash \<equiv> 47"
abbreviation (input) ch_colon :: byte where "ch_colon \<equiv> 58"
abbreviation (input) ch_lbrk :: byte where "ch_lbrk \<equiv> 91"
abbreviation (input) ch_bslash :: byte where "ch_bslash \<equiv> 92"
abbreviation (input) ch_rbrk :: byte where "ch_rbrk \<equiv> 93"
abbreviation (input) ch_lbrace :: byte where "ch_lbrace \<equiv> 123"
abbreviation (input) ch_rbrace :: byte where "ch_rbrace \<equiv> 125"

definition jsmn_init :: jsmn_parser where
  "jsmn_init = \<lparr>jp_pos = 0, jp_toknext = 0, jp_toksuper = - 1\<rparr>"

subsection \<open>Token slots\<close>

definition tok_upd :: "jsmntok list \<Rightarrow> nat \<Rightarrow> (jsmntok \<Rightarrow> jsmntok) \<Rightarrow> jsmntok list out" where
  "tok_upd toks i f = (if i < length toks then Ok (toks[i := f (toks ! i)]) else Crash)"

definition jsmn_alloc_token :: "jsmn_parser \<Rightarrow> jsmntok list \<Rightarrow> nat \<Rightarrow>
    (nat \<times> jsmn_parser \<times> jsmntok list) option out" where
  "jsmn_alloc_token p toks num =
     (if jp_toknext p \<ge> num then Ok None
      else out_bind (tok_upd toks (jp_toknext p) (\<lambda>t. t\<lparr>tk_start := - 1, tk_end := - 1, tk_size := 0\<rparr>))
        (\<lambda>toks'. Ok (Some (jp_toknext p, p\<lparr>jp_toknext := jp_toknext p + 1\<rparr>, toks'))))"

definition jsmn_fill_token :: "jsmntype \<Rightarrow> int \<Rightarrow> int \<Rightarrow> jsmntok \<Rightarrow> jsmntok" where
  "jsmn_fill_token ty st en t = t\<lparr>tk_type := ty, tk_start := st, tk_end := en, tk_size := 0\<rparr>"

text \<open>\<^verbatim>\<open>parser->pos--\<close> on an unsigned int.\<close>

definition pos_dec :: "nat \<Rightarrow> nat" where
  "pos_dec q = (if q = 0 then 2 ^ 32 - 1 else q - 1)"

subsection \<open>Primitives\<close>

definition prim_stop :: "byte set" where
  "prim_stop = {ch_colon, ch_tab, ch_cr, ch_nl, ch_sp, ch_comma, ch_rbrk, ch_rbrace}"

text \<open>The loop of jsmn_parse_primitive: where the primitive ends, None for an invalid byte.\<close>

function prim_scan :: "byte list \<Rightarrow> nat \<Rightarrow> nat option" where
  "prim_scan js p =
     (if p < length js \<and> js ! p \<noteq> 0 then
        if js ! p \<in> prim_stop then Some p
        else if js ! p < 32 \<or> js ! p \<ge> 127 then None
        else prim_scan js (Suc p)
      else Some p)"
  by pat_completeness auto
termination
  by (relation "measure (\<lambda>(js, p). length js - p)") auto

declare prim_scan.simps [simp del]

definition jsmn_parse_primitive :: "jsmn_parser \<Rightarrow> byte list \<Rightarrow> jsmntok list option \<Rightarrow> nat \<Rightarrow>
    (int \<times> jsmn_parser \<times> jsmntok list option) out" where
  "jsmn_parse_primitive p js tokens num =
     (let start = jp_pos p in
      case prim_scan js start of
        None \<Rightarrow> Ok (JSMN_ERROR_INVAL, p, tokens)
      | Some q \<Rightarrow>
          (case tokens of
             None \<Rightarrow> Ok (0, p\<lparr>jp_pos := pos_dec q\<rparr>, None)
           | Some toks \<Rightarrow> out_bind (jsmn_alloc_token p toks num) (\<lambda>r.
               case r of
                 None \<Rightarrow> Ok (JSMN_ERROR_NOMEM, p, tokens)
               | Some (i, p1, toks1) \<Rightarrow>
                   out_bind (tok_upd toks1 i (jsmn_fill_token JSMN_PRIMITIVE (int start) (int q))) (\<lambda>toks2.
                     Ok (0, p1\<lparr>jp_pos := pos_dec q\<rparr>, Some toks2)))))"

subsection \<open>Strings\<close>

definition is_hex :: "byte \<Rightarrow> bool" where
  "is_hex c \<longleftrightarrow> (c \<ge> 48 \<and> c \<le> 57) \<or> (c \<ge> 65 \<and> c \<le> 70) \<or> (c \<ge> 97 \<and> c \<le> 102)"

definition esc_ok :: "byte set" where
  "esc_ok = {ch_quote, ch_slash, ch_bslash, 98, 102, 114, 110, 116}"

text \<open>The loop over the digits of \<^verbatim>\<open>\uXXXX\<close>, with the number of digits still allowed.\<close>

primrec hex_run :: "byte list \<Rightarrow> nat \<Rightarrow> nat \<Rightarrow> nat option" where
  "hex_run js 0 p = Some p"
| "hex_run js (Suc n) p =
     (if p < length js \<and> js ! p \<noteq> 0 then
        (if is_hex (js ! p) then hex_run js n (Suc p) else None)
      else Some p)"

lemma hex_run_mono: "hex_run js n p = Some q \<Longrightarrow> p \<le> q"
  by (induction n arbitrary: p) (auto split: if_splits dest: Suc_leD)

text \<open>The loop of jsmn_parse_string: an error or the position of the closing quote.\<close>

function str_scan :: "byte list \<Rightarrow> nat \<Rightarrow> int + nat" where
  "str_scan js p =
     (if p < length js \<and> js ! p \<noteq> 0 then
        if js ! p = ch_quote then Inr p
        else if js ! p = ch_bslash \<and> p + 1 < length js then
          if js ! (p + 1) \<in> esc_ok then str_scan js (p + 2)
          else if js ! (p + 1) = 117 then
            (case hex_run js 4 (p + 2) of
               None \<Rightarrow> Inl JSMN_ERROR_INVAL
             | Some q \<Rightarrow> str_scan js q)
          else Inl JSMN_ERROR_INVAL
        else str_scan js (p + 1)
      else Inl JSMN_ERROR_PART)"
  by pat_completeness auto
termination
  by (relation "measure (\<lambda>(js, p). length js - p)") (auto dest: hex_run_mono)

declare str_scan.simps [simp del]

definition jsmn_parse_string :: "jsmn_parser \<Rightarrow> byte list \<Rightarrow> jsmntok list option \<Rightarrow> nat \<Rightarrow>
    (int \<times> jsmn_parser \<times> jsmntok list option) out" where
  "jsmn_parse_string p js tokens num =
     (let start = jp_pos p in
      case str_scan js (start + 1) of
        Inl e \<Rightarrow> Ok (e, p, tokens)
      | Inr q \<Rightarrow>
          (case tokens of
             None \<Rightarrow> Ok (0, p\<lparr>jp_pos := q\<rparr>, None)
           | Some toks \<Rightarrow> out_bind (jsmn_alloc_token p toks num) (\<lambda>r.
               case r of
                 None \<Rightarrow> Ok (JSMN_ERROR_NOMEM, p, tokens)
               | Some (i, p1, toks1) \<Rightarrow>
                   out_bind (tok_upd toks1 i (jsmn_fill_token JSMN_STRING (int start + 1) (int q))) (\<lambda>toks2.
                     Ok (0, p1\<lparr>jp_pos := q\<rparr>, Some toks2)))))"

subsection \<open>The parser\<close>

definition is_open :: "jsmntok \<Rightarrow> bool" where
  "is_open t \<longleftrightarrow> tk_start t \<noteq> - 1 \<and> tk_end t = - 1"

text \<open>The loops from a token downwards: the last open one, and the last open container.\<close>

primrec find_open :: "jsmntok list \<Rightarrow> nat \<Rightarrow> nat option out" where
  "find_open toks 0 = Ok None"
| "find_open toks (Suc i) =
     (if i \<ge> length toks then Crash else if is_open (toks ! i) then Ok (Some i) else find_open toks i)"

primrec find_super :: "jsmntok list \<Rightarrow> nat \<Rightarrow> nat option out" where
  "find_super toks 0 = Ok None"
| "find_super toks (Suc i) =
     (if i \<ge> length toks then Crash
      else if tk_type (toks ! i) \<in> {JSMN_ARRAY, JSMN_OBJECT} \<and> is_open (toks ! i) then Ok (Some i)
      else find_super toks i)"

text \<open>\<^verbatim>\<open>tokens[parser->toksuper].size++\<close>, and reading the type of that token.\<close>

definition size_inc :: "jsmntok list \<Rightarrow> int \<Rightarrow> jsmntok list out" where
  "size_inc toks s = (if s < 0 then Crash else tok_upd toks (nat s) (\<lambda>t. t\<lparr>tk_size := tk_size t + 1\<rparr>))"

definition type_at :: "jsmntok list \<Rightarrow> int \<Rightarrow> jsmntype out" where
  "type_at toks s = (if s < 0 \<or> length toks \<le> nat s then Crash else Ok (tk_type (toks ! nat s)))"

text \<open>
  The cases of the switch. \<open>Inl\<close> is a return with its value, \<open>Inr\<close> goes on with the next
  character; the counter is \<open>count\<close>.
\<close>

type_synonym jsmn_res = "(int \<times> jsmn_parser \<times> jsmntok list option) + (jsmn_parser \<times> jsmntok list option \<times> int)"

definition jsmn_open :: "byte \<Rightarrow> nat \<Rightarrow> jsmn_parser \<Rightarrow> jsmntok list \<Rightarrow> int \<Rightarrow> jsmn_res out" where
  "jsmn_open c num p toks count =
     out_bind (jsmn_alloc_token p toks num) (\<lambda>r.
       case r of
         None \<Rightarrow> Ok (Inl (JSMN_ERROR_NOMEM, p, Some toks))
       | Some (i, p1, toks1) \<Rightarrow>
           out_bind (if jp_toksuper p1 \<noteq> - 1 then size_inc toks1 (jp_toksuper p1) else Ok toks1) (\<lambda>toks2.
           out_bind (tok_upd toks2 i (\<lambda>t. t\<lparr>tk_type := if c = ch_lbrace then JSMN_OBJECT else JSMN_ARRAY,
               tk_start := int (jp_pos p1)\<rparr>)) (\<lambda>toks3.
             Ok (Inr (p1\<lparr>jp_toksuper := int (jp_toknext p1) - 1\<rparr>, Some toks3, count + 1)))))"

definition jsmn_close :: "byte \<Rightarrow> jsmn_parser \<Rightarrow> jsmntok list \<Rightarrow> int \<Rightarrow> jsmn_res out" where
  "jsmn_close c p toks count =
     (let ty = (if c = ch_rbrace then JSMN_OBJECT else JSMN_ARRAY) in
      out_bind (find_open toks (jp_toknext p)) (\<lambda>r.
        case r of
          None \<Rightarrow> Ok (Inl (JSMN_ERROR_INVAL, p, Some toks))
        | Some i \<Rightarrow>
            if tk_type (toks ! i) \<noteq> ty then Ok (Inl (JSMN_ERROR_INVAL, p, Some toks))
            else out_bind (tok_upd toks i (\<lambda>t. t\<lparr>tk_end := int (jp_pos p) + 1\<rparr>)) (\<lambda>toks1.
              out_bind (find_open toks1 (Suc i)) (\<lambda>r2.
                Ok (Inr (p\<lparr>jp_toksuper := case r2 of Some j \<Rightarrow> int j | None \<Rightarrow> - 1\<rparr>, Some toks1, count))))))"

definition jsmn_comma :: "jsmn_parser \<Rightarrow> jsmntok list \<Rightarrow> int \<Rightarrow> jsmn_res out" where
  "jsmn_comma p toks count =
     (if jp_toksuper p \<noteq> - 1 then
        out_bind (type_at toks (jp_toksuper p)) (\<lambda>ty.
          if ty \<noteq> JSMN_ARRAY \<and> ty \<noteq> JSMN_OBJECT then
            out_bind (find_super toks (jp_toknext p)) (\<lambda>r.
              Ok (Inr (case r of Some i \<Rightarrow> p\<lparr>jp_toksuper := int i\<rparr> | None \<Rightarrow> p, Some toks, count)))
          else Ok (Inr (p, Some toks, count)))
      else Ok (Inr (p, Some toks, count)))"

text \<open>What follows a string or a primitive.\<close>

definition jsmn_item :: "(int \<times> jsmn_parser \<times> jsmntok list option) out \<Rightarrow> int \<Rightarrow> jsmn_res out" where
  "jsmn_item r count =
     out_bind r (\<lambda>(ret, p, tokens).
       if ret < 0 then Ok (Inl (ret, p, tokens))
       else case tokens of
         None \<Rightarrow> Ok (Inr (p, None, count + 1))
       | Some toks \<Rightarrow>
           out_bind (if jp_toksuper p \<noteq> - 1 then size_inc toks (jp_toksuper p) else Ok toks) (\<lambda>toks1.
             Ok (Inr (p, Some toks1, count + 1))))"

definition jsmn_step :: "byte list \<Rightarrow> nat \<Rightarrow> jsmn_parser \<Rightarrow> jsmntok list option \<Rightarrow> int \<Rightarrow> jsmn_res out" where
  "jsmn_step js num p tokens count =
     (let c = js ! jp_pos p in
      if c \<in> {ch_lbrace, ch_lbrk} then
        (case tokens of None \<Rightarrow> Ok (Inr (p, None, count + 1)) | Some toks \<Rightarrow> jsmn_open c num p toks count)
      else if c \<in> {ch_rbrace, ch_rbrk} then
        (case tokens of None \<Rightarrow> Ok (Inr (p, None, count)) | Some toks \<Rightarrow> jsmn_close c p toks count)
      else if c = ch_quote then jsmn_item (jsmn_parse_string p js tokens num) count
      else if c \<in> {ch_tab, ch_cr, ch_nl, ch_sp} then Ok (Inr (p, tokens, count))
      else if c = ch_colon then Ok (Inr (p\<lparr>jp_toksuper := int (jp_toknext p) - 1\<rparr>, tokens, count))
      else if c = ch_comma then
        (case tokens of None \<Rightarrow> Ok (Inr (p, None, count)) | Some toks \<Rightarrow> jsmn_comma p toks count)
      else jsmn_item (jsmn_parse_primitive p js tokens num) count)"

text \<open>Every round moves on, which ends the loop.\<close>

lemma prim_scan_bounds: "prim_scan js p = Some q \<Longrightarrow> p \<le> length js \<Longrightarrow> p \<le> q \<and> q \<le> length js"
proof (induction js p rule: prim_scan.induct)
  case (1 js p)
  show ?case
    using "1.prems" "1.IH" by (subst (asm) (1) prim_scan.simps) (auto split: if_splits)
qed

lemma prim_scan_item:
  assumes "prim_scan js p = Some q" "p < length js" "js ! p \<noteq> 0" "js ! p \<notin> prim_stop"
  shows "p < q \<and> q \<le> length js"
  using assms prim_scan_bounds [of js "Suc p" q] by (subst (asm) prim_scan.simps) (auto split: if_splits)

lemma str_scan_bounds: "str_scan js p = Inr q \<Longrightarrow> p \<le> q \<and> q < length js"
proof (induction js p rule: str_scan.induct)
  case (1 js p)
  show ?case
    using "1.prems" "1.IH" hex_run_mono [of js 4 "p + 2"]
    by (subst (asm) (1) str_scan.simps) (fastforce split: if_splits option.splits)
qed

lemma alloc_pos:
  assumes "jsmn_alloc_token p toks num = Ok (Some (i, p1, toks1))"
  shows "jp_pos p1 = jp_pos p" "jp_toksuper p1 = jp_toksuper p" "jp_toknext p1 = Suc (jp_toknext p)" "i = jp_toknext p"
  using assms by (auto simp: jsmn_alloc_token_def out_bind_Ok_iff split: if_splits)

lemma str_scan_err2: "str_scan js p = Inl e \<Longrightarrow> e \<in> {JSMN_ERROR_INVAL, JSMN_ERROR_PART}"
proof (induction js p rule: str_scan.induct)
  case (1 js p)
  show ?case
    using "1.prems" "1.IH"
    by (subst (asm) (1) str_scan.simps) (auto split: if_splits option.splits)
qed

lemma str_scan_err: "str_scan js p = Inl e \<Longrightarrow> e < 0"
  using str_scan_err2 [of js p e] by (auto simp: jsmn_errs)

lemma parse_string_pos:
  assumes "jsmn_parse_string p js tokens num = Ok (r, p', tokens')" "\<not> r < 0"
  shows "jp_pos p < jp_pos p' \<and> jp_pos p' < length js"
  using assms str_scan_bounds [of js "jp_pos p + 1"] str_scan_err [of js "jp_pos p + 1"]
  by (auto simp: jsmn_parse_string_def Let_def out_bind_Ok_iff jsmn_errs split: sum.splits option.splits)

lemma parse_primitive_pos:
  assumes "jsmn_parse_primitive p js tokens num = Ok (r, p', tokens')" "\<not> r < 0"
    "jp_pos p < length js" "js ! jp_pos p \<noteq> 0" "js ! jp_pos p \<notin> prim_stop"
  shows "jp_pos p \<le> jp_pos p' \<and> jp_pos p' < length js"
  using assms prim_scan_item [of js "jp_pos p"]
  by (auto simp: jsmn_parse_primitive_def Let_def out_bind_Ok_iff jsmn_errs pos_dec_def
      split: sum.splits option.splits)

lemma item_pos:
  assumes "jsmn_item r count = Ok (Inr (p', tokens', count'))"
  obtains ret tokens where "r = Ok (ret, p', tokens)" "\<not> ret < 0"
  using assms by (auto simp: jsmn_item_def out_bind_Ok_iff split: if_splits option.splits)

lemma open_pos: "jsmn_open c num p toks count = Ok (Inr (p', tokens', count')) \<Longrightarrow> jp_pos p' = jp_pos p"
  by (auto simp: jsmn_open_def out_bind_Ok_iff alloc_pos(1) split: option.splits)

lemma close_pos:
  assumes "jsmn_close c p toks count = Ok (Inr (p', tokens', count'))"
  shows "jp_pos p' = jp_pos p"
proof -
  from assms obtain i where "find_open toks (jp_toknext p) = Ok (Some i)"
    by (auto simp: jsmn_close_def Let_def out_bind_Ok_iff split: option.splits)
  with assms show ?thesis
    by (auto simp: jsmn_close_def Let_def out_bind_Ok_iff simp del: find_open.simps split: if_splits)
qed

lemma comma_pos: "jsmn_comma p toks count = Ok (Inr (p', tokens', count')) \<Longrightarrow> jp_pos p' = jp_pos p"
  by (auto simp: jsmn_comma_def out_bind_Ok_iff split: if_splits option.splits)

lemma jsmn_step_pos:
  assumes "jsmn_step js num p tokens count = Ok (Inr (p', tokens', count'))"
    "jp_pos p < length js" "js ! jp_pos p \<noteq> 0"
  shows "jp_pos p \<le> jp_pos p' \<and> jp_pos p' < length js"
proof -
  let ?c = "js ! jp_pos p"
  consider (open_) "?c \<in> {ch_lbrace, ch_lbrk}" | (close) "?c \<in> {ch_rbrace, ch_rbrk}" | (quote) "?c = ch_quote"
    | (sp) "?c \<in> {ch_tab, ch_cr, ch_nl, ch_sp, ch_colon}" | (comma) "?c = ch_comma"
    | (prim) "?c \<notin> {ch_lbrace, ch_lbrk, ch_rbrace, ch_rbrk, ch_quote, ch_tab, ch_cr, ch_nl, ch_sp, ch_colon, ch_comma}"
    by auto
  then show ?thesis
  proof cases
    case quote
    with assms(1) have "jsmn_item (jsmn_parse_string p js tokens num) count = Ok (Inr (p', tokens', count'))"
      by (simp add: jsmn_step_def)
    from item_pos [OF this] parse_string_pos show ?thesis by (metis less_imp_le)
  next
    case prim
    with assms(1) have "jsmn_item (jsmn_parse_primitive p js tokens num) count = Ok (Inr (p', tokens', count'))"
      by (simp add: jsmn_step_def)
    from item_pos [OF this] parse_primitive_pos assms(2,3) prim show ?thesis
      unfolding prim_stop_def by (smt (verit, best) insert_iff empty_iff)
  qed (use assms in \<open>auto simp: jsmn_step_def open_pos close_pos comma_pos split: option.splits\<close>)
qed

function jsmn_loop :: "byte list \<Rightarrow> nat \<Rightarrow> jsmn_parser \<Rightarrow> jsmntok list option \<Rightarrow> int \<Rightarrow>
    (int \<times> jsmn_parser \<times> jsmntok list option) out" where
  "jsmn_loop js num p tokens count =
     (if jp_pos p < length js \<and> js ! jp_pos p \<noteq> 0 then
        (case jsmn_step js num p tokens count of
           Ok (Inl r) \<Rightarrow> Ok r
         | Ok (Inr (p', tokens', count')) \<Rightarrow>
             jsmn_loop js num (p'\<lparr>jp_pos := jp_pos p' + 1\<rparr>) tokens' count'
         | Exit \<Rightarrow> Exit | Crash \<Rightarrow> Crash | Hang \<Rightarrow> Hang)
      else
        (case tokens of
           None \<Rightarrow> Ok (count, p, None)
         | Some toks \<Rightarrow> out_bind (find_open toks (jp_toknext p)) (\<lambda>r.
             Ok (if r = None then count else JSMN_ERROR_PART, p, tokens))))"
  by pat_completeness auto
termination
proof (relation "measure (\<lambda>(js, num, p, tokens, count). length js - jp_pos p)", goal_cases)
  case (2 js num p tokens count x b p' y tokens' count')
  with jsmn_step_pos [of js num p tokens count p' tokens' count'] show ?case by auto
qed simp

declare jsmn_loop.simps [simp del]

definition jsmn_parse :: "jsmn_parser \<Rightarrow> byte list \<Rightarrow> jsmntok list option \<Rightarrow> nat \<Rightarrow>
    (int \<times> jsmn_parser \<times> jsmntok list option) out" where
  "jsmn_parse p js tokens num = jsmn_loop js num p tokens (int (jp_toknext p))"

subsection \<open>What each case does\<close>

text \<open>
  Closed forms of the array operations on an array in use: \<open>last_such\<close> is the search from the
  last token downwards, \<open>inc_super\<close> the increment of the superior token's size.
\<close>

definition last_such :: "(jsmntok \<Rightarrow> bool) \<Rightarrow> jsmntok list \<Rightarrow> nat option" where
  "last_such P ts = find (\<lambda>i. P (ts ! i)) (rev [0..<length ts])"

definition is_cont :: "jsmntok \<Rightarrow> bool" where
  "is_cont t \<longleftrightarrow> tk_type t \<in> {JSMN_ARRAY, JSMN_OBJECT}"

definition inc_super :: "int \<Rightarrow> jsmntok list \<Rightarrow> jsmntok list" where
  "inc_super s ts = (if s = - 1 then ts else ts[nat s := (ts ! nat s)\<lparr>tk_size := tk_size (ts ! nat s) + 1\<rparr>])"

definition mk_tok :: "jsmntype \<Rightarrow> int \<Rightarrow> int \<Rightarrow> jsmntok" where
  "mk_tok ty st en = \<lparr>tk_type = ty, tk_start = st, tk_end = en, tk_size = 0\<rparr>"

lemma tok_filled [simp]:
  "t\<lparr>tk_end := e, tk_size := z, tk_type := ty, tk_start := st\<rparr> = \<lparr>tk_type = ty, tk_start = st, tk_end = e, tk_size = z\<rparr>"
  "t\<lparr>tk_type := ty, tk_start := st, tk_end := e, tk_size := z\<rparr> = \<lparr>tk_type = ty, tk_start = st, tk_end = e, tk_size = z\<rparr>"
  by simp_all

definition idx_of :: "int \<Rightarrow> nat option \<Rightarrow> int" where
  "idx_of d r = (case r of Some i \<Rightarrow> int i | None \<Rightarrow> d)"

lemma last_such_Nil [simp]: "last_such P [] = None"
  by (simp add: last_such_def)

lemma last_such_snoc: "last_such P (ts @ [t]) = (if P t then Some (length ts) else last_such P ts)"
proof -
  have "find (\<lambda>i. P ((ts @ [t]) ! i)) (rev [0..<length ts]) = find (\<lambda>i. P (ts ! i)) (rev [0..<length ts])"
    by (rule find_cong) (auto simp: nth_append)
  then show ?thesis by (simp add: last_such_def)
qed

lemma last_such_SomeD:
  assumes "last_such P ts = Some i"
  shows "i < length ts" "P (ts ! i)"
  using assms by (auto simp: last_such_def find_Some_iff rev_nth)

lemma last_such_None_iff: "last_such P ts = None \<longleftrightarrow> (\<forall>i < length ts. \<not> P (ts ! i))"
  by (auto simp: last_such_def find_None_iff)

lemma find_open_last: "n \<le> length toks \<Longrightarrow> find_open toks n = Ok (last_such is_open (take n toks))"
  by (induction n) (auto simp: take_Suc_conv_app_nth last_such_snoc)

lemma find_super_last:
  "n \<le> length toks \<Longrightarrow> find_super toks n = Ok (last_such (\<lambda>t. is_cont t \<and> is_open t) (take n toks))"
  by (induction n) (auto simp: take_Suc_conv_app_nth last_such_snoc is_cont_def)

lemma length_inc_super [simp]: "length (inc_super s ts) = length ts"
  by (simp add: inc_super_def)

lemma nth_inc_super: "int i \<noteq> s \<Longrightarrow> - 1 \<le> s \<Longrightarrow> inc_super s ts ! i = ts ! i"
  by (auto simp: inc_super_def nth_list_update)

text \<open>The parser's indices are those of an array in use.\<close>

definition in_use :: "nat \<Rightarrow> jsmn_parser \<Rightarrow> jsmntok list \<Rightarrow> bool" where
  "in_use num p toks \<longleftrightarrow> jp_toknext p \<le> num \<and> num \<le> length toks \<and>
     - 1 \<le> jp_toksuper p \<and> jp_toksuper p < int (jp_toknext p)"

lemma size_inc_eq:
  "- 1 \<le> s \<Longrightarrow> s < int (length toks) \<Longrightarrow> (if s \<noteq> - 1 then size_inc toks s else Ok toks) = Ok (inc_super s toks)"
  by (auto simp: size_inc_def tok_upd_def inc_super_def)

lemma alloc_eq:
  assumes "in_use num p toks"
  shows "jsmn_alloc_token p toks num = Ok (if jp_toknext p = num then None
    else Some (jp_toknext p, p\<lparr>jp_toknext := jp_toknext p + 1\<rparr>,
      toks[jp_toknext p := (toks ! jp_toknext p)\<lparr>tk_start := - 1, tk_end := - 1, tk_size := 0\<rparr>]))"
  using assms by (auto simp: in_use_def jsmn_alloc_token_def tok_upd_def)

lemma open_eq:
  assumes "in_use num p toks"
  shows "jsmn_open c num p toks count = Ok (if jp_toknext p = num then Inl (JSMN_ERROR_NOMEM, p, Some toks)
    else Inr (p\<lparr>jp_toknext := jp_toknext p + 1, jp_toksuper := int (jp_toknext p)\<rparr>,
      Some ((inc_super (jp_toksuper p) toks)[jp_toknext p :=
        mk_tok (if c = ch_lbrace then JSMN_OBJECT else JSMN_ARRAY) (int (jp_pos p)) (- 1)]), count + 1))"
proof (cases "jp_toknext p = num")
  case True
  then show ?thesis using alloc_eq [OF assms] by (simp add: jsmn_open_def)
next
  case False
  let ?n = "jp_toknext p" and ?ty = "if c = ch_lbrace then JSMN_OBJECT else JSMN_ARRAY"
  let ?p = "p\<lparr>jp_toknext := ?n + 1\<rparr>"
  let ?toks1 = "toks[?n := (toks ! ?n)\<lparr>tk_start := - 1, tk_end := - 1, tk_size := 0\<rparr>]"
  have i: "- 1 \<le> jp_toksuper p" "jp_toksuper p < int ?n" "?n < length toks"
    using assms False by (auto simp: in_use_def)
  have sz: "(if jp_toksuper ?p \<noteq> - 1 then size_inc ?toks1 (jp_toksuper ?p) else Ok ?toks1) =
      Ok (inc_super (jp_toksuper p) ?toks1)"
    using size_inc_eq [of "jp_toksuper ?p" ?toks1] i by simp
  have "inc_super (jp_toksuper p) ?toks1 ! ?n = (toks ! ?n)\<lparr>tk_start := - 1, tk_end := - 1, tk_size := 0\<rparr>"
    using i by (simp add: nth_inc_super)
  moreover have "(inc_super (jp_toksuper p) ?toks1)[?n := x] = (inc_super (jp_toksuper p) toks)[?n := x]" for x
    using i by (auto simp: inc_super_def list_update_swap)
  ultimately show ?thesis
    using alloc_eq [OF assms] False i sz
    unfolding jsmn_open_def by (simp only: out_bind.simps option.case prod.case if_False)
      (simp add: tok_upd_def mk_tok_def)
qed

lemma close_eq:
  assumes "in_use num p toks"
  shows "jsmn_close c p toks count = Ok (
    case last_such is_open (take (jp_toknext p) toks) of
      None \<Rightarrow> Inl (JSMN_ERROR_INVAL, p, Some toks)
    | Some i \<Rightarrow>
        if tk_type (toks ! i) \<noteq> (if c = ch_rbrace then JSMN_OBJECT else JSMN_ARRAY)
        then Inl (JSMN_ERROR_INVAL, p, Some toks)
        else Inr (p\<lparr>jp_toksuper := idx_of (- 1) (last_such is_open (take i toks))\<rparr>,
          Some (toks[i := (toks ! i)\<lparr>tk_end := int (jp_pos p) + 1\<rparr>]), count))"
proof -
  have n: "jp_toknext p \<le> length toks" using assms by (simp add: in_use_def)
  show ?thesis
  proof (cases "last_such is_open (take (jp_toknext p) toks)")
    case None
    then show ?thesis using find_open_last [OF n] by (simp add: jsmn_close_def Let_def)
  next
    case (Some i)
    then have i: "i < jp_toknext p" using last_such_SomeD(1) [OF Some] by simp
    let ?toks1 = "toks[i := (toks ! i)\<lparr>tk_end := int (jp_pos p) + 1\<rparr>]"
    have "find_open ?toks1 (Suc i) = Ok (last_such is_open (take i ?toks1))"
      using i n find_open_last [of i ?toks1] by (simp add: is_open_def)
    then show ?thesis
      unfolding jsmn_close_def Let_def using find_open_last [OF n] Some i n
      by (simp add: tok_upd_def idx_of_def del: find_open.simps)
  qed
qed

lemma comma_eq:
  assumes "in_use num p toks"
  shows "jsmn_comma p toks count = Ok (Inr (p\<lparr>jp_toksuper :=
      if jp_toksuper p \<noteq> - 1 \<and> \<not> is_cont (toks ! nat (jp_toksuper p))
      then idx_of (jp_toksuper p) (last_such (\<lambda>t. is_cont t \<and> is_open t) (take (jp_toknext p) toks))
      else jp_toksuper p\<rparr>, Some toks, count))"
proof (cases "jp_toksuper p = - 1")
  case True
  then show ?thesis by (simp add: jsmn_comma_def)
next
  case False
  have n: "jp_toknext p \<le> length toks" using assms by (auto simp: in_use_def)
  have "type_at toks (jp_toksuper p) = Ok (tk_type (toks ! nat (jp_toksuper p)))"
    using assms False by (auto simp: type_at_def in_use_def)
  then show ?thesis
    using find_super_last [OF n] False unfolding jsmn_comma_def is_cont_def [of "toks ! nat (jp_toksuper p)"]
    by (auto simp: idx_of_def split: option.splits)
qed

text \<open>An item is put into the next slot.\<close>

definition put_item :: "nat \<Rightarrow> nat \<Rightarrow> jsmntok \<Rightarrow> jsmn_parser \<Rightarrow> jsmntok list \<Rightarrow> int \<Rightarrow> jsmn_res" where
  "put_item num q t p toks count =
     (if jp_toknext p = num then Inl (JSMN_ERROR_NOMEM, p, Some toks)
      else Inr (p\<lparr>jp_toknext := jp_toknext p + 1, jp_pos := q\<rparr>,
        Some (inc_super (jp_toksuper p) (toks[jp_toknext p := t])), count + 1))"

lemma item_err [simp]: "e < 0 \<Longrightarrow> jsmn_item (Ok (e, p, t)) count = Ok (Inl (e, p, t))"
  by (simp add: jsmn_item_def)

lemma item_eq:
  assumes "in_use num p toks" "jp_toknext p \<noteq> num"
  shows "jsmn_item (Ok (0, p\<lparr>jp_toknext := jp_toknext p + 1, jp_pos := q\<rparr>, Some (toks[jp_toknext p := t]))) count =
    Ok (put_item num q t p toks count)"
  using assms size_inc_eq [of "jp_toksuper p" "toks[jp_toknext p := t]"]
  by (auto simp: jsmn_item_def put_item_def in_use_def split: if_splits)

lemma string_eq:
  assumes "in_use num p toks"
  shows "jsmn_item (jsmn_parse_string p js (Some toks) num) count = Ok (
    case str_scan js (jp_pos p + 1) of
      Inl e \<Rightarrow> Inl (e, p, Some toks)
    | Inr q \<Rightarrow> put_item num q (mk_tok JSMN_STRING (int (jp_pos p) + 1) (int q)) p toks count)"
proof (cases "str_scan js (jp_pos p + 1)")
  case (Inl e)
  with str_scan_err [OF Inl] show ?thesis by (simp add: jsmn_parse_string_def)
next
  case (Inr q)
  then show ?thesis
    using alloc_eq [OF assms] item_eq [OF assms, of q "mk_tok JSMN_STRING (int (jp_pos p) + 1) (int q)"] assms
    by (auto simp: jsmn_parse_string_def tok_upd_def jsmn_fill_token_def mk_tok_def in_use_def put_item_def jsmn_errs)
qed

lemma prim_eq:
  assumes "in_use num p toks" "jp_pos p < length js" "js ! jp_pos p \<noteq> 0" "js ! jp_pos p \<notin> prim_stop"
  shows "jsmn_item (jsmn_parse_primitive p js (Some toks) num) count = Ok (
    case prim_scan js (jp_pos p) of
      None \<Rightarrow> Inl (JSMN_ERROR_INVAL, p, Some toks)
    | Some q \<Rightarrow> put_item num (q - 1) (mk_tok JSMN_PRIMITIVE (int (jp_pos p)) (int q)) p toks count)"
proof (cases "prim_scan js (jp_pos p)")
  case None
  then show ?thesis by (simp add: jsmn_parse_primitive_def jsmn_errs)
next
  case (Some q)
  have "0 < q" using prim_scan_item [OF Some assms(2-4)] by simp
  then show ?thesis
    using Some alloc_eq [OF assms(1)] item_eq [OF assms(1), of "q - 1" "mk_tok JSMN_PRIMITIVE (int (jp_pos p)) (int q)"] assms(1)
    by (auto simp: jsmn_parse_primitive_def tok_upd_def jsmn_fill_token_def mk_tok_def in_use_def pos_dec_def put_item_def jsmn_errs)
qed

end
