(* ===== verification/Json_Escape.thy ===== *)
theory Json_Escape
  imports Jsmn
begin

text \<open>
  The string functions of shared/json/jstree.c: \<open>jstree_string_encode\<close> and \<open>jstree_string_decode\<close>. A
  buffer is an optional list of bytes (the null pointer asks for the length only); a store outside
  it is \<open>Crash\<close>. A string is the list of its bytes without the terminating zero. The reference is
  \<open>esc_of\<close> and \<open>dec_ref\<close>.
\<close>

subsection \<open>Escaping\<close>

definition poke :: "byte list option \<Rightarrow> nat \<Rightarrow> byte \<Rightarrow> byte list option out" where
  "poke out i c =
     (case out of
        None \<Rightarrow> Crash
      | Some b \<Rightarrow> if i < length b then Ok (Some (b[i := c])) else Crash)"

text \<open>The test \<^verbatim>\<open>out && outlen\<close>.\<close>

definition has_out :: "byte list option \<Rightarrow> int \<Rightarrow> bool" where
  "has_out out outlen \<longleftrightarrow> out \<noteq> None \<and> outlen \<noteq> 0"

definition put_if :: "bool \<Rightarrow> byte list option \<Rightarrow> nat \<Rightarrow> byte \<Rightarrow> byte list option out" where
  "put_if c out i x = (if c then poke out i x else Ok out)"

text \<open>The loop over the string and its terminating zero; the second argument is \<open>ptr\<close>.\<close>

fun encode_loop :: "byte list option \<Rightarrow> nat \<Rightarrow> int \<Rightarrow> byte list \<Rightarrow> (int \<times> byte list option) out" where
  "encode_loop out ptr outlen [] = Ok (int ptr - 1, out)"
| "encode_loop out ptr outlen (c # cs) =
     (let esc = (c = ch_bslash \<or> c = ch_quote) in
      out_bind (put_if (esc \<and> has_out out outlen) out ptr ch_bslash) (\<lambda>out1.
      let ptr1 = (if esc then ptr + 1 else ptr) in
      if esc \<and> has_out out outlen \<and> int ptr1 \<ge> outlen then Ok (- 1, out1)
      else out_bind (put_if (has_out out outlen) out1 ptr1 c) (\<lambda>out2.
        if has_out out outlen \<and> int ptr1 + 1 \<ge> outlen then Ok (- 1, out2)
        else encode_loop out2 (ptr1 + 1) outlen cs)))"

definition jstree_string_encode :: "byte list option \<Rightarrow> int \<Rightarrow> byte list \<Rightarrow> (int \<times> byte list option) out" where
  "jstree_string_encode out outlen data = encode_loop out 0 outlen (data @ [0])"

definition c_hex :: "byte \<Rightarrow> u16" where
  "c_hex c =
     (if 48 \<le> c \<and> c \<le> 57 then ucast (c - 48)
      else if 97 \<le> c \<and> c \<le> 102 then 10 + ucast (c - 97)
      else if 65 \<le> c \<and> c \<le> 70 then 10 + ucast (c - 65)
      else 0)"

text \<open>The bytes an escape \<^verbatim>\<open>\uXXXX\<close> stands for; the code's branch for values above 0xFFFF cannot be reached.\<close>

definition utf8 :: "u16 \<Rightarrow> byte list" where
  "utf8 t =
     (if t < 0x80 then [ucast t]
      else if t < 0x800 then [0xc0 OR ucast (drop_bit 6 (t AND 0x7c0)), 0x80 OR ucast (t AND 0x3f)]
      else [0xe0 OR ucast (drop_bit 12 (t AND 0xf000)), 0x80 OR ucast (drop_bit 6 (t AND 0xfc0)),
            0x80 OR ucast (t AND 0x3f)])"

definition simple_esc :: "byte \<Rightarrow> byte option" where
  "simple_esc c =
     (if c = ch_bslash \<or> c = ch_quote then Some c
      else if c = 116 then Some ch_tab
      else if c = 114 then Some ch_cr
      else if c = 110 then Some ch_nl
      else if c = 98 then Some 8
      else if c = 102 then Some 12
      else None)"

text \<open>
  The stores of one escape: they are made only if the last of them is inside \<open>outlen\<close>.
\<close>

fun poke_all :: "byte list option \<Rightarrow> nat \<Rightarrow> byte list \<Rightarrow> byte list option out" where
  "poke_all out i [] = Ok out"
| "poke_all out i (x # xs) = out_bind (poke out i x) (\<lambda>out1. poke_all out1 (i + 1) xs)"

definition put_esc :: "byte list option \<Rightarrow> nat \<Rightarrow> int \<Rightarrow> byte list \<Rightarrow> byte list option out" where
  "put_esc out ptr outlen xs =
     (if has_out out outlen \<and> int ptr + int (length xs) - 1 < outlen then poke_all out ptr xs else Ok out)"

text \<open>The loop; the last argument is the rest of the string with its terminating zero.\<close>

function decode_loop :: "byte list option \<Rightarrow> nat \<Rightarrow> int \<Rightarrow> byte list \<Rightarrow> (int \<times> byte list option) out" where
  "decode_loop out ptr outlen xs =
     (case xs of
        [] \<Rightarrow> Ok (int ptr - 1, out)
      | c # cs \<Rightarrow>
          if c \<noteq> ch_bslash then
            (case put_if (has_out out outlen) out ptr c of
               Ok out1 \<Rightarrow> decode_loop out1 (ptr + 1) outlen cs
             | Exit \<Rightarrow> Exit | Crash \<Rightarrow> Crash | Hang \<Rightarrow> Hang)
          else if cs = [] then Ok (- 1, out)
          else (case simple_esc (hd cs) of
              Some e \<Rightarrow>
                (case put_esc out ptr outlen [e] of
                   Ok out1 \<Rightarrow> decode_loop out1 (ptr + 1) outlen (tl cs)
                 | Exit \<Rightarrow> Exit | Crash \<Rightarrow> Crash | Hang \<Rightarrow> Hang)
            | None \<Rightarrow>
                if hd cs = 117 then
                  if length xs \<le> 5 then Ok (- 1, out)
                  else let t = utf8 (push_bit 12 (c_hex (xs ! 2)) + push_bit 8 (c_hex (xs ! 3)) +
                                     push_bit 4 (c_hex (xs ! 4)) + c_hex (xs ! 5))
                       in (case put_esc out ptr outlen t of
                             Ok out1 \<Rightarrow> decode_loop out1 (ptr + length t) outlen (drop 6 xs)
                           | Exit \<Rightarrow> Exit | Crash \<Rightarrow> Crash | Hang \<Rightarrow> Hang)
                else Ok (- 1, out)))"
  by pat_completeness auto
termination
  by (relation "measure (\<lambda>(out, ptr, outlen, xs). length xs)") (auto simp: neq_Nil_conv)

declare decode_loop.simps [simp del]

definition jstree_string_decode :: "byte list option \<Rightarrow> int \<Rightarrow> byte list \<Rightarrow> (int \<times> byte list option) out" where
  "jstree_string_decode out outlen data = decode_loop out 0 outlen (data @ [0])"

subsection \<open>Escaping: reference and properties\<close>

definition esc_of :: "byte \<Rightarrow> byte list" where
  "esc_of c = (if c = ch_bslash \<or> c = ch_quote then [ch_bslash, c] else [c])"

text \<open>The reference decoder: the bytes a string with its terminating zero stands for, if it is well formed.\<close>

function dec_ref :: "byte list \<Rightarrow> byte list option" where
  "dec_ref xs =
     (case xs of
        [] \<Rightarrow> Some []
      | c # cs \<Rightarrow>
          if c \<noteq> ch_bslash then map_option ((#) c) (dec_ref cs)
          else if cs = [] then None
          else (case simple_esc (hd cs) of
              Some e \<Rightarrow> map_option ((#) e) (dec_ref (tl cs))
            | None \<Rightarrow>
                if hd cs = 117 \<and> length xs > 5 then
                  map_option ((@) (utf8 (push_bit 12 (c_hex (xs ! 2)) + push_bit 8 (c_hex (xs ! 3)) +
                    push_bit 4 (c_hex (xs ! 4)) + c_hex (xs ! 5)))) (dec_ref (drop 6 xs))
                else None))"
  by pat_completeness auto
termination
  by (relation "measure length") (auto simp: neq_Nil_conv)

declare dec_ref.simps [simp del]

lemma dec_ref_simps:
  "dec_ref [] = Some []"
  "c \<noteq> ch_bslash \<Longrightarrow> dec_ref (c # cs) = map_option ((#) c) (dec_ref cs)"
  "simple_esc e = Some x \<Longrightarrow> dec_ref (ch_bslash # e # cs) = map_option ((#) x) (dec_ref cs)"
  by (simp_all add: dec_ref.simps)

lemma dec_ref_esc: "dec_ref (concat (map esc_of s) @ [0]) = Some (s @ [0])"
  by (induction s) (auto simp: esc_of_def dec_ref_simps simple_esc_def)

lemma poke_eq: "i < length b \<Longrightarrow> poke (Some b) i x = Ok (Some (put_bytes i [x] b))"
  by (simp add: poke_def put_bytes_def upd_conv_take_nth_drop)

lemma poke_all_eq: "i + length xs \<le> length b \<Longrightarrow> poke_all (Some b) i xs = Ok (Some (put_bytes i xs b))"
proof (induction xs arbitrary: i b)
  case Nil
  then show ?case by simp
next
  case (Cons x xs)
  have "put_bytes (Suc i) xs (b[i := x]) = put_bytes i (x # xs) b"
    using Cons.prems by (simp add: put_bytes_def upd_conv_take_nth_drop take_Suc_conv_app_nth ac_simps)
  with Cons.IH [of "Suc i" "b[i := x]"] Cons.prems show ?case by (simp add: poke_def)
qed

lemma put_split: "i + length xs + length ys \<le> length b \<Longrightarrow>
    put_bytes (i + length xs) ys (put_bytes i xs b) = put_bytes i (xs @ ys) b"
  by (simp add: put_bytes_def ac_simps)

text \<open>Sizing: without a buffer the decoder returns the length of the result.\<close>

lemma decode_size:
  "decode_loop None ptr outlen xs =
    Ok (case dec_ref xs of Some ys \<Rightarrow> int ptr + int (length ys) - 1 | None \<Rightarrow> - 1, None)"
proof (induction xs arbitrary: ptr rule: dec_ref.induct)
  case (1 xs)
  show ?case
  proof (cases xs)
    case Nil
    then show ?thesis by (simp add: decode_loop.simps [of _ _ _ "[]"] dec_ref_simps)
  next
    case (Cons c cs)
    note xs = Cons and dl = decode_loop.simps [of None ptr outlen "c # cs"] and dr = dec_ref.simps [of "c # cs"]
    have no: "\<not> has_out None outlen" by (simp add: has_out_def)
    show ?thesis
    proof (cases "c = ch_bslash \<and> cs \<noteq> []")
      case False
      then show ?thesis
        using 1(1) [OF xs, of "ptr + 1"] no unfolding xs dl dr
        by (cases "c = ch_bslash") (simp_all add: put_if_def split: option.splits)
    next
      case True
      show ?thesis
      proof (cases "simple_esc (hd cs)")
        case (Some e)
        then show ?thesis
          using 1(3) [OF xs _ _ Some, of "ptr + 1"] True no unfolding xs dl dr
          by (simp add: put_esc_def split: option.splits)
      next
        case None
        show ?thesis
        proof (cases "hd cs = 117 \<and> length xs > 5")
          case True2: True
          show ?thesis
            using 1(2) [OF xs _ _ None True2] True None True2 no unfolding xs dl dr
            by (simp add: put_esc_def Let_def split: option.splits)
        next
          case False
          then show ?thesis using True None unfolding xs dl dr by auto
        qed
      qed
    qed
  qed
qed

lemma decode_fill:
  assumes "dec_ref xs = Some ys" "ptr + length ys \<le> length b" "outlen = int (length b)"
  shows "decode_loop (Some b) ptr outlen xs = Ok (int ptr + int (length ys) - 1, Some (put_bytes ptr ys b))"
  using assms
proof (induction xs arbitrary: ptr b ys rule: dec_ref.induct)
  case (1 xs)
  show ?case
  proof (cases xs)
    case Nil
    with "1.prems"(1) show ?thesis by (simp add: decode_loop.simps [of _ _ _ "[]"] dec_ref_simps)
  next
    case (Cons c cs)
    note xs = Cons
    let ?u = "utf8 (push_bit 12 (c_hex (xs ! 2)) + push_bit 8 (c_hex (xs ! 3)) + push_bit 4 (c_hex (xs ! 4)) + c_hex (xs ! 5))"
    consider (plain) ts where "c \<noteq> ch_bslash" "dec_ref cs = Some ts" "ys = c # ts"
      | (simple) e ts where "c = ch_bslash" "cs \<noteq> []" "simple_esc (hd cs) = Some e" "dec_ref (tl cs) = Some ts" "ys = e # ts"
      | (uni) ts where "c = ch_bslash" "cs \<noteq> []" "simple_esc (hd cs) = None" "hd cs = 117" "\<not> length xs \<le> 5"
          "dec_ref (drop 6 xs) = Some ts" "ys = ?u @ ts"
      using "1.prems"(1) unfolding xs by (subst (asm) dec_ref.simps) (auto split: if_splits option.splits)
    then show ?thesis
    proof cases
      case plain
      then have b: "put_if (has_out (Some b) outlen) (Some b) ptr c = Ok (Some (put_bytes ptr [c] b))"
        using "1.prems"(2,3) by (auto simp: put_if_def has_out_def poke_eq)
      have "decode_loop (Some (put_bytes ptr [c] b)) (ptr + 1) outlen cs =
          Ok (int (ptr + 1) + int (length ts) - 1, Some (put_bytes (ptr + 1) ts (put_bytes ptr [c] b)))"
        using plain "1.prems"(2,3) by (intro "1.IH"(1) [OF xs]) auto
      with plain b "1.prems"(2) put_split [of ptr "[c]" ts b] show ?thesis
        by (simp add: xs decode_loop.simps [of _ _ _ "c # cs"])
    next
      case simple
      then have b: "put_esc (Some b) ptr outlen [e] = Ok (Some (put_bytes ptr [e] b))"
        using "1.prems"(2,3) by (auto simp: put_esc_def has_out_def poke_eq)
      have "decode_loop (Some (put_bytes ptr [e] b)) (ptr + 1) outlen (tl cs) =
          Ok (int (ptr + 1) + int (length ts) - 1, Some (put_bytes (ptr + 1) ts (put_bytes ptr [e] b)))"
        using simple "1.prems"(2,3) by (intro "1.IH"(3) [OF xs]) auto
      with simple b "1.prems"(2) put_split [of ptr "[e]" ts b] show ?thesis
        unfolding xs by (subst decode_loop.simps) simp
    next
      case uni
      have "0 < length ?u" by (simp add: utf8_def)
      then have b: "put_esc (Some b) ptr outlen ?u = Ok (Some (put_bytes ptr ?u b))"
        using uni "1.prems"(2,3) poke_all_eq [of ptr ?u b] by (auto simp: put_esc_def has_out_def)
      have "decode_loop (Some (put_bytes ptr ?u b)) (ptr + length ?u) outlen (drop 6 xs) =
          Ok (int (ptr + length ?u) + int (length ts) - 1, Some (put_bytes (ptr + length ?u) ts (put_bytes ptr ?u b)))"
        using uni "1.prems"(2,3) by (intro "1.IH"(2) [OF xs]) auto
      with uni b "1.prems"(2) put_split [of ptr ?u ts b] show ?thesis
        unfolding xs by (subst decode_loop.simps) (simp add: Let_def)
    qed
  qed
qed

lemma encode_fill:
  assumes "ptr + length (concat (map esc_of cs)) < length b" "outlen = int (length b)"
  shows "encode_loop (Some b) ptr outlen cs =
    Ok (int ptr + int (length (concat (map esc_of cs))) - 1, Some (put_bytes ptr (concat (map esc_of cs)) b))"
  using assms
proof (induction cs arbitrary: ptr b)
  case Nil
  then show ?case by simp
next
  case (Cons c cs)
  let ?e = "esc_of c"
  have ho: "has_out (Some b) outlen" using Cons.prems by (auto simp: has_out_def)
  have "encode_loop (Some b) ptr outlen (c # cs) = encode_loop (Some (put_bytes ptr ?e b)) (ptr + length ?e) outlen cs"
  proof (cases "c = ch_bslash \<or> c = ch_quote")
    case True
    then have l: "ptr + 2 < length b" using Cons.prems(1) by (simp add: esc_of_def)
    then have "put_if True (Some b) ptr ch_bslash = Ok (Some (put_bytes ptr [ch_bslash] b))"
      "put_if True (Some (put_bytes ptr [ch_bslash] b)) (ptr + 1) c = Ok (Some (put_bytes ptr [ch_bslash, c] b))"
      using put_split [of ptr "[ch_bslash]" "[c]" b] by (simp_all add: put_if_def poke_eq)
    then show ?thesis using True ho l Cons.prems(2) by (simp add: esc_of_def)
  next
    case False
    then have l: "ptr + 1 < length b" using Cons.prems(1) by (simp add: esc_of_def)
    then have "put_if True (Some b) ptr c = Ok (Some (put_bytes ptr [c] b))" by (simp add: put_if_def poke_eq)
    moreover have "put_if False (Some b) ptr ch_bslash = Ok (Some b)" by (simp add: put_if_def)
    ultimately show ?thesis using False ho l Cons.prems(2) by (simp add: esc_of_def)
  qed
  also have "\<dots> = Ok (int (ptr + length ?e) + int (length (concat (map esc_of cs))) - 1,
      Some (put_bytes (ptr + length ?e) (concat (map esc_of cs)) (put_bytes ptr ?e b)))"
    using Cons.prems by (intro Cons.IH) simp_all
  also have "put_bytes (ptr + length ?e) (concat (map esc_of cs)) (put_bytes ptr ?e b) =
      put_bytes ptr (concat (map esc_of (c # cs))) b"
    using Cons.prems(1) by (subst put_split) auto
  finally show ?case by simp
qed

lemma encode_size:
  "encode_loop None ptr outlen cs = Ok (int ptr + int (length (concat (map esc_of cs))) - 1, None)"
  by (induction cs arbitrary: ptr) (auto simp: put_if_def has_out_def esc_of_def Let_def)

lemma encode_short:
  assumes "0 < outlen" "outlen = int (length b)" "ptr < length b" "length b \<le> ptr + length (concat (map esc_of cs))"
  shows "\<exists>b'. encode_loop (Some b) ptr outlen cs = Ok (- 1, Some b')"
  using assms
proof (induction cs arbitrary: ptr b)
  case Nil
  then show ?case by simp
next
  case (Cons c cs)
  have ho: "has_out (Some b) outlen" using Cons.prems by (auto simp: has_out_def)
  have len: "length (b[i := x]) = length b" for i x by simp
  show ?case
  proof (cases "ptr + length (esc_of c) < length b")
    case True
    let ?b = "if c = ch_bslash \<or> c = ch_quote then b[ptr := ch_bslash, ptr + 1 := c] else b[ptr := c]"
    have "encode_loop (Some b) ptr outlen (c # cs) = encode_loop (Some ?b) (ptr + length (esc_of c)) outlen cs"
      using ho True Cons.prems by (auto simp: esc_of_def put_if_def poke_def Let_def)
    moreover have "\<exists>b'. encode_loop (Some ?b) (ptr + length (esc_of c)) outlen cs = Ok (- 1, Some b')"
      by (rule Cons.IH) (use True Cons.prems in auto)
    ultimately show ?thesis by (simp only:)
  next
    case False
    then show ?thesis using ho Cons.prems by (auto simp: esc_of_def put_if_def poke_def Let_def split: if_splits)
  qed
qed

text \<open>
  C39. Escaping is undone by unescaping: encoding a string into a buffer that is large enough
  succeeds, needs exactly the length the sizing call reports (and one byte more than its
  terminating zero), and is refused, inside the buffer, otherwise; decoding the escaped text into
  a buffer of the size the sizing call reports gives the string back, with its terminating zero.
\<close>

theorem escape_roundtrip:
  assumes "e = concat (map esc_of s)"
  shows "jstree_string_encode None 0 s = Ok (int (length e), None) \<and>
    (length e + 1 < length b \<longrightarrow> jstree_string_encode (Some b) (int (length b)) s =
      Ok (int (length e), Some (e @ [0] @ drop (length e + 1) b))) \<and>
    (0 < length b \<and> length b \<le> length e + 1 \<longrightarrow>
      (\<exists>b'. jstree_string_encode (Some b) (int (length b)) s = Ok (- 1, Some b'))) \<and>
    jstree_string_decode None 0 e = Ok (int (length s), None) \<and>
    (length b = length s + 1 \<longrightarrow> jstree_string_decode (Some b) (int (length b)) e = Ok (int (length s), Some (s @ [0])))"
proof -
  have ee: "concat (map esc_of (s @ [0])) = e @ [0]" by (simp add: assms esc_of_def)
  have put: "put_bytes 0 (e @ [0]) b = e @ [0] @ drop (length e + 1) b" by (simp add: put_bytes_def)
  have d: "dec_ref (e @ [0]) = Some (s @ [0])" using dec_ref_esc [of s] assms by simp
  show ?thesis
    using encode_size [of 0 0 "s @ [0]"] encode_fill [of 0 "s @ [0]" b] encode_short [of "int (length b)" b 0 "s @ [0]"]
      decode_size [of 0 0 "e @ [0]"] decode_fill [OF d, of 0 b]
    unfolding jstree_string_encode_def jstree_string_decode_def ee put d
    by (auto simp: put_bytes_def)
qed

lemma escape_roundtrip_witness:
  "jstree_string_decode (Some [9, 9, 9, 9]) 4 [97, 92, 34, 92, 92] = Ok (3, Some [97, 34, 92, 0])"
  using escape_roundtrip [of "[97, 92, 34, 92, 92]" "[97, 34, 92]" "[9, 9, 9, 9]"] by (simp add: esc_of_def)

end
