(* ===== verification/Jstree.thy ===== *)
theory Jstree
  imports Json_Escape C_Text
begin

text \<open>
  shared/json/jstree.c and jstree.h: the tree built from the tokens, searching it, printing it and
  freeing it. A tree pointer is \<open>Null\<close> or a node with its type, its optional text and the two links:
  \<open>l\<close> to the next sibling, \<open>r\<close> to the first child (the value, for a key). No two pointers into a
  tree are equal, so that the tree is a value. The use of a null or indeterminate pointer and an
  access outside an array are \<open>Crash\<close>; memory allocation succeeds.
\<close>

subsection \<open>Nodes\<close>

datatype jnode = Null | Node (jn_type: jsmntype) (jn_data: "byte list option") (jn_l: jnode) (jn_r: jnode)

definition alloc_tree_node_type :: "jsmntype \<Rightarrow> jnode" where
  "alloc_tree_node_type ty = Node ty None Null Null"

definition alloc_tree_node_data :: "jsmntype \<Rightarrow> byte list option \<Rightarrow> jnode" where
  "alloc_tree_node_data ty data = Node ty data Null Null"

text \<open>The text is copied from the buffer \<open>js\<close> at an offset.\<close>

definition alloc_tree_node_len :: "jsmntype \<Rightarrow> byte list \<Rightarrow> int \<Rightarrow> int \<Rightarrow> jnode out" where
  "alloc_tree_node_len ty js st datalen =
     (if datalen < 0 then Ok (Node ty None Null Null)
      else if st < 0 \<or> st + datalen > int (length js) then Crash
      else Ok (Node ty (Some (take (nat datalen) (drop (nat st) js))) Null Null))"

subsection \<open>From tokens to the tree\<close>

lemma out_bind_cong [fundef_cong]:
  "r = r' \<Longrightarrow> (\<And>x. r' = Ok x \<Longrightarrow> f x = g x) \<Longrightarrow> out_bind r f = out_bind r' g"
  by (cases r') auto

text \<open>
  The result of js2tree: the number of tokens used and the node, None when the code leaves the
  pointer indeterminate. The loops over the members of an object and the elements of an array
  return the number of tokens used so far and the chain of nodes.
\<close>

function js2tree :: "byte list \<Rightarrow> jsmntok list \<Rightarrow> nat \<Rightarrow> int \<Rightarrow> (nat \<times> jnode option) out"
  and obj_loop :: "byte list \<Rightarrow> jsmntok list \<Rightarrow> nat \<Rightarrow> int \<Rightarrow> nat \<Rightarrow> nat \<Rightarrow> (nat \<times> jnode) out"
  and arr_loop :: "byte list \<Rightarrow> jsmntok list \<Rightarrow> nat \<Rightarrow> int \<Rightarrow> nat \<Rightarrow> nat \<Rightarrow> (nat \<times> jnode) out" where
  "js2tree js toks t count =
     (if count = 0 then Ok (0, None)
      else if t \<ge> length toks then Crash
      else case tk_type (toks ! t) of
        JSMN_PRIMITIVE \<Rightarrow> out_bind (alloc_tree_node_len JSMN_PRIMITIVE js (tk_start (toks ! t))
            (tk_end (toks ! t) - tk_start (toks ! t))) (\<lambda>n. Ok (1, Some n))
      | JSMN_STRING \<Rightarrow> out_bind (alloc_tree_node_len JSMN_STRING js (tk_start (toks ! t))
            (tk_end (toks ! t) - tk_start (toks ! t))) (\<lambda>n. Ok (1, Some n))
      | JSMN_OBJECT \<Rightarrow> out_bind (obj_loop js toks t count 0 0) (\<lambda>(j, ch).
            Ok (j + 1, Some (Node JSMN_OBJECT None Null ch)))
      | JSMN_ARRAY \<Rightarrow> out_bind (arr_loop js toks t count 0 0) (\<lambda>(j, ch).
            Ok (j + 1, Some (Node JSMN_ARRAY None Null ch)))
      | JSMN_UNDEFINED \<Rightarrow> Ok (0, None))"
| "obj_loop js toks t count i j =
     (if t \<ge> length toks then Crash
      else if int i < tk_size (toks ! t) then
        out_bind (js2tree js toks (t + 1 + j) (count - int j)) (\<lambda>(r1, k).
          case k of
            None \<Rightarrow> Crash
          | Some Null \<Rightarrow> Crash
          | Some (Node ty d l r) \<Rightarrow>
              out_bind (js2tree js toks (t + 1 + (j + r1)) (count - int (j + r1))) (\<lambda>(r2, v).
                case v of
                  None \<Rightarrow> Crash
                | Some v' \<Rightarrow>
                    out_bind (obj_loop js toks t count (i + 1) (j + r1 + r2)) (\<lambda>(j', rest).
                      Ok (j', Node ty d rest v'))))
      else Ok (j, Null))"
| "arr_loop js toks t count i j =
     (if t \<ge> length toks then Crash
      else if int i < tk_size (toks ! t) then
        out_bind (js2tree js toks (t + 1 + j) (count - int j)) (\<lambda>(r1, k).
          case k of
            None \<Rightarrow> Crash
          | Some Null \<Rightarrow> Crash
          | Some (Node ty d l r) \<Rightarrow>
              out_bind (arr_loop js toks t count (i + 1) (j + r1)) (\<lambda>(j', rest). Ok (j', Node ty d rest r)))
      else Ok (j, Null))"
  by pat_completeness auto
termination
  by (relation "inv_image (less_than <*lex*> less_than) (\<lambda>x. case x of
      Inl (js, toks, t, count) \<Rightarrow> (length toks - t, nat (tk_size (toks ! t)) + 1)
    | Inr (Inl (js, toks, t, count, i, j)) \<Rightarrow> (length toks - t, nat (tk_size (toks ! t) - int i))
    | Inr (Inr (js, toks, t, count, i, j)) \<Rightarrow> (length toks - t, nat (tk_size (toks ! t) - int i)))") auto

declare js2tree.simps [simp del] obj_loop.simps [simp del] arr_loop.simps [simp del]

subsection \<open>Searching\<close>

fun find_node :: "jnode \<Rightarrow> byte list \<Rightarrow> jnode out" where
  "find_node Null key = Crash"
| "find_node (Node ty d l r) key =
     (if d \<noteq> None \<and> ty \<in> {JSMN_PRIMITIVE, JSMN_STRING} \<and> the d = key then Ok (Node ty d l r)
      else if l = Null then Ok Null
      else find_node l key)"

fun next_node :: "jnode \<Rightarrow> nat \<Rightarrow> jnode out" where
  "next_node node 0 = Ok node"
| "next_node Null (Suc n) = Crash"
| "next_node (Node ty d l r) (Suc n) = (if l = Null then Ok Null else next_node l n)"

text \<open>\<^verbatim>\<open>*end_node(&tree) = x\<close>: the end of the chain of siblings is replaced.\<close>

fun end_node_set :: "jnode \<Rightarrow> jnode \<Rightarrow> jnode" where
  "end_node_set Null x = x"
| "end_node_set (Node ty d l r) x = Node ty d (end_node_set l x) r"

text \<open>
  \<^verbatim>\<open>snprintf(out + off, n, "%s", s)\<close>: at most \<open>n - 1\<close> bytes and a zero are stored, and the length of
  \<open>s\<close> is returned. A negative \<open>n\<close> is converted to a size no string reaches.
\<close>

definition snprintf_at :: "byte list option \<Rightarrow> nat \<Rightarrow> int \<Rightarrow> byte list \<Rightarrow> (nat \<times> byte list option) out" where
  "snprintf_at out off n s =
     (if n = 0 then Ok (length s, out)
      else out_bind (poke_all out off ((if n < 0 then s else take (nat n - 1) s) @ [0])) (\<lambda>out1. Ok (length s, out1)))"

definition get_node_string :: "jnode \<Rightarrow> byte list option \<Rightarrow> int \<Rightarrow> (nat \<times> byte list option) out" where
  "get_node_string node buf bufsize =
     (case node of
        Null \<Rightarrow> Crash
      | Node ty d l r \<Rightarrow> (case d of Some s \<Rightarrow> snprintf_at buf 0 bufsize s | None \<Rightarrow> Ok (0, buf)))"

subsection \<open>Printing\<close>

text \<open>
  A writer state is \<open>retlen\<close> with the buffer. \<open>off\<close> is where \<open>out\<close> points to in the buffer, which
  the null pointer ignores. A string or a primitive without text is \<open>Crash\<close>.
\<close>

definition tree2js_insert_string :: "byte list option \<Rightarrow> nat \<Rightarrow> int \<Rightarrow> byte list \<Rightarrow> (nat \<times> byte list option) out" where
  "tree2js_insert_string out off outlen s = snprintf_at out off (if out = None then 0 else outlen) s"

definition ins :: "nat \<Rightarrow> int \<Rightarrow> byte list \<Rightarrow> nat \<times> byte list option \<Rightarrow> (nat \<times> byte list option) out" where
  "ins off outlen s = (\<lambda>(retlen, out).
     out_bind (tree2js_insert_string out (off + retlen) (outlen - int retlen) s) (\<lambda>(slen, out1). Ok (retlen + slen, out1)))"

primrec ins_tabs :: "nat \<Rightarrow> int \<Rightarrow> nat \<Rightarrow> nat \<times> byte list option \<Rightarrow> (nat \<times> byte list option) out" where
  "ins_tabs off outlen 0 st = Ok st"
| "ins_tabs off outlen (Suc n) st = out_bind (ins off outlen [ch_tab] st) (ins_tabs off outlen n)"

text \<open>What _tree2js_insert_tree adds to \<open>retlen\<close>: nothing for a null pointer.\<close>

definition add_len :: "nat \<Rightarrow> nat \<times> byte list option \<Rightarrow> (nat \<times> byte list option) out" where
  "add_len retlen = (\<lambda>(slen, out). Ok (retlen + slen, out))"

function tree2js :: "jnode \<Rightarrow> byte list option \<Rightarrow> nat \<Rightarrow> int \<Rightarrow> nat \<Rightarrow> (nat \<times> byte list option) out"
  and tree2js_insert_tree :: "jnode \<Rightarrow> byte list option \<Rightarrow> nat \<Rightarrow> int \<Rightarrow> nat \<Rightarrow> (nat \<times> byte list option) out"
  and tree2js_walk_object :: "jnode \<Rightarrow> byte list option \<Rightarrow> nat \<Rightarrow> int \<Rightarrow> nat \<Rightarrow> (nat \<times> byte list option) out"
  and tree2js_walk_array :: "jnode \<Rightarrow> byte list option \<Rightarrow> nat \<Rightarrow> int \<Rightarrow> nat \<Rightarrow> (nat \<times> byte list option) out"
  and object_loop :: "jnode \<Rightarrow> nat \<Rightarrow> int \<Rightarrow> nat \<Rightarrow> nat \<times> byte list option \<Rightarrow> (nat \<times> byte list option) out"
  and array_loop :: "jnode \<Rightarrow> nat \<Rightarrow> int \<Rightarrow> nat \<Rightarrow> nat \<times> byte list option \<Rightarrow> (nat \<times> byte list option) out" where
  "tree2js tree out off outlen indent =
     (case tree of
        Null \<Rightarrow> Crash
      | Node ty d l r \<Rightarrow>
          (let outlen = (if out = None then 0 else outlen) in
           case ty of
             JSMN_STRING \<Rightarrow> (case d of Some s \<Rightarrow> snprintf_at out off outlen (ch_quote # s @ [ch_quote]) | None \<Rightarrow> Crash)
           | JSMN_PRIMITIVE \<Rightarrow> (case d of Some s \<Rightarrow> snprintf_at out off outlen s | None \<Rightarrow> Crash)
           | JSMN_OBJECT \<Rightarrow> tree2js_walk_object r out off outlen (indent + 1)
           | JSMN_ARRAY \<Rightarrow> tree2js_walk_array r out off outlen (indent + 1)
           | JSMN_UNDEFINED \<Rightarrow> Ok (0, out)))"
| "tree2js_insert_tree tree out off outlen indent =
     (if tree = Null then Ok (0, out) else tree2js tree out off outlen indent)"
| "tree2js_walk_object obj out off outlen indent =
     out_bind (ins off outlen [ch_lbrace, ch_nl] (0, out)) (\<lambda>st.
     out_bind (if obj = Null then Ok st else object_loop obj off outlen indent st) (\<lambda>st.
     out_bind (ins_tabs off outlen (indent - 1) st) (ins off outlen [ch_rbrace])))"
| "tree2js_walk_array arr out off outlen indent =
     out_bind (ins off outlen [ch_lbrk, ch_nl] (0, out)) (\<lambda>st.
     out_bind (if arr = Null then Ok st else array_loop arr off outlen indent st) (\<lambda>st.
     out_bind (ins_tabs off outlen (indent - 1) st) (ins off outlen [ch_rbrk])))"
| "object_loop node off outlen indent st =
     (case node of
        Null \<Rightarrow> Crash
      | Node ty d l r \<Rightarrow>
          out_bind (ins_tabs off outlen indent st) (\<lambda>(n, out).
          out_bind (out_bind (tree2js_insert_tree (Node ty d l r) out (off + n) (outlen - int n) indent) (add_len n)) (\<lambda>st.
          out_bind (ins off outlen [ch_colon] st) (\<lambda>(n, out).
          out_bind (out_bind (tree2js_insert_tree r out (off + n) (outlen - int n) indent) (add_len n)) (\<lambda>st.
          out_bind (if l \<noteq> Null then ins off outlen [ch_comma] st else Ok st) (\<lambda>st.
          out_bind (ins off outlen [ch_nl] st) (\<lambda>st.
            if l \<noteq> Null then object_loop l off outlen indent st else Ok st)))))))"
| "array_loop node off outlen indent st =
     (case node of
        Null \<Rightarrow> Crash
      | Node ty d l r \<Rightarrow>
          out_bind (ins_tabs off outlen indent st) (\<lambda>(n, out).
          out_bind (out_bind (tree2js_insert_tree (Node ty d l r) out (off + n) (outlen - int n) indent) (add_len n)) (\<lambda>st.
          out_bind (if l \<noteq> Null then ins off outlen [ch_comma] st else Ok st) (\<lambda>st.
          out_bind (ins off outlen [ch_nl] st) (\<lambda>st.
            if l \<noteq> Null then array_loop l off outlen indent st else Ok st)))))"
  by pat_completeness auto
termination
  by (relation "measure (\<lambda>x. case x of
      Inl (Inl (t, _)) \<Rightarrow> 4 * size t
    | Inl (Inr (Inl (t, _))) \<Rightarrow> 4 * size t + 1
    | Inl (Inr (Inr (t, _))) \<Rightarrow> 4 * size t + 3
    | Inr (Inl (t, _)) \<Rightarrow> 4 * size t + 3
    | Inr (Inr (Inl (t, _))) \<Rightarrow> 4 * size t + 2
    | Inr (Inr (Inr (t, _))) \<Rightarrow> 4 * size t + 2)") auto

declare tree2js.simps [simp del] tree2js_insert_tree.simps [simp del]
  tree2js_walk_object.simps [simp del] tree2js_walk_array.simps [simp del] object_loop.simps [simp del] array_loop.simps [simp del]

definition tree2json :: "jnode \<Rightarrow> byte list option \<Rightarrow> int \<Rightarrow> (nat \<times> byte list option) out" where
  "tree2json tree buf bufsize = out_bind (tree2js tree buf 0 bufsize 0) (\<lambda>(ret, buf1).
     Ok (if buf = None then ret + 1 else ret, buf1))"

text \<open>
  dumptree prints to the standard output: the number of nodes and what is printed.
\<close>

function dumptree :: "jnode \<Rightarrow> nat \<Rightarrow> (nat \<times> byte list) out"
  and dump_members :: "jnode \<Rightarrow> nat \<Rightarrow> (nat \<times> byte list) out"
  and dump_elements :: "jnode \<Rightarrow> nat \<Rightarrow> (nat \<times> byte list) out" where
  "dumptree tree indent =
     (case tree of
        Null \<Rightarrow> Ok (0, [])
      | Node ty d l r \<Rightarrow>
          (case ty of
             JSMN_PRIMITIVE \<Rightarrow> (case d of Some s \<Rightarrow> Ok (1, s) | None \<Rightarrow> Crash)
           | JSMN_STRING \<Rightarrow> (case d of Some s \<Rightarrow> Ok (1, ch_quote # s @ [ch_quote]) | None \<Rightarrow> Crash)
           | JSMN_OBJECT \<Rightarrow> out_bind (dump_members r indent) (\<lambda>(j, s).
               Ok (j + 1, [ch_lbrace, ch_nl] @ s @ replicate indent ch_sp @ [ch_rbrace]))
           | JSMN_ARRAY \<Rightarrow> out_bind (dump_elements r indent) (\<lambda>(j, s).
               Ok (j + 1, [ch_lbrk, ch_nl] @ s @ replicate indent ch_sp @ [ch_rbrk]))
           | JSMN_UNDEFINED \<Rightarrow> Ok (0, map of_char ''unknown type'' @ [ch_nl])))"
| "dump_members node indent =
     (case node of
        Null \<Rightarrow> Ok (0, [])
      | Node ty d l r \<Rightarrow>
          out_bind (dumptree (Node ty d l r) (indent + 1)) (\<lambda>(j1, s1).
          out_bind (dumptree r (indent + 1)) (\<lambda>(j2, s2).
          out_bind (dump_members l indent) (\<lambda>(j3, s3).
            Ok (j1 + j2 + j3, replicate indent ch_sp @ s1 @ [ch_colon] @ s2 @
              (if l \<noteq> Null then [ch_comma] else []) @ [ch_nl] @ s3)))))"
| "dump_elements node indent =
     (case node of
        Null \<Rightarrow> Ok (0, [])
      | Node ty d l r \<Rightarrow>
          out_bind (dumptree (Node ty d l r) (indent + 1)) (\<lambda>(j1, s1).
          out_bind (dump_elements l indent) (\<lambda>(j3, s3).
            Ok (j1 + j3, replicate indent ch_sp @ s1 @ (if l \<noteq> Null then [ch_comma] else []) @ [ch_nl] @ s3))))"
  by pat_completeness auto
termination
  by (relation "measure (\<lambda>x. case x of
      Inl (t, _) \<Rightarrow> 2 * size t
    | Inr (Inl (t, _)) \<Rightarrow> 2 * size t + 1
    | Inr (Inr (t, _)) \<Rightarrow> 2 * size t + 1)") auto

declare dumptree.simps [simp del] dump_members.simps [simp del] dump_elements.simps [simp del]

subsection \<open>Freeing\<close>

text \<open>
  The blocks of a tree are named by the path to their node: False for \<open>l\<close>, True for \<open>r\<close>. The two
  functions return the blocks they free, in their order; _freewtree leaves the node itself to its
  caller, which frees its text and then the node.
\<close>

datatype jblock = Text "bool list" | Struct "bool list"

fun free_ret :: "bool list \<Rightarrow> jnode \<Rightarrow> jblock list" where
  "free_ret p Null = []"
| "free_ret p (Node ty d l r) = (if d \<noteq> None then [Text p] else []) @ [Struct p]"

fun freewtree :: "bool list \<Rightarrow> jnode \<Rightarrow> jblock list" where
  "freewtree p Null = []"
| "freewtree p (Node ty d l r) =
     freewtree (p @ [False]) l @ free_ret (p @ [False]) l @ freewtree (p @ [True]) r @ free_ret (p @ [True]) r"

definition freejstree :: "jnode \<Rightarrow> jblock list out" where
  "freejstree tree = (if tree = Null then Crash else Ok (freewtree [] tree @ [Struct []]))"

text \<open>The blocks of a tree. Freeing releases each of them once, except the text of the root.\<close>

fun blocks :: "bool list \<Rightarrow> jnode \<Rightarrow> jblock list" where
  "blocks p Null = []"
| "blocks p (Node ty d l r) = free_ret p (Node ty d l r) @ blocks (p @ [False]) l @ blocks (p @ [True]) r"

fun block_path :: "jblock \<Rightarrow> bool list" where
  "block_path (Text p) = p"
| "block_path (Struct p) = p"

lemma free_ret_path: "b \<in> set (free_ret p t) \<Longrightarrow> block_path b = p"
  by (cases t) (auto split: if_splits)

lemma blocks_path: "b \<in> set (blocks p t) \<Longrightarrow> \<exists>q. block_path b = p @ q"
proof (induction t arbitrary: p)
  case (Node ty d l r)
  then show ?case using free_ret_path [of b p "Node ty d l r"] by (auto simp del: free_ret.simps) (metis append_assoc)+
qed simp

lemma blocks_distinct: "distinct (blocks p t)"
proof (induction t arbitrary: p)
  case (Node ty d l r)
  have "distinct (free_ret p (Node ty d l r))" by simp
  moreover have "set (free_ret p (Node ty d l r)) \<inter> set (blocks (p @ [x]) t) = {}" for x t
    using free_ret_path [of _ p "Node ty d l r"] blocks_path [of _ "p @ [x]" t] by fastforce
  moreover have "set (blocks (p @ [False]) l) \<inter> set (blocks (p @ [True]) r) = {}"
    using blocks_path [of _ "p @ [False]" l] blocks_path [of _ "p @ [True]" r] by fastforce
  ultimately show ?case using Node.IH by (simp del: free_ret.simps add: Int_Un_distrib)
qed simp

lemma freewtree_blocks:
  "set (freewtree p t @ free_ret p t) = set (blocks p t) \<and> length (freewtree p t @ free_ret p t) = length (blocks p t)"
proof (induction t arbitrary: p)
  case (Node ty d l r)
  from Node.IH(1) [of "p @ [False]"] Node.IH(2) [of "p @ [True]"] show ?case by auto
qed simp

lemma freed_once:
  assumes "t \<noteq> Null"
  shows "\<exists>bs. freejstree t = Ok bs \<and> distinct bs \<and> set bs = set (blocks [] t) - {Text []}"
proof -
  have d: "distinct (freewtree [] t @ free_ret [] t)"
    using freewtree_blocks [of "[]" t] distinct_card [OF blocks_distinct, of "[]" t] by (metis card_distinct)
  have "freejstree t = Ok (freewtree [] t @ [Struct []])" using assms by (simp add: freejstree_def)
  moreover have "distinct (freewtree [] t @ [Struct []])" using d assms by (cases t) (auto split: if_splits)
  moreover have "set (freewtree [] t @ [Struct []]) = set (blocks [] t) - {Text []}"
  proof (cases t)
    case (Node ty d l r)
    have "set (freewtree [] t) = set (blocks [False] l) \<union> set (blocks [True] r)"
      using Node freewtree_blocks [of "[False]" l] freewtree_blocks [of "[True]" r] by auto
    moreover have "Text [] \<notin> set (blocks [x] u)" for x u using blocks_path [of "Text []" "[x]" u] by auto
    ultimately show ?thesis using Node by auto
  qed (use assms in simp)
  ultimately show ?thesis by blast
qed

subsection \<open>Reading a path\<close>

text \<open>
  \<^verbatim>\<open>sscanf(argv, "[%d]", &iter)\<close>: the input is used up before the number, it does not match, or it
  gives a number. In the first case the result is EOF, which is not zero, and \<open>iter\<close> is not set.
\<close>

datatype scanned = Eof | Mismatch | Num int

definition scan_number :: "byte list \<Rightarrow> scanned" where
  "scan_number s = (if s = [] then Eof else case scan_int s of None \<Rightarrow> Mismatch | Some (n, r) \<Rightarrow> Num n)"

definition sscanf_index :: "byte list \<Rightarrow> scanned" where
  "sscanf_index s =
     (case s of
        [] \<Rightarrow> Eof
      | c # cs \<Rightarrow> if c = ch_lbrk then scan_number (dropWhile is_space cs) else Mismatch)"

fun jstree_read_loop :: "nat \<Rightarrow> byte list list \<Rightarrow> jnode \<Rightarrow> (nat \<times> jnode) out" where
  "jstree_read_loop i [] rnode = Ok (i, rnode)"
| "jstree_read_loop i (argv # rest) rnode =
     (if rnode = Null then Ok (i, Null)
      else case sscanf_index argv of
        Eof \<Rightarrow> Crash
      | Num iter \<Rightarrow> out_bind (next_node rnode (nat iter)) (\<lambda>n.
          case n of
            Null \<Rightarrow> Ok (i, Null)
          | Node ty d l r \<Rightarrow>
              (case ty of
                 JSMN_STRING \<Rightarrow>
                   if rest = [] then jstree_read_loop (i + 1) rest n
                   else (case r of
                       Null \<Rightarrow> Ok (i, Null)
                     | Node ty2 d2 l2 r2 \<Rightarrow>
                         jstree_read_loop (i + 1) rest (if ty2 \<in> {JSMN_ARRAY, JSMN_OBJECT} then r2 else r))
               | JSMN_PRIMITIVE \<Rightarrow> jstree_read_loop (i + 1) rest n
               | JSMN_OBJECT \<Rightarrow> jstree_read_loop (i + 1) rest r
               | JSMN_ARRAY \<Rightarrow> jstree_read_loop (i + 1) rest r
               | JSMN_UNDEFINED \<Rightarrow> Ok (i, n)))
      | Mismatch \<Rightarrow> out_bind (find_node rnode argv) (\<lambda>n.
          case n of
            Null \<Rightarrow> Ok (i, Null)
          | Node ty d l r \<Rightarrow>
              (case r of
                 Null \<Rightarrow> Ok (i, n)
               | Node ty2 d2 l2 r2 \<Rightarrow>
                   (case ty2 of
                      JSMN_STRING \<Rightarrow> Ok (i + 1, r)
                    | JSMN_PRIMITIVE \<Rightarrow> Ok (i + 1, r)
                    | JSMN_OBJECT \<Rightarrow> jstree_read_loop (i + 1) rest r2
                    | JSMN_ARRAY \<Rightarrow> jstree_read_loop (i + 1) rest r2
                    | JSMN_UNDEFINED \<Rightarrow> Ok (i, n)))))"

definition jstree_read :: "jnode \<Rightarrow> byte list list \<Rightarrow> (nat \<times> jnode) out" where
  "jstree_read input path = jstree_read_loop 0 path input"

end
