(* ===== verification/Jsmn_Spec.thy ===== *)
theory Jsmn_Spec
  imports Jsmn
begin

text \<open>
  A reference tokenizer without an array to run out of: the tokens are a list that grows. The
  parser of Jsmn implements it as long as the array has room, and what it left when the array
  was full is a state of the reference, so that a run can go on in a larger array.
\<close>

subsection \<open>The reference\<close>

type_synonym jstate = "nat \<times> jsmntok list \<times> int"

definition tok_step :: "byte list \<Rightarrow> jstate \<Rightarrow> int + jstate" where
  "tok_step js = (\<lambda>(q, ts, sp). let c = js ! q in
     if c \<in> {ch_lbrace, ch_lbrk} then
       Inr (q + 1, inc_super sp ts @ [mk_tok (if c = ch_lbrace then JSMN_OBJECT else JSMN_ARRAY) (int q) (- 1)],
         int (length ts))
     else if c \<in> {ch_rbrace, ch_rbrk} then
       (case last_such is_open ts of
          None \<Rightarrow> Inl JSMN_ERROR_INVAL
        | Some i \<Rightarrow>
            if tk_type (ts ! i) \<noteq> (if c = ch_rbrace then JSMN_OBJECT else JSMN_ARRAY) then Inl JSMN_ERROR_INVAL
            else Inr (q + 1, ts[i := (ts ! i)\<lparr>tk_end := int q + 1\<rparr>], idx_of (- 1) (last_such is_open (take i ts))))
     else if c = ch_quote then
       (case str_scan js (q + 1) of
          Inl e \<Rightarrow> Inl e
        | Inr e \<Rightarrow> Inr (e + 1, inc_super sp (ts @ [mk_tok JSMN_STRING (int q + 1) (int e)]), sp))
     else if c \<in> {ch_tab, ch_cr, ch_nl, ch_sp} then Inr (q + 1, ts, sp)
     else if c = ch_colon then Inr (q + 1, ts, int (length ts) - 1)
     else if c = ch_comma then
       Inr (q + 1, ts, if sp \<noteq> - 1 \<and> \<not> is_cont (ts ! nat sp)
         then idx_of sp (last_such (\<lambda>t. is_cont t \<and> is_open t) ts) else sp)
     else
       (case prim_scan js q of
          None \<Rightarrow> Inl JSMN_ERROR_INVAL
        | Some e \<Rightarrow> Inr (e, inc_super sp (ts @ [mk_tok JSMN_PRIMITIVE (int q) (int e)]), sp)))"

lemma tok_step_pos:
  assumes "tok_step js (q, ts, sp) = Inr (q', ts', sp')" "q < length js" "js ! q \<noteq> 0"
  shows "q < q'"
  using assms str_scan_bounds [of js "q + 1"] prim_scan_item [of js q]
  by (fastforce simp: tok_step_def Let_def prim_stop_def split: if_splits option.splits sum.splits)

function tokenize :: "byte list \<Rightarrow> jstate \<Rightarrow> int \<times> jstate" where
  "tokenize js st =
     (if fst st < length js \<and> js ! fst st \<noteq> 0 then
        (case tok_step js st of Inl e \<Rightarrow> (e, st) | Inr st' \<Rightarrow> tokenize js st')
      else (if last_such is_open (fst (snd st)) = None then int (length (fst (snd st))) else JSMN_ERROR_PART, st))"
  by pat_completeness auto
termination
proof (relation "measure (\<lambda>(js, st). length js - fst st)", goal_cases)
  case (2 js st st')
  then show ?case
    using tok_step_pos [of js "fst st" "fst (snd st)" "snd (snd st)" "fst st'" "fst (snd st')" "snd (snd st')"] by auto
qed simp

declare tokenize.simps [simp del]

subsection \<open>The refinement\<close>

definition jabs :: "jsmn_parser \<Rightarrow> jsmntok list \<Rightarrow> jstate" where
  "jabs p toks = (jp_pos p, take (jp_toknext p) toks, jp_toksuper p)"

text \<open>
  One round: an error of the reference is an error of the parser; a successful round is one of
  the parser unless it needs a slot that is not there.
\<close>

definition refines :: "nat \<Rightarrow> jsmn_parser \<Rightarrow> jsmntok list \<Rightarrow> int \<Rightarrow> int + jstate \<Rightarrow> jsmn_res \<Rightarrow> bool" where
  "refines num p toks count a r =
     (case a of
        Inl e \<Rightarrow> r = Inl (e, p, Some toks)
      | Inr st \<Rightarrow>
          if length (fst (snd st)) > num then r = Inl (JSMN_ERROR_NOMEM, p, Some toks)
          else \<exists>p' toks' count'. r = Inr (p', Some toks', count') \<and> jabs (p'\<lparr>jp_pos := jp_pos p' + 1\<rparr>) toks' = st \<and>
            length toks' = length toks \<and> jp_toknext p' \<le> num \<and>
            count' - int (jp_toknext p') = count - int (jp_toknext p))"

lemma take_slot: "n < length toks \<Longrightarrow> take (Suc n) (toks[n := t]) = take n toks @ [t]"
  by (simp add: take_Suc_conv_app_nth list_update_append)

lemma take_inc_super: "s < int n \<Longrightarrow> - 1 \<le> s \<Longrightarrow> n \<le> length toks \<Longrightarrow> take n (inc_super s toks) = inc_super s (take n toks)"
  by (auto simp: inc_super_def take_update_swap)

lemma step_refines:
  assumes "in_use num p toks" "jp_pos p < length js" "js ! jp_pos p \<noteq> 0"
  shows "\<exists>r. jsmn_step js num p (Some toks) count = Ok r \<and> refines num p toks count (tok_step js (jabs p toks)) r"
proof -
  let ?n = "jp_toknext p"
  have n: "?n \<le> num" "num \<le> length toks" "- 1 \<le> jp_toksuper p" "jp_toksuper p < int ?n"
    using assms(1) by (auto simp: in_use_def)
  have put: "refines num p toks count (Inr (q + 1, inc_super (jp_toksuper p) (take ?n toks @ [t]), jp_toksuper p))
      (put_item num q t p toks count)" for q t
  proof (cases "?n = num")
    case False
    then have l: "?n < length toks" using n by simp
    have "take (Suc ?n) (inc_super (jp_toksuper p) (toks[?n := t])) = inc_super (jp_toksuper p) (take ?n toks @ [t])"
      using take_inc_super [of "jp_toksuper p" "Suc ?n" "toks[?n := t]"] take_slot [OF l] n l by simp
    then show ?thesis using False n by (simp add: refines_def put_item_def jabs_def)
  qed (use n in \<open>simp add: refines_def put_item_def\<close>)
  have op: "refines num p toks count (Inr (jp_pos p + 1, inc_super (jp_toksuper p) (take ?n toks) @ [t], int ?n))
      (if ?n = num then Inl (JSMN_ERROR_NOMEM, p, Some toks)
       else Inr (p\<lparr>jp_toknext := ?n + 1, jp_toksuper := int ?n\<rparr>,
         Some ((inc_super (jp_toksuper p) toks)[?n := t]), count + 1))" for t
  proof (cases "?n = num")
    case False
    then have l: "?n < length toks" using n by simp
    then show ?thesis
      using False n take_inc_super [of "jp_toksuper p" ?n toks]
      by (simp add: refines_def jabs_def take_slot)
  qed (use n in \<open>simp add: refines_def\<close>)
  have lt: "length (take ?n toks) = ?n" using n by simp
  let ?c = "js ! jp_pos p"
  consider (open_) "?c \<in> {ch_lbrace, ch_lbrk}" | (close) "?c \<in> {ch_rbrace, ch_rbrk}" | (quote) "?c = ch_quote"
    | (space) "?c \<in> {ch_tab, ch_cr, ch_nl, ch_sp}" | (colon) "?c = ch_colon" | (comma) "?c = ch_comma"
    | (prim) "?c \<notin> {ch_lbrace, ch_lbrk, ch_rbrace, ch_rbrk, ch_quote, ch_tab, ch_cr, ch_nl, ch_sp, ch_colon, ch_comma}"
    by auto
  then show ?thesis
  proof cases
    case open_
    then have "jsmn_step js num p (Some toks) count = jsmn_open ?c num p toks count"
      "tok_step js (jabs p toks) = Inr (jp_pos p + 1, inc_super (jp_toksuper p) (take ?n toks) @
        [mk_tok (if ?c = ch_lbrace then JSMN_OBJECT else JSMN_ARRAY) (int (jp_pos p)) (- 1)], int ?n)"
      using lt by (simp_all add: jsmn_step_def tok_step_def jabs_def)
    with open_eq [OF assms(1), of ?c count] op show ?thesis by simp
  next
    case close
    then have run: "jsmn_step js num p (Some toks) count = jsmn_close ?c p toks count" by (auto simp: jsmn_step_def)
    show ?thesis
    proof (cases "last_such is_open (take ?n toks)")
      case None
      then show ?thesis using run close_eq [OF assms(1), of ?c count] close
        by (auto simp: tok_step_def jabs_def refines_def)
    next
      case (Some i)
      then have "i < ?n" using last_such_SomeD(1) [OF Some] lt by simp
      then have "take ?n toks ! i = toks ! i" "(take ?n toks)[i := x] = take ?n (toks[i := x])"
        "take i (take ?n toks) = take i toks" for x by (simp_all add: take_update_swap min_def)
      then show ?thesis using Some run close_eq [OF assms(1), of ?c count] close n
        by (auto simp: tok_step_def jabs_def refines_def)
    qed
  next
    case quote
    then show ?thesis
      using string_eq [OF assms(1), of js count] put
      by (auto simp: jsmn_step_def tok_step_def jabs_def refines_def [where a = "Inl _"] split: sum.splits)
  next
    case space
    then show ?thesis using n by (auto simp: jsmn_step_def tok_step_def jabs_def refines_def)
  next
    case colon
    then show ?thesis using n by (auto simp: jsmn_step_def tok_step_def jabs_def refines_def)
  next
    case comma
    have "take ?n toks ! nat (jp_toksuper p) = toks ! nat (jp_toksuper p)" if "jp_toksuper p \<noteq> - 1"
      using n that by simp
    then show ?thesis
      using comma comma_eq [OF assms(1), of count] n
      by (auto simp: jsmn_step_def tok_step_def jabs_def refines_def)
  next
    case prim
    then have st: "?c \<notin> prim_stop" by (auto simp: prim_stop_def)
    have "jsmn_step js num p (Some toks) count = jsmn_item (jsmn_parse_primitive p js (Some toks) num) count"
      using prim by (simp add: jsmn_step_def)
    moreover have "\<exists>m. q = Suc m" if "prim_scan js (jp_pos p) = Some q" for q
      using prim_scan_item [OF that assms(2,3) st] by (cases q) auto
    ultimately show ?thesis
      using prim prim_eq [OF assms(1-3) st, of count] put
      by (fastforce simp: tok_step_def jabs_def refines_def [where a = "Inl _"] split: option.splits)
  qed
qed

text \<open>
  What holds of the reference at the head of its loop: tokens lie before the current position, only
  containers are open, the superior token exists, and there are no more tokens than characters read.
\<close>

definition tok_ok :: "nat \<Rightarrow> jsmntok \<Rightarrow> bool" where
  "tok_ok q t \<longleftrightarrow> tk_type t \<noteq> JSMN_UNDEFINED \<and> 0 \<le> tk_start t \<and> tk_start t \<le> int q \<and> 0 \<le> tk_size t \<and>
     (if tk_end t = - 1 then tk_type t \<in> {JSMN_OBJECT, JSMN_ARRAY}
      else tk_start t \<le> tk_end t \<and> tk_end t \<le> int q)"

definition st_ok :: "byte list \<Rightarrow> jstate \<Rightarrow> bool" where
  "st_ok js = (\<lambda>(q, ts, sp). length ts \<le> q \<and> q \<le> length js \<and> - 1 \<le> sp \<and> sp < int (length ts) \<and>
     (\<forall>t \<in> set ts. tok_ok q t))"

lemma tok_ok_mono: "tok_ok q t \<Longrightarrow> q \<le> q' \<Longrightarrow> tok_ok q' t"
  by (auto simp: tok_ok_def split: if_splits)

lemma tok_ok_inc: "- 1 \<le> s \<Longrightarrow> s < int (length ts) \<Longrightarrow> \<forall>t \<in> set ts. tok_ok q t \<Longrightarrow> \<forall>t \<in> set (inc_super s ts). tok_ok q t"
proof
  fix t assume a: "- 1 \<le> s" "s < int (length ts)" "\<forall>t \<in> set ts. tok_ok q t" "t \<in> set (inc_super s ts)"
  show "tok_ok q t"
  proof (cases "s = - 1")
    case False
    then have "tok_ok q (ts ! nat s)" using a by (intro bspec [OF a(3)] nth_mem) auto
    then have "tok_ok q ((ts ! nat s)\<lparr>tk_size := tk_size (ts ! nat s) + 1\<rparr>)" by (auto simp: tok_ok_def)
    with a(3,4) False show ?thesis by (auto simp: inc_super_def dest!: subsetD [OF set_update_subset_insert])
  qed (use a in \<open>auto simp: inc_super_def\<close>)
qed

lemma st_ok_grow:
  assumes "st_ok js (q, ts, sp)" "q < q'" "q' \<le> length js" "tok_ok q' t"
  shows "st_ok js (q', inc_super sp ts @ [t], int (length ts))" "st_ok js (q', inc_super sp (ts @ [t]), sp)"
proof -
  have a: "\<forall>t \<in> set ts. tok_ok q' t" "- 1 \<le> sp" "sp < int (length ts)" "length ts \<le> q"
  proof -
    have "tok_ok q x \<Longrightarrow> tok_ok q' x" for x using tok_ok_mono [of q x q'] assms(2) by simp
    then show "\<forall>t \<in> set ts. tok_ok q' t" "- 1 \<le> sp" "sp < int (length ts)" "length ts \<le> q"
      using assms(1) by (auto simp: st_ok_def)
  qed
  then show "st_ok js (q', inc_super sp ts @ [t], int (length ts))"
    using tok_ok_inc [OF a(2,3,1)] assms(2-4) by (auto simp: st_ok_def)
  have "\<forall>x \<in> set (ts @ [t]). tok_ok q' x" using a(1) assms(4) by auto
  from tok_ok_inc [OF a(2) _ this] a(3) have "\<forall>x \<in> set (inc_super sp (ts @ [t])). tok_ok q' x" by simp
  then show "st_ok js (q', inc_super sp (ts @ [t]), sp)"
    using a(2-4) assms(2,3) by (simp add: st_ok_def)
qed

lemma last_such_bound: "- 1 \<le> d \<Longrightarrow> d < int n \<Longrightarrow> length ts \<le> n \<Longrightarrow>
    - 1 \<le> idx_of d (last_such P ts) \<and> idx_of d (last_such P ts) < int n"
  using last_such_SomeD(1) [of P ts] by (fastforce simp: idx_of_def split: option.splits)

lemma st_ok_step:
  assumes "st_ok js (q, ts, sp)" "q < length js" "js ! q \<noteq> 0" "tok_step js (q, ts, sp) = Inr st"
  shows "st_ok js st"
proof -
  have i: "\<forall>t \<in> set ts. tok_ok (Suc q) t" "- 1 \<le> sp" "sp < int (length ts)" "length ts \<le> q"
  proof -
    have "tok_ok q x \<Longrightarrow> tok_ok (Suc q) x" for x using tok_ok_mono [of q x "Suc q"] by simp
    then show "\<forall>t \<in> set ts. tok_ok (Suc q) t" "- 1 \<le> sp" "sp < int (length ts)" "length ts \<le> q"
      using assms(1) by (auto simp: st_ok_def)
  qed
  have cl: "st_ok js (Suc q, ts[i := (ts ! i)\<lparr>tk_end := int q + 1\<rparr>], idx_of (- 1) (last_such is_open (take i ts)))"
    if "last_such is_open ts = Some i" for i
  proof -
    have l: "i < length ts" "is_open (ts ! i)" using last_such_SomeD [OF that] by auto
    then have "tok_ok (Suc q) (ts ! i)" using i(1) by simp
    then have "tok_ok (Suc q) ((ts ! i)\<lparr>tk_end := int q + 1\<rparr>)"
      using assms(1) l by (auto simp: tok_ok_def st_ok_def is_open_def)
    moreover have "- 1 \<le> idx_of (- 1) (last_such is_open (take i ts)) \<and>
        idx_of (- 1) (last_such is_open (take i ts)) < int (length ts)"
      using last_such_bound [of "- 1" "length ts" "take i ts" is_open] l by simp
    ultimately show ?thesis
      using i assms(2) by (auto simp: st_ok_def dest!: subsetD [OF set_update_subset_insert])
  qed
  have cm: "st_ok js (Suc q, ts, idx_of sp (last_such P ts))" for P
    using last_such_bound [of sp "length ts" ts P] i assms(2) by (auto simp: st_ok_def)
  have "tok_ok (Suc q) (mk_tok JSMN_OBJECT (int q) (- 1))" "tok_ok (Suc q) (mk_tok JSMN_ARRAY (int q) (- 1))"
    by (simp_all add: tok_ok_def mk_tok_def)
  note grow = st_ok_grow(1) [OF assms(1) lessI _ this(1)] st_ok_grow(1) [OF assms(1) lessI _ this(2)]
  have str: "st_ok js (Suc e, inc_super sp (ts @ [mk_tok JSMN_STRING (int q + 1) (int e)]), sp)"
    if "str_scan js (Suc q) = Inr e" for e
    using str_scan_bounds [OF that] by (intro st_ok_grow(2) [OF assms(1)]) (auto simp: tok_ok_def mk_tok_def)
  have prm: "st_ok js (e, inc_super sp (ts @ [mk_tok JSMN_PRIMITIVE (int q) (int e)]), sp)"
    if "prim_scan js q = Some e" "js ! q \<notin> prim_stop" for e
    using prim_scan_item [OF that(1) assms(2,3) that(2)]
    by (intro st_ok_grow(2) [OF assms(1)]) (auto simp: tok_ok_def mk_tok_def)
  have sp: "st_ok js (Suc q, ts, s)" if "s = sp \<or> s = int (length ts) - 1" for s
    using i assms(2) that by (auto simp: st_ok_def)
  show ?thesis
    using assms(2,4) grow cl cm str prm sp
    by (auto simp: tok_step_def Let_def prim_stop_def split: if_splits option.splits sum.splits)
qed

lemma tok_step_len: "tok_step js (q, ts, sp) = Inr (q', ts', sp') \<Longrightarrow> length ts \<le> length ts'"
  by (auto simp: tok_step_def Let_def split: if_splits option.splits sum.splits)

lemma tok_step_err: "tok_step js st = Inl e \<Longrightarrow> e = JSMN_ERROR_INVAL \<or> e = JSMN_ERROR_PART"
  using str_scan_err2 [of js "fst st + 1" e]
  by (cases st) (auto simp: tok_step_def Let_def split: if_splits option.splits sum.splits)

lemma tokenize_len: "length (fst (snd st)) \<le> length (fst (snd (snd (tokenize js st))))"
proof (induction js st rule: tokenize.induct)
  case (1 js st)
  show ?case
  proof (cases "fst st < length js \<and> js ! fst st \<noteq> 0")
    case True
    show ?thesis
    proof (cases "tok_step js st")
      case (Inr st')
      have "length (fst (snd st)) \<le> length (fst (snd st'))"
        using tok_step_len [of js "fst st" "fst (snd st)" "snd (snd st)" "fst st'" "fst (snd st')" "snd (snd st')"] Inr by simp
      with 1 [OF True Inr] True Inr show ?thesis by (subst tokenize.simps) auto
    qed (use True in \<open>subst tokenize.simps, simp\<close>)
  qed (subst tokenize.simps, auto)
qed

text \<open>The result of a run and what the reference says about it.\<close>

definition run_ok :: "byte list \<Rightarrow> nat \<Rightarrow> jstate \<Rightarrow> nat \<Rightarrow> int \<times> jsmn_parser \<times> jsmntok list option \<Rightarrow> bool" where
  "run_ok js num st n = (\<lambda>(r, p', t'). \<exists>toks'. t' = Some toks' \<and> length toks' = n \<and> in_use num p' toks' \<and>
     st_ok js (jabs p' toks') \<and> tokenize js (jabs p' toks') = tokenize js st \<and>
     (r = JSMN_ERROR_NOMEM \<longrightarrow> jp_toknext p' = num \<and> num < length (fst (snd (snd (tokenize js st))))) \<and>
     (r \<noteq> JSMN_ERROR_NOMEM \<longrightarrow> tokenize js st = (r, jabs p' toks')))"

lemma loop_refines:
  assumes "in_use num p toks" "st_ok js (jabs p toks)" "count = int (jp_toknext p)"
  shows "\<exists>x. jsmn_loop js num p (Some toks) count = Ok x \<and> run_ok js num (jabs p toks) (length toks) x"
  using assms
proof (induction js num p "Some toks" count arbitrary: toks rule: jsmn_loop.induct)
  case (1 js num p count toks)
  let ?st = "jabs p toks"
  have head: "fst ?st = jp_pos p" "length (fst (snd ?st)) = jp_toknext p"
    using "1.prems"(1) by (simp_all add: jabs_def in_use_def)
  show ?case
  proof (cases "jp_pos p < length js \<and> js ! jp_pos p \<noteq> 0")
    case True
    from step_refines [OF "1.prems"(1), of js count] True obtain r where
      r: "jsmn_step js num p (Some toks) count = Ok r" "refines num p toks count (tok_step js ?st) r" by blast
    have tk: "tokenize js ?st = (case tok_step js ?st of Inl e \<Rightarrow> (e, ?st) | Inr st' \<Rightarrow> tokenize js st')"
      using True head by (subst tokenize.simps) simp
    have run: "jsmn_loop js num p (Some toks) count = (case r of Inl x \<Rightarrow> Ok x
        | Inr (p', tokens', count') \<Rightarrow> jsmn_loop js num (p'\<lparr>jp_pos := jp_pos p' + 1\<rparr>) tokens' count')"
      using True r(1) by (subst jsmn_loop.simps) (auto split: sum.splits)
    show ?thesis
    proof (cases "tok_step js ?st")
      case (Inl e)
      then show ?thesis
        using r(2) run tk tok_step_err [OF Inl] "1.prems" by (auto simp: refines_def run_ok_def jsmn_errs)
    next
      case (Inr st)
      show ?thesis
      proof (cases "length (fst (snd st)) > num")
        case True
        then have "jp_toknext p = num"
        proof -
          have "length (fst (snd st)) \<le> Suc (jp_toknext p)"
            using Inr head(2) by (auto simp: tok_step_def Let_def jabs_def split: if_splits option.splits sum.splits)
          with True "1.prems"(1) show ?thesis by (simp add: in_use_def)
        qed
        with True Inr r(2) run tk "1.prems" tokenize_len [of st js] show ?thesis
          by (auto simp: refines_def run_ok_def)
      next
        case False
        with Inr r(2) obtain p' toks' count' where y: "r = Inr (p', Some toks', count')"
          "jabs (p'\<lparr>jp_pos := jp_pos p' + 1\<rparr>) toks' = st" "length toks' = length toks" "jp_toknext p' \<le> num"
          "count' = int (jp_toknext p')"
          using "1.prems"(3) by (auto simp: refines_def)
        have ok: "st_ok js st"
          using st_ok_step [of js "jp_pos p" "take (jp_toknext p) toks" "jp_toksuper p" st] "1.prems"(2) True Inr
          by (simp add: jabs_def)
        then have "in_use num (p'\<lparr>jp_pos := jp_pos p' + 1\<rparr>) toks'"
          using y(2,3,4) "1.prems"(1) by (auto simp: in_use_def st_ok_def jabs_def)
        from "1.hyps" [OF True r(1) y(1) refl refl this] ok y(2,5)
        have "\<exists>x. jsmn_loop js num (p'\<lparr>jp_pos := jp_pos p' + 1\<rparr>) (Some toks') count' = Ok x \<and> run_ok js num st (length toks') x"
          by simp
        with run y(1,3) tk Inr show ?thesis by (auto simp: run_ok_def)
      qed
    qed
  next
    case False
    have "jp_toknext p \<le> length toks" using "1.prems"(1) by (simp add: in_use_def)
    note fo = find_open_last [OF this]
    have "tokenize js ?st = (if last_such is_open (fst (snd ?st)) = None then int (jp_toknext p) else JSMN_ERROR_PART, ?st)"
      using False head by (subst tokenize.simps) auto
    moreover have "jsmn_loop js num p (Some toks) count =
        Ok (if last_such is_open (fst (snd ?st)) = None then count else JSMN_ERROR_PART, p, Some toks)"
      using False fo by (subst jsmn_loop.simps) (auto simp: jabs_def)
    ultimately show ?thesis using "1.prems" by (auto simp: run_ok_def jsmn_errs)
  qed
qed

lemma parse_refines:
  assumes "in_use num p toks" "st_ok js (jabs p toks)"
  shows "\<exists>r p' toks'. jsmn_parse p js (Some toks) num = Ok (r, p', Some toks') \<and>
    run_ok js num (jabs p toks) (length toks) (r, p', Some toks')"
  using loop_refines [OF assms refl] by (fastforce simp: jsmn_parse_def run_ok_def)

text \<open>What a run of the reference returns.\<close>

definition token_list :: "int \<times> jstate \<Rightarrow> jsmntok list" where
  "token_list x = fst (snd (snd x))"

lemma tokenize_result:
  assumes "tokenize js st = (r, q, ts, sp)" "st_ok js st"
  shows "st_ok js (q, ts, sp) \<and> (r < 0 \<longrightarrow> r \<in> {JSMN_ERROR_INVAL, JSMN_ERROR_PART}) \<and>
    (0 \<le> r \<longrightarrow> r = int (length ts) \<and> (\<forall>t \<in> set ts. \<not> is_open t))"
  using assms
proof (induction js st rule: tokenize.induct)
  case (1 js st)
  show ?case
  proof (cases "fst st < length js \<and> js ! fst st \<noteq> 0")
    case True
    show ?thesis
    proof (cases "tok_step js st")
      case (Inl e)
      with True "1.prems" tok_step_err [OF Inl] show ?thesis
        by (subst (asm) tokenize.simps) (auto simp: jsmn_errs)
    next
      case (Inr st')
      have "st_ok js st'"
        using st_ok_step [of js "fst st" "fst (snd st)" "snd (snd st)" st'] True Inr "1.prems"(2) by simp
      with "1.IH" [OF True Inr] "1.prems"(1) True Inr show ?thesis by (subst (asm) tokenize.simps) simp
    qed
  next
    case False
    then have "(if last_such is_open (fst (snd st)) = None then int (length (fst (snd st))) else JSMN_ERROR_PART, st) = (r, q, ts, sp)"
      using "1.prems"(1) by (subst (asm) tokenize.simps) auto
    then show ?thesis
      using "1.prems"(2) by (auto simp: jsmn_errs last_such_None_iff in_set_conv_nth split: if_splits)
  qed
qed

subsection \<open>Properties\<close>

text \<open>
  C37. The tokenizer implements the reference in whatever array it gets: if the array has room for
  the reference's tokens, the result, the position, the tokens and the superior token are those
  of the reference; if not, it reports a full array, and going on in a larger copy of the array,
  whatever the new slots hold, gives the result a run in a large array would have given.
\<close>

theorem jsmn_implements_reference:
  assumes "in_use num p toks" "st_ok js (jabs p toks)"
  shows "\<exists>r p' toks'. jsmn_parse p js (Some toks) num = Ok (r, p', Some toks') \<and> length toks' = length toks \<and>
    (if length (token_list (tokenize js (jabs p toks))) \<le> num then tokenize js (jabs p toks) = (r, jabs p' toks')
     else r = JSMN_ERROR_NOMEM \<and> (\<forall>more num'. length (token_list (tokenize js (jabs p toks))) \<le> num' \<and>
       num' \<le> length (toks' @ more) \<longrightarrow>
       (\<exists>r'' p'' toks''. jsmn_parse p' js (Some (toks' @ more)) num' = Ok (r'', p'', Some toks'') \<and>
         tokenize js (jabs p toks) = (r'', jabs p'' toks''))))"
proof -
  from parse_refines [OF assms] obtain r p' toks' where
    run: "jsmn_parse p js (Some toks) num = Ok (r, p', Some toks')" and
    ok: "length toks' = length toks" "in_use num p' toks'" "st_ok js (jabs p' toks')"
      "tokenize js (jabs p' toks') = tokenize js (jabs p toks)"
      "r = JSMN_ERROR_NOMEM \<longrightarrow> jp_toknext p' = num \<and> num < length (token_list (tokenize js (jabs p toks)))"
      "r \<noteq> JSMN_ERROR_NOMEM \<longrightarrow> tokenize js (jabs p toks) = (r, jabs p' toks')"
    by (auto simp: run_ok_def token_list_def)
  have full: "r = JSMN_ERROR_NOMEM" if "\<not> length (token_list (tokenize js (jabs p toks))) \<le> num"
    using that ok(2,6) by (auto simp: token_list_def jabs_def in_use_def)
  have on: "\<exists>r'' p'' toks''. jsmn_parse p' js (Some (toks' @ more)) num' = Ok (r'', p'', Some toks'') \<and>
      tokenize js (jabs p toks) = (r'', jabs p'' toks'')"
    if "length (token_list (tokenize js (jabs p toks))) \<le> num'" "num' \<le> length (toks' @ more)" "num < num'" for more num'
  proof -
    have "jabs p' (toks' @ more) = jabs p' toks'" using ok(2) by (simp add: jabs_def in_use_def)
    moreover have "in_use num' p' (toks' @ more)" using ok(2) that by (simp add: in_use_def)
    ultimately show ?thesis
      using parse_refines [of num' p' "toks' @ more" js] ok(3,4) that(1) by (auto simp: run_ok_def token_list_def)
  qed
  show ?thesis
    using run ok(1,5,6) full on by (intro exI [of _ r] exI [of _ p'] exI [of _ toks']) auto
qed

definition sample_tok :: jsmntok where
  "sample_tok = \<lparr>tk_type = JSMN_UNDEFINED, tk_start = 77, tk_end = 5, tk_size = 9\<rparr>"

text \<open>The text \<^verbatim>\<open>{"a":1}\<close>.\<close>

definition sample_js :: "byte list" where
  "sample_js = [123, 34, 97, 34, 58, 49, 125]"

lemma init_ok: "num \<le> length toks \<Longrightarrow> in_use num jsmn_init toks" "st_ok js (jabs jsmn_init toks)"
  by (simp_all add: in_use_def jsmn_init_def jabs_def st_ok_def)

lemma sample_tokenize: "tokenize sample_js (0, [], - 1) =
    (3, 7, [\<lparr>tk_type = JSMN_OBJECT, tk_start = 0, tk_end = 7, tk_size = 1\<rparr>,
      \<lparr>tk_type = JSMN_STRING, tk_start = 2, tk_end = 3, tk_size = 1\<rparr>,
      \<lparr>tk_type = JSMN_PRIMITIVE, tk_start = 5, tk_end = 6, tk_size = 0\<rparr>], - 1)"
  by code_simp

lemma jsmn_implements_reference_witness:
  "\<exists>p' toks'. jsmn_parse jsmn_init sample_js (Some (replicate 2 sample_tok)) 2 = Ok (JSMN_ERROR_NOMEM, p', Some toks') \<and>
    (\<exists>p'' toks''. jsmn_parse p' sample_js (Some (toks' @ replicate 2 sample_tok)) 4 = Ok (3, p'', Some toks''))"
proof -
  have j: "jabs jsmn_init (replicate 2 sample_tok) = (0, [], - 1)" by (simp add: jabs_def jsmn_init_def)
  have "in_use 2 jsmn_init (replicate 2 sample_tok)" by (rule init_ok) simp
  note ref = jsmn_implements_reference [OF this init_ok(2), of sample_js, unfolded j]
  have "length (token_list (tokenize sample_js (0, [], - 1))) = 3" by (simp add: sample_tokenize token_list_def)
  with ref obtain p' toks' where r: "jsmn_parse jsmn_init sample_js (Some (replicate 2 sample_tok)) 2 = Ok (JSMN_ERROR_NOMEM, p', Some toks')"
    "length toks' = 2" "\<forall>more num'. 3 \<le> num' \<and> num' \<le> length (toks' @ more) \<longrightarrow>
      (\<exists>r'' p'' toks''. jsmn_parse p' sample_js (Some (toks' @ more)) num' = Ok (r'', p'', Some toks'') \<and>
        tokenize sample_js (0, [], - 1) = (r'', jabs p'' toks''))"
    by (simp del: length_append) blast
  from r(3) [rule_format, of 4 "replicate 2 sample_tok"] r(2) sample_tokenize
  have "\<exists>p'' toks''. jsmn_parse p' sample_js (Some (toks' @ replicate 2 sample_tok)) 4 = Ok (3, p'', Some toks'')"
    by auto
  with r(1) show ?thesis by blast
qed

text \<open>
  C38. The tokenizer is memory safe and its tokens lie in the text: on any bytes whatsoever, from
  the initial state or any state an earlier call left, it never touches a slot outside the array
  and returns. There are no more tokens than characters; a negative result is one of the three
  error codes; a non-negative one is the number of tokens, each of which has a type and a range
  inside the text.
\<close>

theorem jsmn_parse_safe:
  assumes "in_use num p toks" "st_ok js (jabs p toks)"
  shows "\<exists>r p' toks'. jsmn_parse p js (Some toks) num = Ok (r, p', Some toks') \<and> length toks' = length toks \<and>
    in_use num p' toks' \<and> jp_toknext p' \<le> length js \<and>
    (r < 0 \<longrightarrow> r \<in> {JSMN_ERROR_NOMEM, JSMN_ERROR_INVAL, JSMN_ERROR_PART}) \<and>
    (0 \<le> r \<longrightarrow> r = int (jp_toknext p') \<and> (\<forall>i < jp_toknext p'. tk_type (toks' ! i) \<noteq> JSMN_UNDEFINED \<and>
       0 \<le> tk_start (toks' ! i) \<and> tk_start (toks' ! i) \<le> tk_end (toks' ! i) \<and> tk_end (toks' ! i) \<le> int (length js)))"
proof -
  from parse_refines [OF assms] obtain r p' toks' where
    run: "jsmn_parse p js (Some toks) num = Ok (r, p', Some toks')" and
    ok: "length toks' = length toks" "in_use num p' toks'" "st_ok js (jabs p' toks')"
      "r \<noteq> JSMN_ERROR_NOMEM \<longrightarrow> tokenize js (jabs p toks) = (r, jabs p' toks')"
    by (auto simp: run_ok_def)
  have n: "jp_toknext p' \<le> length toks'" using ok(2) by (simp add: in_use_def)
  have res: "r < 0 \<longrightarrow> r \<in> {JSMN_ERROR_NOMEM, JSMN_ERROR_INVAL, JSMN_ERROR_PART}"
    "0 \<le> r \<longrightarrow> r = int (jp_toknext p') \<and> (\<forall>t \<in> set (take (jp_toknext p') toks'). \<not> is_open t)"
    using tokenize_result [OF _ assms(2), of r "jp_pos p'"] ok(4) n by (auto simp: jabs_def jsmn_errs)
  have "tk_type (toks' ! i) \<noteq> JSMN_UNDEFINED \<and> 0 \<le> tk_start (toks' ! i) \<and>
      tk_start (toks' ! i) \<le> tk_end (toks' ! i) \<and> tk_end (toks' ! i) \<le> int (length js)"
    if "0 \<le> r" "i < jp_toknext p'" for i
  proof -
    have "toks' ! i \<in> set (take (jp_toknext p') toks')"
      using that(2) n by (metis in_set_conv_nth length_take min.absorb2 nth_take)
    then have "tok_ok (jp_pos p') (toks' ! i)" "\<not> is_open (toks' ! i)" "jp_pos p' \<le> length js"
      using that(1) res(2) ok(3) by (auto simp: jabs_def st_ok_def)
    then show ?thesis by (auto simp: tok_ok_def is_open_def split: if_splits)
  qed
  moreover have "jp_toknext p' \<le> length js" using ok(3) n by (simp add: jabs_def st_ok_def)
  ultimately show ?thesis using run ok(1,2) res by blast
qed

lemma jsmn_parse_safe_witness:
  "\<exists>r p' toks'. jsmn_parse jsmn_init sample_js (Some (replicate 4 sample_tok)) 4 = Ok (r, p', Some toks') \<and>
    length toks' = 4 \<and> jp_toknext p' \<le> 7"
  using jsmn_parse_safe [OF init_ok(1) init_ok(2), of 4 "replicate 4 sample_tok" sample_js]
  by (auto simp: sample_js_def)

text \<open>Without an array the parser only counts.\<close>

lemma item_count:
  assumes "jp_pos p < length js" "js ! jp_pos p \<noteq> 0"
  shows "jsmn_item (jsmn_parse_string p js None num) count =
      Ok (case str_scan js (jp_pos p + 1) of Inl e \<Rightarrow> Inl (e, p, None) | Inr q \<Rightarrow> Inr (p\<lparr>jp_pos := q\<rparr>, None, count + 1))"
    "js ! jp_pos p \<notin> prim_stop \<Longrightarrow> jsmn_item (jsmn_parse_primitive p js None num) count =
      Ok (case prim_scan js (jp_pos p) of None \<Rightarrow> Inl (JSMN_ERROR_INVAL, p, None)
        | Some q \<Rightarrow> Inr (p\<lparr>jp_pos := q - 1\<rparr>, None, count + 1))"
  using str_scan_err [of js "jp_pos p + 1"] prim_scan_item [of js "jp_pos p"] assms
  by (auto simp: jsmn_parse_string_def jsmn_parse_primitive_def jsmn_item_def jsmn_errs pos_dec_def
      split: sum.splits option.splits)

lemma step_counts:
  assumes "jp_pos p < length js" "js ! jp_pos p \<noteq> 0" "tok_step js (jp_pos p, ts, sp) = Inr (q', ts', sp')"
  shows "\<exists>p'. jsmn_step js num p None count = Ok (Inr (p', None, count + int (length ts') - int (length ts))) \<and> Suc (jp_pos p') = q'"
  using assms(3) item_count [OF assms(1,2), of num count] prim_scan_item [OF _ assms(1,2)]
  by (auto simp: tok_step_def jsmn_step_def Let_def prim_stop_def split: if_splits option.splits sum.splits)

lemma loop_counts:
  assumes "tokenize js (jp_pos p, ts, sp) = (r, q, ts', sp')" "0 \<le> r"
  shows "\<exists>p'. jsmn_loop js num p None count = Ok (count + int (length ts') - int (length ts), p', None)"
  using assms
proof (induction js num p "None :: jsmntok list option" count arbitrary: ts sp rule: jsmn_loop.induct)
  case (1 js num p count ts sp)
  show ?case
  proof (cases "jp_pos p < length js \<and> js ! jp_pos p \<noteq> 0")
    case True
    then obtain q1 ts1 sp1 where st: "tok_step js (jp_pos p, ts, sp) = Inr (q1, ts1, sp1)"
      using "1.prems" tok_step_err [of js "(jp_pos p, ts, sp)"]
      by (cases "tok_step js (jp_pos p, ts, sp)") (auto simp: tokenize.simps [of js "(jp_pos p, ts, sp)"] jsmn_errs)
    from step_counts [OF _ _ st, of num count] True obtain p' where
      p': "jsmn_step js num p None count = Ok (Inr (p', None, count + int (length ts1) - int (length ts)))" "Suc (jp_pos p') = q1"
      by auto
    have "tokenize js (jp_pos (p'\<lparr>jp_pos := jp_pos p' + 1\<rparr>), ts1, sp1) = (r, q, ts', sp')"
      using "1.prems"(1) True st p'(2) by (subst (asm) tokenize.simps) simp
    from "1.hyps" [OF True p'(1) refl refl refl this "1.prems"(2)] True p'(1) show ?thesis
      by (subst jsmn_loop.simps) auto
  next
    case False
    with "1.prems" have "ts' = ts" by (subst (asm) tokenize.simps) (auto split: if_splits)
    with False show ?thesis by (subst jsmn_loop.simps) auto
  qed
qed

text \<open>
  Counting without an array is exact: if the reference finds the text well formed, a call with
  a null array returns the number of its tokens, which is therefore the size of array a second
  call needs.
\<close>

theorem jsmn_count_exact:
  assumes "tokenize js (0, [], - 1) = (r, st)" "0 \<le> r"
  shows "\<exists>p'. jsmn_parse jsmn_init js None num = Ok (r, p', None) \<and> r = int (length (fst (snd st)))"
proof -
  have "st_ok js (0, [], - 1)" by (simp add: st_ok_def)
  with tokenize_result [of js "(0, [], - 1)" r "fst st" "fst (snd st)" "snd (snd st)"] assms
  have "r = int (length (fst (snd st)))" by simp
  with loop_counts [of js jsmn_init "[]" "- 1" r "fst st" "fst (snd st)" "snd (snd st)" num 0] assms
  show ?thesis by (simp add: jsmn_parse_def jsmn_init_def)
qed

lemma jsmn_count_exact_witness: "\<exists>p'. jsmn_parse jsmn_init sample_js None 0 = Ok (3, p', None)"
  using jsmn_count_exact [OF sample_tokenize] by auto

end
