(* ===== verification/Json_Text.thy ===== *)
theory Json_Text
  imports Jstree Jsmn_Spec
begin

text \<open>
  What the JSON code does on JSON texts: a grammar that relates a tree to the texts that denote it,
  and the proof that tokenizing such a text and building the tree gives that tree.
\<close>

subsection \<open>The grammar\<close>

definition is_ws :: "byte list \<Rightarrow> bool" where
  "is_ws w \<longleftrightarrow> list_all (\<lambda>c. c \<in> {ch_tab, ch_cr, ch_nl, ch_sp}) w"

definition prim_ok :: "byte list \<Rightarrow> bool" where
  "prim_ok d \<longleftrightarrow> d \<noteq> [] \<and> hd d \<notin> {ch_lbrace, ch_lbrk, ch_quote} \<and>
     list_all (\<lambda>c. 32 \<le> c \<and> c < 127 \<and> c \<notin> prim_stop) d"

fun str_ok :: "byte list \<Rightarrow> bool" where
  "str_ok [] = True"
| "str_ok (c # cs) =
     (if c = 0 \<or> c = ch_quote then False
      else if c \<noteq> ch_bslash then str_ok cs
      else (case cs of
          [] \<Rightarrow> False
        | e # cs' \<Rightarrow>
            if e \<in> esc_ok then str_ok cs'
            else e = 117 \<and> 4 \<le> length cs' \<and> list_all is_hex (take 4 cs') \<and> str_ok (drop 4 cs')))"

inductive jval :: "jnode \<Rightarrow> byte list \<Rightarrow> bool"
  and jmembers :: "jnode \<Rightarrow> byte list \<Rightarrow> bool"
  and jelements :: "jnode \<Rightarrow> byte list \<Rightarrow> bool" where
  jprim: "prim_ok d \<Longrightarrow> jval (Node JSMN_PRIMITIVE (Some d) Null Null) d"
| jstring: "str_ok d \<Longrightarrow> jval (Node JSMN_STRING (Some d) Null Null) (ch_quote # d @ [ch_quote])"
| jobject: "jmembers ch s \<Longrightarrow> jval (Node JSMN_OBJECT None Null ch) (ch_lbrace # s @ [ch_rbrace])"
| jarray: "jelements ch s \<Longrightarrow> jval (Node JSMN_ARRAY None Null ch) (ch_lbrk # s @ [ch_rbrk])"
| jno_members: "is_ws w \<Longrightarrow> jmembers Null w"
| jmember: "is_ws w1 \<Longrightarrow> str_ok k \<Longrightarrow> is_ws w2 \<Longrightarrow> is_ws w3 \<Longrightarrow> jval v vt \<Longrightarrow> is_ws w4 \<Longrightarrow>
    jmembers (Node JSMN_STRING (Some k) Null v) (w1 @ ch_quote # k @ ch_quote # w2 @ ch_colon # w3 @ vt @ w4)"
| jmember_more: "is_ws w1 \<Longrightarrow> str_ok k \<Longrightarrow> is_ws w2 \<Longrightarrow> is_ws w3 \<Longrightarrow> jval v vt \<Longrightarrow> is_ws w4 \<Longrightarrow>
    jmembers rest rt \<Longrightarrow> rest \<noteq> Null \<Longrightarrow>
    jmembers (Node JSMN_STRING (Some k) rest v) (w1 @ ch_quote # k @ ch_quote # w2 @ ch_colon # w3 @ vt @ w4 @ ch_comma # rt)"
| jno_elements: "is_ws w \<Longrightarrow> jelements Null w"
| jelement: "is_ws w1 \<Longrightarrow> jval (Node ty d Null r) vt \<Longrightarrow> is_ws w2 \<Longrightarrow> jelements (Node ty d Null r) (w1 @ vt @ w2)"
| jelement_more: "is_ws w1 \<Longrightarrow> jval (Node ty d Null r) vt \<Longrightarrow> is_ws w2 \<Longrightarrow> jelements rest rt \<Longrightarrow> rest \<noteq> Null \<Longrightarrow>
    jelements (Node ty d rest r) (w1 @ vt @ w2 @ ch_comma # rt)"

subsection \<open>Single steps of the tokenizer\<close>

lemma drop_Cons_iff: "drop q xs = c # ys \<Longrightarrow> q < length xs \<and> xs ! q = c \<and> drop (Suc q) xs = ys"
  by (metis drop_Suc drop_eq_Nil2 hd_drop_conv_nth linorder_not_less list.discI list.sel(1) list.sel(3) tl_drop)

lemma drop_append_iff: "drop q xs = a @ b \<Longrightarrow> drop (q + length a) xs = b"
  by (metis add.commute append_eq_conv_conj drop_drop)

lemma tok_step_run:
  "drop q js = c # post \<Longrightarrow> c \<noteq> 0 \<Longrightarrow> tok_step js (q, ts, sp) = Inr st' \<Longrightarrow> tokenize js (q, ts, sp) = tokenize js st'"
  by (subst tokenize.simps) (auto dest: drop_Cons_iff)

lemma run_ws: "drop q js = w @ post \<Longrightarrow> is_ws w \<Longrightarrow> tokenize js (q, ts, sp) = tokenize js (q + length w, ts, sp)"
proof (induction w arbitrary: q)
  case (Cons c w)
  then have c: "drop q js = c # (w @ post)" "c \<in> {ch_tab, ch_cr, ch_nl, ch_sp}" "is_ws w" by (auto simp: is_ws_def)
  from drop_Cons_iff [OF c(1)] have q: "js ! q = c" "drop (Suc q) js = w @ post" by auto
  have "tokenize js (q, ts, sp) = tokenize js (Suc q, ts, sp)"
    using c(2) q(1) by (intro tok_step_run [OF c(1)]) (auto simp: tok_step_def)
  with Cons.IH [OF q(2) c(3)] show ?case by simp
qed simp

text \<open>What may follow a value: a byte that ends a primitive, or the end of the text.\<close>

definition ends :: "byte list \<Rightarrow> bool" where
  "ends post \<longleftrightarrow> post = [] \<or> hd post \<in> insert 0 prim_stop"

lemma prim_scan_text:
  "drop q js = d @ post \<Longrightarrow> list_all (\<lambda>c. 32 \<le> c \<and> c < 127 \<and> c \<notin> prim_stop) d \<Longrightarrow>
    ends post \<Longrightarrow> prim_scan js q = Some (q + length d)"
proof (induction d arbitrary: q)
  case Nil
  then show ?case
    by (cases post) (auto simp: ends_def prim_scan.simps [of js q] dest: drop_Cons_iff)
next
  case (Cons c d)
  then have c: "drop q js = c # (d @ post)" by simp
  from drop_Cons_iff [OF c] Cons show ?case
    by (subst prim_scan.simps) (auto simp: not_le [symmetric])
qed

lemma hex_run_text:
  "drop q js = d @ post \<Longrightarrow> length d = n \<Longrightarrow> list_all is_hex d \<Longrightarrow> hex_run js n q = Some (q + n)"
proof (induction n arbitrary: q d)
  case (Suc n)
  then obtain c d' where d: "d = c # d'" by (cases d) auto
  with Suc.prems have "drop q js = c # (d' @ post)" by simp
  from drop_Cons_iff [OF this] Suc d show ?case by (auto simp: is_hex_def)
qed simp

lemma str_scan_text: "drop q js = d @ ch_quote # post \<Longrightarrow> str_ok d \<Longrightarrow> str_scan js q = Inr (q + length d)"
proof (induction d arbitrary: q rule: str_ok.induct)
  case 1
  then show ?case by (subst str_scan.simps) (auto dest: drop_Cons_iff)
next
  case (2 c cs)
  then have c: "drop q js = c # (cs @ ch_quote # post)" "c \<noteq> 0" "c \<noteq> ch_quote" by (auto split: if_splits)
  from drop_Cons_iff [OF c(1)] have q: "q < length js" "js ! q = c" "drop (Suc q) js = cs @ ch_quote # post" by auto
  show ?case
  proof (cases "c = ch_bslash")
    case False
    with 2 c q show ?thesis by (subst str_scan.simps) simp
  next
    case True
    with "2.prems"(2) obtain e cs' where e: "cs = e # cs'" by (auto split: list.splits)
    with q(3) have "drop (Suc q) js = e # (cs' @ ch_quote # post)" by simp
    from drop_Cons_iff [OF this] have q2: "Suc q < length js" "js ! Suc q = e" "drop (Suc (Suc q)) js = cs' @ ch_quote # post"
      by auto
    show ?thesis
    proof (cases "e \<in> esc_ok")
      case True
      with \<open>c = ch_bslash\<close> "2.prems"(2) c e "2.IH"(2) [OF _ _ e] q2 q show ?thesis
        by (subst str_scan.simps) simp
    next
      case False
      with \<open>c = ch_bslash\<close> "2.prems"(2) e have u: "e = 117" "4 \<le> length cs'" "list_all is_hex (take 4 cs')" "str_ok (drop 4 cs')"
        by auto
      have "drop (q + 2) js = take 4 cs' @ (drop 4 cs' @ ch_quote # post)" using q2(3) by simp
      moreover from hex_run_text [OF this _ u(3), of 4] u(2) have "hex_run js 4 (q + 2) = Some (q + 6)" by simp
      moreover have "drop (q + 6) js = drop 4 cs' @ ch_quote # post"
        using drop_append_iff [OF calculation(1)] u(2) by (simp add: add.commute)
      ultimately show ?thesis
        using \<open>c = ch_bslash\<close> False u c e q q2 "2.IH"(3) [OF _ _ e False, of "q + 6"] by (subst str_scan.simps) simp
    qed
  qed
qed

definition sp_ok :: "int \<Rightarrow> jsmntok list \<Rightarrow> bool" where
  "sp_ok sp ts \<longleftrightarrow> sp = - 1 \<or> (0 \<le> sp \<and> nat sp < length ts)"

lemma inc_super_append: "sp_ok sp ts \<Longrightarrow> inc_super sp (ts @ us) = inc_super sp ts @ us"
  by (auto simp: sp_ok_def inc_super_def list_update_append nth_append)

lemma run_prim:
  assumes "drop q js = d @ post" "prim_ok d" "ends post" "sp_ok sp ts"
  shows "tokenize js (q, ts, sp) =
    tokenize js (q + length d, inc_super sp ts @ [mk_tok JSMN_PRIMITIVE (int q) (int (q + length d))], sp)"
proof -
  from assms(2) obtain c d' where d: "d = c # d'" by (cases d) (auto simp: prim_ok_def)
  with assms(1) have c: "drop q js = c # (d' @ post)" by simp
  have "c \<noteq> 0" "c \<notin> prim_stop" "c \<notin> {ch_lbrace, ch_lbrk, ch_quote}" using assms(2) d by (auto simp: prim_ok_def)
  moreover have "js ! q = c" using drop_Cons_iff [OF c] by simp
  moreover have "prim_scan js q = Some (q + length d)"
    using prim_scan_text [OF assms(1) _ assms(3)] assms(2) by (simp add: prim_ok_def)
  ultimately show ?thesis
    using assms(4) by (intro tok_step_run [OF c]) (auto simp: tok_step_def prim_stop_def inc_super_append)
qed

lemma run_string:
  assumes "drop q js = ch_quote # d @ ch_quote # post" "str_ok d" "sp_ok sp ts"
  shows "tokenize js (q, ts, sp) =
    tokenize js (q + length d + 2, inc_super sp ts @ [mk_tok JSMN_STRING (int q + 1) (int (q + 1 + length d))], sp)"
proof -
  have q: "js ! q = ch_quote" "drop (Suc q) js = d @ ch_quote # post" using drop_Cons_iff [OF assms(1)] by auto
  then have "str_scan js (Suc q) = Inr (Suc q + length d)" by (intro str_scan_text assms(2))
  with q(1) assms(3) show ?thesis
    by (intro tok_step_run [OF assms(1)]) (auto simp: tok_step_def inc_super_append)
qed

definition open_ch :: "jsmntype \<Rightarrow> byte" where
  "open_ch ty = (if ty = JSMN_OBJECT then ch_lbrace else ch_lbrk)"

definition close_ch :: "jsmntype \<Rightarrow> byte" where
  "close_ch ty = (if ty = JSMN_OBJECT then ch_rbrace else ch_rbrk)"

lemma run_open:
  assumes "drop q js = open_ch ty # post" "ty \<in> {JSMN_OBJECT, JSMN_ARRAY}"
  shows "tokenize js (q, ts, sp) = tokenize js (Suc q, inc_super sp ts @ [mk_tok ty (int q) (- 1)], int (length ts))"
  using assms drop_Cons_iff [OF assms(1)] by (intro tok_step_run [OF assms(1)]) (auto simp: tok_step_def open_ch_def)

definition closed_toks :: "jsmntok list \<Rightarrow> bool" where
  "closed_toks us \<longleftrightarrow> (\<forall>u \<in> set us. \<not> is_open u)"

lemma last_such_append: "\<forall>u \<in> set us. \<not> P u \<Longrightarrow> last_such P (ts @ us) = last_such P ts"
  by (induction us rule: rev_induct) (auto simp: last_such_snoc simp flip: append_assoc)

lemma last_open_inc: "last_such is_open (inc_super sp ts) = last_such is_open ts"
proof -
  have "is_open (inc_super sp ts ! i) = is_open (ts ! i)" if "i < length ts" for i
    using that by (cases "i = nat sp") (auto simp: inc_super_def is_open_def)
  then show ?thesis unfolding last_such_def by (auto intro!: find_cong)
qed

lemma last_open_at:
  "is_open c \<Longrightarrow> closed_toks us \<Longrightarrow> last_such is_open (ts @ c # us) = Some (length ts)"
  using last_such_append [of us is_open "ts @ [c]"] by (simp add: closed_toks_def last_such_snoc)

lemma run_close:
  assumes "drop q js = close_ch ty # post" "ty \<in> {JSMN_OBJECT, JSMN_ARRAY}" "is_open c" "tk_type c = ty" "closed_toks us"
  shows "tokenize js (q, ts @ c # us, sp) =
    tokenize js (Suc q, ts @ c\<lparr>tk_end := int q + 1\<rparr> # us, idx_of (- 1) (last_such is_open ts))"
  using assms drop_Cons_iff [OF assms(1)] last_open_at [OF assms(3,5), of ts]
  by (intro tok_step_run [OF assms(1)]) (auto simp: tok_step_def close_ch_def)

lemma run_colon:
  assumes "drop q js = ch_colon # post"
  shows "tokenize js (q, ts, sp) = tokenize js (Suc q, ts, int (length ts) - 1)"
  using drop_Cons_iff [OF assms] by (intro tok_step_run [OF assms]) (auto simp: tok_step_def)

lemma run_comma:
  assumes "drop q js = ch_comma # post" "is_open c" "is_cont c" "closed_toks us"
    "sp = int (length ts) \<or> (\<exists>i < length us. sp = int (length ts + 1 + i) \<and> \<not> is_cont (us ! i))"
  shows "tokenize js (q, ts @ c # us, sp) = tokenize js (Suc q, ts @ c # us, int (length ts))"
proof -
  have "last_such (\<lambda>t. is_cont t \<and> is_open t) (ts @ c # us) = Some (length ts)"
    using last_such_append [of us "\<lambda>t. is_cont t \<and> is_open t" "ts @ [c]"] assms(2-4)
    by (simp add: closed_toks_def last_such_snoc)
  moreover have "sp \<noteq> - 1 \<and> (sp = int (length ts) \<or> \<not> is_cont ((ts @ c # us) ! nat sp))"
    using assms(5) by (auto simp: nth_append nat_add_distrib)
  ultimately show ?thesis
    using assms(3) drop_Cons_iff [OF assms(1)]
    by (intro tok_step_run [OF assms(1)]) (auto simp: tok_step_def idx_of_def)
qed

subsection \<open>What tokens denote\<close>

definition den_val :: "byte list \<Rightarrow> jsmntok list \<Rightarrow> jnode \<Rightarrow> bool" where
  "den_val js ks v \<longleftrightarrow> ks \<noteq> [] \<and> (\<forall>toks t post count. drop t toks = ks @ post \<longrightarrow> int (length ks) \<le> count \<longrightarrow>
     js2tree js toks t count = Ok (length ks, Some v))"

definition den_members :: "byte list \<Rightarrow> jsmntok list \<Rightarrow> nat \<Rightarrow> jnode \<Rightarrow> bool" where
  "den_members js ks n ch \<longleftrightarrow> (\<forall>toks t post count i j. t < length toks \<longrightarrow> drop (t + 1 + j) toks = ks @ post \<longrightarrow>
     tk_size (toks ! t) = int (i + n) \<longrightarrow> int (j + length ks) \<le> count \<longrightarrow>
     obj_loop js toks t count i j = Ok (j + length ks, ch))"

definition den_elements :: "byte list \<Rightarrow> jsmntok list \<Rightarrow> nat \<Rightarrow> jnode \<Rightarrow> bool" where
  "den_elements js ks n ch \<longleftrightarrow> (\<forall>toks t post count i j. t < length toks \<longrightarrow> drop (t + 1 + j) toks = ks @ post \<longrightarrow>
     tk_size (toks ! t) = int (i + n) \<longrightarrow> int (j + length ks) \<le> count \<longrightarrow>
     arr_loop js toks t count i j = Ok (j + length ks, ch))"

lemma den_text:
  assumes "drop q js = d @ post" "ty \<in> {JSMN_STRING, JSMN_PRIMITIVE}" "tk_type k = ty" "tk_start k = int q"
    "tk_end k = int (q + length d)" "q \<le> length js"
  shows "den_val js [k] (Node ty (Some d) Null Null)"
  unfolding den_val_def
proof (intro conjI allI impI)
  fix toks t post' and count :: int
  assume "drop t toks = [k] @ post'" "int (length [k]) \<le> count"
  moreover have "length js - q = length d + length post" by (metis assms(1) length_append length_drop)
  with assms(1,6) have "q + length d \<le> length js" "take (length d) (drop q js) = d" by auto
  ultimately show "js2tree js toks t count = Ok (length [k], Some (Node ty (Some d) Null Null))"
    using assms(2-5) by (subst js2tree.simps) (auto simp: alloc_tree_node_len_def dest!: drop_Cons_iff)
qed simp

lemma den_object:
  assumes "den_members js ks n ch" "tk_type k = JSMN_OBJECT" "tk_size k = int n"
  shows "den_val js (k # ks) (Node JSMN_OBJECT None Null ch)"
  unfolding den_val_def
proof (intro conjI allI impI)
  fix toks t post and count :: int
  assume *: "drop t toks = (k # ks) @ post" "int (length (k # ks)) \<le> count"
  then have t: "t < length toks" "toks ! t = k" "drop (t + 1 + 0) toks = ks @ post" using drop_Cons_iff [of t toks k] by auto
  from t assms(3) *(2) have "obj_loop js toks t count 0 0 = Ok (0 + length ks, ch)"
    by (intro assms(1) [unfolded den_members_def, rule_format]) auto
  with t assms(2) *(2) show "js2tree js toks t count = Ok (length (k # ks), Some (Node JSMN_OBJECT None Null ch))"
    by (subst js2tree.simps) simp
qed simp

lemma den_array:
  assumes "den_elements js ks n ch" "tk_type k = JSMN_ARRAY" "tk_size k = int n"
  shows "den_val js (k # ks) (Node JSMN_ARRAY None Null ch)"
  unfolding den_val_def
proof (intro conjI allI impI)
  fix toks t post and count :: int
  assume *: "drop t toks = (k # ks) @ post" "int (length (k # ks)) \<le> count"
  then have t: "t < length toks" "toks ! t = k" "drop (t + 1 + 0) toks = ks @ post" using drop_Cons_iff [of t toks k] by auto
  from t assms(3) *(2) have "arr_loop js toks t count 0 0 = Ok (0 + length ks, ch)"
    by (intro assms(1) [unfolded den_elements_def, rule_format]) auto
  with t assms(2) *(2) show "js2tree js toks t count = Ok (length (k # ks), Some (Node JSMN_ARRAY None Null ch))"
    by (subst js2tree.simps) simp
qed simp

lemma den_nothing: "den_members js [] 0 Null" "den_elements js [] 0 Null"
  unfolding den_members_def den_elements_def
  by (auto simp: obj_loop.simps [of js] arr_loop.simps [of js])

lemma den_member:
  assumes "den_val js k (Node ty d l r)" "den_val js v vn" "den_members js ks n ch"
  shows "den_members js (k @ v @ ks) (Suc n) (Node ty d ch vn)"
  unfolding den_members_def
proof (intro allI impI)
  fix toks t post i j and count :: int
  assume *: "t < length toks" "drop (t + 1 + j) toks = (k @ v @ ks) @ post" "tk_size (toks ! t) = int (i + Suc n)"
    "int (j + length (k @ v @ ks)) \<le> count"
  have k: "js2tree js toks (t + 1 + j) (count - int j) = Ok (length k, Some (Node ty d l r))"
    using assms(1) *(2,4) unfolding den_val_def by auto
  have d1: "drop (t + 1 + (j + length k)) toks = v @ ks @ post"
    using drop_append_iff [of "t + 1 + j" toks k "v @ ks @ post"] *(2) by (simp add: add.assoc)
  then have v: "js2tree js toks (t + 1 + (j + length k)) (count - int (j + length k)) = Ok (length v, Some vn)"
    using assms(2) *(4) unfolding den_val_def by auto
  have "drop (t + 1 + (j + length k + length v)) toks = ks @ post"
    using drop_append_iff [OF d1] by (simp add: add.assoc)
  then have "obj_loop js toks t count (i + 1) (j + length k + length v) = Ok (j + length k + length v + length ks, ch)"
    using assms(3) [unfolded den_members_def, rule_format, OF *(1)] *(3,4) by auto
  with k v *(1,3) show "obj_loop js toks t count i j = Ok (j + length (k @ v @ ks), Node ty d ch vn)"
    by (subst obj_loop.simps) (simp add: add.assoc)
qed

lemma den_element:
  assumes "den_val js v (Node ty d l r)" "den_elements js ks n ch"
  shows "den_elements js (v @ ks) (Suc n) (Node ty d ch r)"
  unfolding den_elements_def
proof (intro allI impI)
  fix toks t post i j and count :: int
  assume *: "t < length toks" "drop (t + 1 + j) toks = (v @ ks) @ post" "tk_size (toks ! t) = int (i + Suc n)"
    "int (j + length (v @ ks)) \<le> count"
  have v: "js2tree js toks (t + 1 + j) (count - int j) = Ok (length v, Some (Node ty d l r))"
    using assms(1) *(2,4) unfolding den_val_def by auto
  have "drop (t + 1 + (j + length v)) toks = ks @ post"
    using drop_append_iff [of "t + 1 + j" toks v "ks @ post"] *(2) by (simp add: add.assoc)
  then have "arr_loop js toks t count (i + 1) (j + length v) = Ok (j + length v + length ks, ch)"
    using assms(2) [unfolded den_elements_def, rule_format, OF *(1)] *(3,4) by auto
  with v *(1,3) show "arr_loop js toks t count i j = Ok (j + length (v @ ks), Node ty d ch r)"
    by (subst arr_loop.simps) (simp add: add.assoc)
qed

subsection \<open>Runs over the grammar\<close>

lemma ends_ws: "is_ws w \<Longrightarrow> ends post \<Longrightarrow> ends (w @ post)"
  by (cases w) (auto simp: ends_def is_ws_def prim_stop_def)

text \<open>
  Over the text of a value the tokenizer adds tokens that denote it and counts it for the superior
  token; over the members of an object or the elements of an array it adds their tokens and counts
  them for the container \<open>c\<close>, the last open token.
\<close>

definition val_run :: "byte list \<Rightarrow> jnode \<Rightarrow> byte list \<Rightarrow> bool" where
  "val_run js v s \<longleftrightarrow> (\<forall>q post ts sp. drop q js = s @ post \<longrightarrow> ends post \<longrightarrow> sp_ok sp ts \<longrightarrow>
     (\<exists>ks. tokenize js (q, ts, sp) = tokenize js (q + length s, inc_super sp ts @ ks,
          if jn_type v \<in> {JSMN_STRING, JSMN_PRIMITIVE} then sp else idx_of (- 1) (last_such is_open ts)) \<and>
        closed_toks ks \<and> den_val js ks v))"

definition chain_run :: "(nat \<Rightarrow> jsmntok list \<Rightarrow> bool) \<Rightarrow> jsmntype \<Rightarrow> byte list \<Rightarrow> byte list \<Rightarrow> bool" where
  "chain_run den ty js s \<longleftrightarrow> (\<forall>q post ts c us. drop q js = s @ post \<longrightarrow> ends post \<longrightarrow> is_open c \<longrightarrow> tk_type c = ty \<longrightarrow>
     closed_toks us \<longrightarrow>
     (\<exists>ks n sp. tokenize js (q, ts @ c # us, int (length ts)) =
          tokenize js (q + length s, ts @ c\<lparr>tk_size := tk_size c + int n\<rparr> # us @ ks, sp) \<and>
        closed_toks ks \<and> den n ks))"

lemma val_runD:
  assumes "val_run js v s" "drop q js = s @ post" "ends post" "sp_ok sp ts"
  obtains ks where "tokenize js (q, ts, sp) = tokenize js (q + length s, inc_super sp ts @ ks,
      if jn_type v \<in> {JSMN_STRING, JSMN_PRIMITIVE} then sp else idx_of (- 1) (last_such is_open ts))"
    "closed_toks ks" "den_val js ks v"
  using assms unfolding val_run_def by blast

lemma chain_runD:
  assumes "chain_run den ty js s" "drop q js = s @ post" "ends post" "is_open c" "tk_type c = ty" "closed_toks us"
  obtains ks n sp where "tokenize js (q, ts @ c # us, int (length ts)) =
      tokenize js (q + length s, ts @ c\<lparr>tk_size := tk_size c + int n\<rparr> # us @ ks, sp)"
    "closed_toks ks" "den n ks"
  using assms unfolding chain_run_def by blast

lemma drop_le: "drop q xs = c # ys \<Longrightarrow> q \<le> length xs"
  using drop_Cons_iff [of q xs c ys] by simp

lemma prim_run: "prim_ok d \<Longrightarrow> val_run js (Node JSMN_PRIMITIVE (Some d) Null Null) d"
  unfolding val_run_def
proof (intro allI impI)
  fix q post ts sp
  assume *: "prim_ok d" "drop q js = d @ post" "ends post" "sp_ok sp ts"
  let ?k = "mk_tok JSMN_PRIMITIVE (int q) (int (q + length d))"
  have "q \<le> length js" using *(1,2) by (cases d) (auto simp: prim_ok_def intro: drop_le)
  with den_text [OF *(2), of JSMN_PRIMITIVE ?k] have "den_val js [?k] (Node JSMN_PRIMITIVE (Some d) Null Null)"
    by (simp add: mk_tok_def)
  with run_prim [OF *(2,1,3,4)] show "\<exists>ks. tokenize js (q, ts, sp) = tokenize js (q + length d, inc_super sp ts @ ks,
      if jn_type (Node JSMN_PRIMITIVE (Some d) Null Null) \<in> {JSMN_STRING, JSMN_PRIMITIVE} then sp
      else idx_of (- 1) (last_such is_open ts)) \<and> closed_toks ks \<and> den_val js ks (Node JSMN_PRIMITIVE (Some d) Null Null)"
    by (intro exI [of _ "[?k]"]) (auto simp: closed_toks_def is_open_def mk_tok_def)
qed

lemma string_den:
  assumes "drop q js = ch_quote # d @ ch_quote # post" "k = mk_tok JSMN_STRING (int q + 1) (int (q + 1 + length d))\<lparr>tk_size := z\<rparr>"
  shows "den_val js [k] (Node JSMN_STRING (Some d) Null Null)" "\<not> is_open k"
proof -
  have "drop (Suc q) js = d @ ch_quote # post" "Suc q \<le> length js"
    using drop_Cons_iff [OF assms(1)] by auto
  from den_text [OF this(1), of JSMN_STRING k] this(2) assms(2)
  show "den_val js [k] (Node JSMN_STRING (Some d) Null Null)" by (simp add: mk_tok_def)
  show "\<not> is_open k" using assms(2) by (simp add: is_open_def mk_tok_def)
qed

lemma string_run: "str_ok d \<Longrightarrow> val_run js (Node JSMN_STRING (Some d) Null Null) (ch_quote # d @ [ch_quote])"
  unfolding val_run_def
proof (intro allI impI)
  fix q post ts sp
  assume *: "str_ok d" "drop q js = (ch_quote # d @ [ch_quote]) @ post" "ends post" "sp_ok sp ts"
  let ?k = "mk_tok JSMN_STRING (int q + 1) (int (q + 1 + length d))"
  have d: "drop q js = ch_quote # d @ ch_quote # post" using *(2) by simp
  have "?k = ?k\<lparr>tk_size := 0\<rparr>" by (simp add: mk_tok_def)
  from string_den [OF d this] run_string [OF d *(1,4)]
  show "\<exists>ks. tokenize js (q, ts, sp) = tokenize js (q + length (ch_quote # d @ [ch_quote]), inc_super sp ts @ ks,
      if jn_type (Node JSMN_STRING (Some d) Null Null) \<in> {JSMN_STRING, JSMN_PRIMITIVE} then sp
      else idx_of (- 1) (last_such is_open ts)) \<and> closed_toks ks \<and> den_val js ks (Node JSMN_STRING (Some d) Null Null)"
    by (intro exI [of _ "[?k]"]) (simp add: closed_toks_def)
qed

lemma container_run:
  assumes "chain_run (\<lambda>n ks. den js ks n ch) ty js s" "ty \<in> {JSMN_OBJECT, JSMN_ARRAY}"
    "\<And>ks n k. den js ks n ch \<Longrightarrow> tk_type k = ty \<Longrightarrow> tk_size k = int n \<Longrightarrow> den_val js (k # ks) (Node ty None Null ch)"
  shows "val_run js (Node ty None Null ch) (open_ch ty # s @ [close_ch ty])"
  unfolding val_run_def
proof (intro allI impI)
  fix q post ts sp
  assume *: "drop q js = (open_ch ty # s @ [close_ch ty]) @ post" "ends post" "sp_ok sp ts"
  let ?c = "mk_tok ty (int q) (- 1)" and ?ts = "inc_super sp ts"
  have d: "drop q js = open_ch ty # (s @ close_ch ty # post)" using *(1) by simp
  from drop_Cons_iff [OF d] have d1: "drop (Suc q) js = s @ close_ch ty # post" by simp
  from drop_append_iff [OF d1] have d2: "drop (Suc q + length s) js = close_ch ty # post" .
  have e: "ends (close_ch ty # post)" by (simp add: ends_def close_ch_def prim_stop_def)
  have c: "is_open ?c" "tk_type ?c = ty" by (simp_all add: is_open_def mk_tok_def)
  obtain ks n sp' where r: "tokenize js (Suc q, ?ts @ ?c # [], int (length ?ts)) =
      tokenize js (Suc q + length s, ?ts @ ?c\<lparr>tk_size := tk_size ?c + int n\<rparr> # [] @ ks, sp')"
      "closed_toks ks" "den js ks n ch"
    by (rule chain_runD [OF assms(1) d1 e c, of "[]" ?ts]) (simp_all add: closed_toks_def)
  let ?c2 = "?c\<lparr>tk_size := tk_size ?c + int n\<rparr>" and ?e = "int (Suc q + length s) + 1"
  have c2: "is_open ?c2" "tk_type ?c2 = ty" using c by (simp_all add: is_open_def)
  have "den_val js (?c2\<lparr>tk_end := ?e\<rparr> # ks) (Node ty None Null ch)"
    by (rule assms(3) [OF r(3)]) (use c in \<open>simp_all add: mk_tok_def\<close>)
  moreover have "closed_toks (?c2\<lparr>tk_end := ?e\<rparr> # ks)" using r(2) by (simp add: closed_toks_def is_open_def)
  moreover have "tokenize js (q, ts, sp) = tokenize js (q + length (open_ch ty # s @ [close_ch ty]), ?ts @ ?c2\<lparr>tk_end := ?e\<rparr> # ks,
      idx_of (- 1) (last_such is_open ts))"
    using run_open [OF d assms(2), of ts sp] r(1) run_close [OF d2 assms(2) c2 r(2), of ?ts sp'] by (simp add: last_open_inc)
  ultimately show "\<exists>ks. tokenize js (q, ts, sp) = tokenize js (q + length (open_ch ty # s @ [close_ch ty]), ?ts @ ks,
      if jn_type (Node ty None Null ch) \<in> {JSMN_STRING, JSMN_PRIMITIVE} then sp else idx_of (- 1) (last_such is_open ts)) \<and>
      closed_toks ks \<and> den_val js ks (Node ty None Null ch)"
    using assms(2) by (intro exI [of _ "?c2\<lparr>tk_end := ?e\<rparr> # ks"]) auto
qed

lemma inc_super_at: "inc_super (int (length ts)) (ts @ c # us) = ts @ c\<lparr>tk_size := tk_size c + 1\<rparr> # us"
  by (simp add: inc_super_def)

text \<open>Where the superior token may point to when a comma follows.\<close>

definition super_ok :: "nat \<Rightarrow> jsmntok list \<Rightarrow> int \<Rightarrow> bool" where
  "super_ok n us sp \<longleftrightarrow> sp = int n \<or> (\<exists>i < length us. sp = int (n + 1 + i) \<and> \<not> is_cont (us ! i))"

lemma value_run:
  assumes "val_run js v vt" "drop q js = vt @ w @ post" "is_ws w" "ends post" "sp_ok sp ts"
  obtains ks where "tokenize js (q, ts, sp) = tokenize js (q + length vt + length w, inc_super sp ts @ ks,
      if jn_type v \<in> {JSMN_STRING, JSMN_PRIMITIVE} then sp else idx_of (- 1) (last_such is_open ts))"
    "closed_toks ks" "den_val js ks v"
  using val_runD [OF assms(1,2) ends_ws [OF assms(3,4)] assms(5)] run_ws [OF drop_append_iff [OF assms(2)] assms(3)]
  by metis

text \<open>One member or element with its white space, and the chain of them.\<close>

definition item_run :: "(jsmntok list \<Rightarrow> bool) \<Rightarrow> jsmntype \<Rightarrow> byte list \<Rightarrow> byte list \<Rightarrow> bool" where
  "item_run den ty js s \<longleftrightarrow> (\<forall>q post ts c us. drop q js = s @ post \<longrightarrow> ends post \<longrightarrow> is_open c \<longrightarrow> tk_type c = ty \<longrightarrow>
     closed_toks us \<longrightarrow>
     (\<exists>ks sp. tokenize js (q, ts @ c # us, int (length ts)) =
          tokenize js (q + length s, ts @ c\<lparr>tk_size := tk_size c + 1\<rparr> # us @ ks, sp) \<and>
        closed_toks ks \<and> den ks \<and> super_ok (length ts) (us @ ks) sp))"

lemma chain_none: "is_ws w \<Longrightarrow> den 0 [] \<Longrightarrow> chain_run den ty js w"
  unfolding chain_run_def
proof (intro allI impI)
  fix q post ts c us
  assume *: "is_ws w" "den 0 []" "drop q js = w @ post"
  show "\<exists>ks n sp. tokenize js (q, ts @ c # us, int (length ts)) =
      tokenize js (q + length w, ts @ c\<lparr>tk_size := tk_size c + int n\<rparr> # us @ ks, sp) \<and> closed_toks ks \<and> den n ks"
    using run_ws [OF *(3,1)] *(2)
    by (intro exI [of _ "[]"] exI [of _ 0] exI [of _ "int (length ts)"]) (simp add: closed_toks_def)
qed

lemma chain_single:
  assumes "item_run den1 ty js s" "\<And>ks. den1 ks \<Longrightarrow> den 1 ks"
  shows "chain_run den ty js s"
  unfolding chain_run_def
proof (intro allI impI)
  fix q post ts c us
  assume "drop q js = s @ post" "ends post" "is_open c" "tk_type c = ty" "closed_toks us"
  then obtain ks sp where "tokenize js (q, ts @ c # us, int (length ts)) =
      tokenize js (q + length s, ts @ c\<lparr>tk_size := tk_size c + 1\<rparr> # us @ ks, sp)" "closed_toks ks" "den1 ks"
    using assms(1) unfolding item_run_def by blast
  with assms(2) show "\<exists>ks n sp. tokenize js (q, ts @ c # us, int (length ts)) =
      tokenize js (q + length s, ts @ c\<lparr>tk_size := tk_size c + int n\<rparr> # us @ ks, sp) \<and> closed_toks ks \<and> den n ks"
    by (intro exI [of _ ks] exI [of _ 1] exI [of _ sp]) simp
qed

lemma chain_cons:
  assumes "item_run den1 ty js s" "chain_run den2 ty js rt" "ty \<in> {JSMN_OBJECT, JSMN_ARRAY}"
    "\<And>ks n ks2. den1 ks \<Longrightarrow> den2 n ks2 \<Longrightarrow> den (Suc n) (ks @ ks2)"
  shows "chain_run den ty js (s @ ch_comma # rt)"
  unfolding chain_run_def
proof (intro allI impI)
  fix q post ts c us
  assume *: "drop q js = (s @ ch_comma # rt) @ post" "ends post" "is_open c" "tk_type c = ty" "closed_toks us"
  let ?c = "c\<lparr>tk_size := tk_size c + 1\<rparr>"
  have e: "ends (ch_comma # rt @ post)" by (simp add: ends_def prim_stop_def)
  have d: "drop q js = s @ ch_comma # rt @ post" using *(1) by simp
  from assms(1) [unfolded item_run_def, rule_format, OF d e *(3-5), of ts] obtain ks sp where
    r: "tokenize js (q, ts @ c # us, int (length ts)) = tokenize js (q + length s, ts @ ?c # us @ ks, sp)"
    "closed_toks ks" "den1 ks" "super_ok (length ts) (us @ ks) sp" by blast
  note d1 = drop_append_iff [OF d]
  from drop_Cons_iff [OF d1] have d2: "drop (Suc (q + length s)) js = rt @ post" by simp
  have c: "is_open ?c" "tk_type ?c = ty" "is_cont ?c" "closed_toks (us @ ks)"
    using *(3-5) r(2) assms(3) by (auto simp: is_open_def is_cont_def closed_toks_def)
  have m: "tokenize js (q + length s, ts @ ?c # us @ ks, sp) =
      tokenize js (Suc (q + length s), ts @ ?c # us @ ks, int (length ts))"
    using r(4) by (intro run_comma [OF d1 c(1,3,4)]) (simp add: super_ok_def)
  obtain ks2 n sp2 where r2: "tokenize js (Suc (q + length s), ts @ ?c # us @ ks, int (length ts)) =
      tokenize js (Suc (q + length s) + length rt, ts @ ?c\<lparr>tk_size := tk_size ?c + int n\<rparr> # (us @ ks) @ ks2, sp2)"
    "closed_toks ks2" "den2 n ks2"
    by (rule chain_runD [OF assms(2) d2 *(2) c(1,2,4), of ts]) simp
  have "tokenize js (q, ts @ c # us, int (length ts)) =
      tokenize js (q + length (s @ ch_comma # rt), ts @ c\<lparr>tk_size := tk_size c + int (Suc n)\<rparr> # us @ (ks @ ks2), sp2)"
    using r(1) m r2(1) by (simp add: algebra_simps)
  moreover have "closed_toks (ks @ ks2)" using r(2) r2(2) by (auto simp: closed_toks_def)
  ultimately show "\<exists>ks n sp. tokenize js (q, ts @ c # us, int (length ts)) =
      tokenize js (q + length (s @ ch_comma # rt), ts @ c\<lparr>tk_size := tk_size c + int n\<rparr> # us @ ks, sp) \<and>
      closed_toks ks \<and> den n ks"
    using assms(4) [OF r(3) r2(3)] by blast
qed

lemma member_run:
  assumes "is_ws w1" "str_ok k" "is_ws w2" "is_ws w3" "val_run js v vt" "is_ws w4" "ends post"
    "drop q js = w1 @ ch_quote # k @ ch_quote # w2 @ ch_colon # w3 @ vt @ w4 @ post"
    "is_open c" "closed_toks us"
  obtains k1 ks sp where "tokenize js (q, ts @ c # us, int (length ts)) =
      tokenize js (q + length (w1 @ ch_quote # k @ ch_quote # w2 @ ch_colon # w3 @ vt @ w4),
        ts @ c\<lparr>tk_size := tk_size c + 1\<rparr> # us @ k1 # ks, sp)"
    "closed_toks (k1 # ks)" "den_val js [k1] (Node JSMN_STRING (Some k) Null Null)" "den_val js ks v"
    "super_ok (length ts) (us @ k1 # ks) sp"
proof -
  let ?c = "c\<lparr>tk_size := tk_size c + 1\<rparr>" and ?q = "q + length w1"
  define k0 where "k0 = mk_tok JSMN_STRING (int ?q + 1) (int (?q + 1 + length k))"
  define k1 where "k1 = k0\<lparr>tk_size := 1\<rparr>"
  let ?q2 = "?q + length k + 2" and ?ts = "ts @ ?c # us @ [k0]"
  let ?q3 = "Suc (?q2 + length w2) + length w3"
  have d1: "drop ?q js = ch_quote # k @ ch_quote # w2 @ ch_colon # w3 @ vt @ w4 @ post"
    using drop_append_iff [OF assms(8)] .
  have d2: "drop ?q2 js = w2 @ ch_colon # w3 @ vt @ w4 @ post"
    using drop_append_iff [of ?q js "ch_quote # k @ [ch_quote]"] d1 by simp
  note d3 = drop_append_iff [OF d2]
  from drop_Cons_iff [OF d3] have d4: "drop (Suc (?q2 + length w2)) js = w3 @ vt @ w4 @ post" by simp
  note d5 = drop_append_iff [OF d4]
  have k: "den_val js [k1] (Node JSMN_STRING (Some k) Null Null)" "\<not> is_open k1" "\<not> is_open k0"
    using string_den [OF d1, of k1 1] string_den(2) [OF d1, of k0 0] by (simp_all add: k1_def k0_def mk_tok_def)
  have sp: "int (length ?ts) - 1 = int (length (ts @ ?c # us))" by simp
  have s1: "tokenize js (q, ts @ c # us, int (length ts)) = tokenize js (?q2, ?ts, int (length ts))"
    using run_ws [OF assms(8,1)] run_string [OF d1 assms(2), of "int (length ts)" "ts @ c # us"]
    by (simp add: sp_ok_def inc_super_at k0_def)
  have s2: "tokenize js (?q2, ?ts, int (length ts)) = tokenize js (?q3, ?ts, int (length (ts @ ?c # us)))"
    using run_ws [OF d2 assms(3)] run_colon [OF d3] run_ws [OF d4 assms(4)] unfolding sp [symmetric] by simp
  obtain ks where v: "tokenize js (?q3, ?ts, int (length (ts @ ?c # us))) =
      tokenize js (?q3 + length vt + length w4, inc_super (int (length (ts @ ?c # us))) ?ts @ ks,
        if jn_type v \<in> {JSMN_STRING, JSMN_PRIMITIVE} then int (length (ts @ ?c # us)) else idx_of (- 1) (last_such is_open ?ts))"
      "closed_toks ks" "den_val js ks v"
    by (rule value_run [OF assms(5) d5 assms(6,7), of "int (length (ts @ ?c # us))" ?ts]) (simp_all add: sp_ok_def)
  have i: "inc_super (int (length (ts @ ?c # us))) ?ts = ts @ ?c # us @ [k1]"
    using inc_super_at [of "ts @ ?c # us" k0 "[]"] by (simp add: k1_def k0_def mk_tok_def)
  have l: "last_such is_open ?ts = Some (length ts)"
    by (rule last_open_at) (use assms(9,10) k(3) in \<open>auto simp: is_open_def closed_toks_def\<close>)
  have "super_ok (length ts) (us @ k1 # ks) (if jn_type v \<in> {JSMN_STRING, JSMN_PRIMITIVE} then int (length (ts @ ?c # us))
      else idx_of (- 1) (last_such is_open ?ts))"
    unfolding super_ok_def l by (auto simp: idx_of_def k1_def k0_def mk_tok_def is_cont_def intro!: exI [of _ "length us"])
  moreover have "closed_toks (k1 # ks)" using k(2) v(2) by (simp add: closed_toks_def)
  ultimately show thesis using s1 s2 v(1,3) k(1) i by (intro that [of k1 ks]) (simp_all add: algebra_simps)
qed

lemma member_item:
  assumes "is_ws w1" "str_ok k" "is_ws w2" "is_ws w3" "val_run js v vt" "is_ws w4"
  shows "item_run (\<lambda>ks. \<exists>k1 k2. ks = [k1] @ k2 \<and> den_val js [k1] (Node JSMN_STRING (Some k) Null Null) \<and> den_val js k2 v)
      JSMN_OBJECT js (w1 @ ch_quote # k @ ch_quote # w2 @ ch_colon # w3 @ vt @ w4)" (is "item_run _ _ _ ?s")
  unfolding item_run_def
proof (intro allI impI)
  fix q post ts c us
  assume *: "drop q js = ?s @ post" "ends post" "is_open c" "closed_toks us"
  obtain k1 ks sp where "tokenize js (q, ts @ c # us, int (length ts)) =
      tokenize js (q + length ?s, ts @ c\<lparr>tk_size := tk_size c + 1\<rparr> # us @ k1 # ks, sp)"
    "closed_toks (k1 # ks)" "den_val js [k1] (Node JSMN_STRING (Some k) Null Null)" "den_val js ks v"
    "super_ok (length ts) (us @ k1 # ks) sp"
    by (rule member_run [OF assms *(2) _ *(3,4), of q ts]) (use *(1) in simp_all)
  then show "\<exists>ks sp. tokenize js (q, ts @ c # us, int (length ts)) =
      tokenize js (q + length ?s, ts @ c\<lparr>tk_size := tk_size c + 1\<rparr> # us @ ks, sp) \<and> closed_toks ks \<and>
      (\<exists>k1 k2. ks = [k1] @ k2 \<and> den_val js [k1] (Node JSMN_STRING (Some k) Null Null) \<and> den_val js k2 v) \<and>
      super_ok (length ts) (us @ ks) sp"
    by (intro exI [of _ "k1 # ks"] exI [of _ sp]) auto
qed

lemma element_item:
  assumes "is_ws w1" "val_run js v vt" "is_ws w2"
  shows "item_run (\<lambda>ks. den_val js ks v) JSMN_ARRAY js (w1 @ vt @ w2)" (is "item_run _ _ _ ?s")
  unfolding item_run_def
proof (intro allI impI)
  fix q post ts c us
  assume *: "drop q js = ?s @ post" "ends post" "is_open c" "closed_toks us"
  have d: "drop q js = w1 @ vt @ w2 @ post" using *(1) by simp
  obtain ks where v: "tokenize js (q + length w1, ts @ c # us, int (length ts)) =
      tokenize js (q + length w1 + length vt + length w2, inc_super (int (length ts)) (ts @ c # us) @ ks,
        if jn_type v \<in> {JSMN_STRING, JSMN_PRIMITIVE} then int (length ts) else idx_of (- 1) (last_such is_open (ts @ c # us)))"
      "closed_toks ks" "den_val js ks v"
    by (rule value_run [OF assms(2) drop_append_iff [OF d] assms(3) *(2), of "int (length ts)" "ts @ c # us"])
      (simp_all add: sp_ok_def)
  with run_ws [OF d assms(1)] last_open_at [OF *(3,4), of ts]
  show "\<exists>ks sp. tokenize js (q, ts @ c # us, int (length ts)) =
      tokenize js (q + length ?s, ts @ c\<lparr>tk_size := tk_size c + 1\<rparr> # us @ ks, sp) \<and> closed_toks ks \<and> den_val js ks v \<and>
      super_ok (length ts) (us @ ks) sp"
    by (intro exI [of _ ks] exI [of _ "int (length ts)"]) (simp add: inc_super_at super_ok_def idx_of_def add.assoc split: if_splits)
qed

lemma grammar_run:
  "jval v s \<Longrightarrow> val_run js v s"
  "jmembers ch s \<Longrightarrow> chain_run (\<lambda>n ks. den_members js ks n ch) JSMN_OBJECT js s"
  "jelements ch s \<Longrightarrow> chain_run (\<lambda>n ks. den_elements js ks n ch) JSMN_ARRAY js s"
proof (induction rule: jval_jmembers_jelements.inducts)
  case (jobject ch s)
  then show ?case
    using container_run [where den = den_members and ty = JSMN_OBJECT, OF jobject.IH] den_object
    by (simp add: open_ch_def close_ch_def)
next
  case (jarray ch s)
  then show ?case
    using container_run [where den = den_elements and ty = JSMN_ARRAY, OF jarray.IH] den_array
    by (simp add: open_ch_def close_ch_def)
next
  case (jmember w1 k w2 w3 v vt w4)
  from member_item [OF jmember.hyps(1-4) jmember.IH jmember.hyps(6)] show ?case
    by (rule chain_single) (auto dest: den_member [OF _ _ den_nothing(1)])
next
  case (jmember_more w1 k w2 w3 v vt w4 rest rt)
  from chain_cons [OF member_item [OF jmember_more.hyps(1-4) jmember_more.IH(1) jmember_more.hyps(6)] jmember_more.IH(2),
      of "\<lambda>n ks. den_members js ks n (Node JSMN_STRING (Some k) rest v)"]
  show ?case using den_member by fastforce
next
  case (jelement w1 ty d r vt w2)
  from element_item [OF jelement.hyps(1) jelement.IH jelement.hyps(3)] show ?case
    by (rule chain_single) (auto dest: den_element [OF _ den_nothing(2)])
next
  case (jelement_more w1 ty d r vt w2 rest rt)
  from chain_cons [OF element_item [OF jelement_more.hyps(1) jelement_more.IH(1) jelement_more.hyps(3)] jelement_more.IH(2),
      of "\<lambda>n ks. den_elements js ks n (Node ty d rest r)"]
  show ?case using den_element by fastforce
qed (auto intro: prim_run string_run chain_none den_nothing)

subsection \<open>Texts\<close>

text \<open>A text denotes a tree: white space around it is allowed, and it ends with the array or at a zero.\<close>

definition json_text :: "byte list \<Rightarrow> jnode \<Rightarrow> bool" where
  "json_text js v \<longleftrightarrow> (\<exists>w1 s w2 post. js = w1 @ s @ w2 @ post \<and> is_ws w1 \<and> is_ws w2 \<and> jval v s \<and>
     (post = [] \<or> hd post = 0))"

lemma text_tokens:
  assumes "json_text js v"
  shows "\<exists>ks q sp. tokenize js (0, [], - 1) = (int (length ks), q, ks, sp) \<and> den_val js ks v"
proof -
  from assms obtain w1 s w2 post where js: "js = w1 @ s @ w2 @ post" "is_ws w1" "is_ws w2" "jval v s" "post = [] \<or> hd post = 0"
    unfolding json_text_def by blast
  let ?q = "0 + length w1"
  have d: "drop 0 js = w1 @ s @ w2 @ post" using js(1) by simp
  have e: "ends post" using js(5) by (auto simp: ends_def)
  obtain ks where r: "tokenize js (?q, [], - 1) = tokenize js (?q + length s + length w2, inc_super (- 1) [] @ ks,
      if jn_type v \<in> {JSMN_STRING, JSMN_PRIMITIVE} then - 1 else idx_of (- 1) (last_such is_open []))"
    "closed_toks ks" "den_val js ks v"
    by (rule value_run [OF grammar_run(1) [OF js(4), of js] drop_append_iff [OF d] js(3) e, of "- 1" "[]"]) (simp_all add: sp_ok_def)
  let ?e = "?q + length s + length w2"
  have "drop ?e js = post" using js(1) by simp
  then have "\<not> (?e < length js \<and> js ! ?e \<noteq> 0)" using js(5) by (cases post) (auto dest: drop_Cons_iff)
  moreover have "last_such is_open ks = None" using r(2) by (auto simp: closed_toks_def last_such_None_iff)
  ultimately have "tokenize js (?e, ks, - 1) = (int (length ks), ?e, ks, - 1)" by (subst tokenize.simps) auto
  with r run_ws [OF d js(2)] have "tokenize js (0, [], - 1) = (int (length ks), ?e, ks, - 1)"
    by (simp add: inc_super_def idx_of_def split: if_splits)
  with r(3) show ?thesis by blast
qed

end
