(* ===== verification/Json_Print.thy ===== *)
theory Json_Print
  imports Json_Text
begin

text \<open>
  What tree2js prints: the text of a tree, that the text denotes the tree, and that the printer
  stores exactly this text.
\<close>

subsection \<open>Well formed trees and their text\<close>

function wf_node :: "jnode \<Rightarrow> bool"
  and wf_members :: "jnode \<Rightarrow> bool"
  and wf_elements :: "jnode \<Rightarrow> bool" where
  "wf_node n =
     (case n of
        Null \<Rightarrow> False
      | Node ty d l r \<Rightarrow>
          (case ty of
             JSMN_PRIMITIVE \<Rightarrow> d \<noteq> None \<and> prim_ok (the d) \<and> r = Null
           | JSMN_STRING \<Rightarrow> d \<noteq> None \<and> str_ok (the d) \<and> r = Null
           | JSMN_OBJECT \<Rightarrow> d = None \<and> wf_members r
           | JSMN_ARRAY \<Rightarrow> d = None \<and> wf_elements r
           | JSMN_UNDEFINED \<Rightarrow> False))"
| "wf_members n =
     (case n of
        Null \<Rightarrow> True
      | Node ty d l r \<Rightarrow> ty = JSMN_STRING \<and> d \<noteq> None \<and> str_ok (the d) \<and> wf_node r \<and> jn_l r = Null \<and> wf_members l)"
| "wf_elements n = (case n of Null \<Rightarrow> True | Node ty d l r \<Rightarrow> wf_node (Node ty d l r) \<and> wf_elements l)"
  by pat_completeness auto
termination
  by (relation "measure (\<lambda>x. case x of Inl t \<Rightarrow> 2 * size t | Inr (Inl t) \<Rightarrow> 2 * size t + 1 | Inr (Inr t) \<Rightarrow> 2 * size t + 1)") auto

function js_text :: "jnode \<Rightarrow> nat \<Rightarrow> byte list"
  and members_text :: "jnode \<Rightarrow> nat \<Rightarrow> byte list"
  and elements_text :: "jnode \<Rightarrow> nat \<Rightarrow> byte list" where
  "js_text n ind =
     (case n of
        Null \<Rightarrow> []
      | Node ty d l r \<Rightarrow>
          (case ty of
             JSMN_PRIMITIVE \<Rightarrow> the d
           | JSMN_STRING \<Rightarrow> ch_quote # the d @ [ch_quote]
           | JSMN_OBJECT \<Rightarrow> [ch_lbrace, ch_nl] @ members_text r (ind + 1) @ replicate ind ch_tab @ [ch_rbrace]
           | JSMN_ARRAY \<Rightarrow> [ch_lbrk, ch_nl] @ elements_text r (ind + 1) @ replicate ind ch_tab @ [ch_rbrk]
           | JSMN_UNDEFINED \<Rightarrow> []))"
| "members_text n ind =
     (case n of
        Null \<Rightarrow> []
      | Node ty d l r \<Rightarrow> replicate ind ch_tab @ js_text (Node ty d l r) ind @ [ch_colon] @ js_text r ind @
          (if l \<noteq> Null then [ch_comma] else []) @ [ch_nl] @ members_text l ind)"
| "elements_text n ind =
     (case n of
        Null \<Rightarrow> []
      | Node ty d l r \<Rightarrow> replicate ind ch_tab @ js_text (Node ty d l r) ind @
          (if l \<noteq> Null then [ch_comma] else []) @ [ch_nl] @ elements_text l ind)"
  by pat_completeness auto
termination
  by (relation "measure (\<lambda>x. case x of
      Inl (t, _) \<Rightarrow> 2 * size t | Inr (Inl (t, _)) \<Rightarrow> 2 * size t + 1 | Inr (Inr (t, _)) \<Rightarrow> 2 * size t + 1)") auto

declare wf_node.simps [simp del] wf_members.simps [simp del] wf_elements.simps [simp del]
  js_text.simps [simp del] members_text.simps [simp del] elements_text.simps [simp del]

lemmas print_eqs = wf_node.simps [of Null, simplified] wf_node.simps [of "Node ty d l r" for ty d l r, simplified]
  wf_members.simps [of Null, simplified] wf_members.simps [of "Node ty d l r" for ty d l r, simplified]
  wf_elements.simps [of Null, simplified] wf_elements.simps [of "Node ty d l r" for ty d l r, simplified]
  js_text.simps [of Null, simplified] js_text.simps [of "Node ty d l r" for ty d l r, simplified]
  members_text.simps [of Null, simplified] members_text.simps [of "Node ty d l r" for ty d l r, simplified]
  elements_text.simps [of Null, simplified] elements_text.simps [of "Node ty d l r" for ty d l r, simplified]

definition unlink :: "jnode \<Rightarrow> jnode" where
  "unlink n = (case n of Null \<Rightarrow> Null | Node ty d l r \<Rightarrow> Node ty d Null r)"

lemma is_ws_simps [simp]: "is_ws []" "is_ws (a @ b) \<longleftrightarrow> is_ws a \<and> is_ws b" "is_ws (ch_nl # a) \<longleftrightarrow> is_ws a"
    "is_ws (replicate n ch_tab)"
  by (auto simp: is_ws_def list_all_iff)

text \<open>The printed text is one of the texts of the tree.\<close>

lemma printed_text:
  "wf_node n \<Longrightarrow> jval (unlink n) (js_text n ind)"
  "wf_members n \<Longrightarrow> is_ws w \<Longrightarrow> is_ws w' \<Longrightarrow> jmembers n (w @ members_text n ind @ w')"
  "wf_elements n \<Longrightarrow> is_ws w \<Longrightarrow> is_ws w' \<Longrightarrow> jelements n (w @ elements_text n ind @ w')"
proof (induction n ind and n ind and n ind arbitrary: and w w' and w w' rule: js_text_members_text_elements_text.induct)
  case (1 n ind)
  obtain ty d l r where n: "n = Node ty d l r" using "1.prems" by (cases n) (auto simp: print_eqs)
  show ?case
  proof (cases ty)
    case JSMN_OBJECT
    with 1(3) n have "wf_members r" "d = None" by (simp_all add: print_eqs)
    with 1(1) [OF n JSMN_OBJECT, of "[ch_nl]" "replicate ind ch_tab"] JSMN_OBJECT n
      jobject [of r "[ch_nl] @ members_text r (ind + 1) @ replicate ind ch_tab"]
    show ?thesis by (simp add: print_eqs unlink_def)
  next
    case JSMN_ARRAY
    with 1(3) n have "wf_elements r" "d = None" by (simp_all add: print_eqs)
    with 1(2) [OF n JSMN_ARRAY, of "[ch_nl]" "replicate ind ch_tab"] JSMN_ARRAY n
      jarray [of r "[ch_nl] @ elements_text r (ind + 1) @ replicate ind ch_tab"]
    show ?thesis by (simp add: print_eqs unlink_def)
  qed (use 1(3) n in \<open>auto simp: print_eqs unlink_def intro: jprim jstring\<close>)
next
  case (2 n ind w w')
  show ?case
  proof (cases n)
    case Null
    with "2.prems" show ?thesis by (auto simp: print_eqs intro: jno_members)
  next
    case (Node ty d l r)
    with "2.prems"(1) obtain k where k: "ty = JSMN_STRING" "d = Some k" "str_ok k" "wf_node r" "jn_l r = Null" "wf_members l"
      by (auto simp: print_eqs)
    then have v: "jval r (js_text r ind)" using "2.IH"(2) [OF Node] by (cases r) (auto simp: unlink_def)
    have t: "js_text n ind = ch_quote # k @ [ch_quote]" using Node k by (simp add: print_eqs)
    show ?thesis
    proof (cases "l = Null")
      case True
      with jmember [of "w @ replicate ind ch_tab" k "[]" "[]" r "js_text r ind" "[ch_nl] @ w'"] k v t Node "2.prems"
      show ?thesis by (simp add: print_eqs)
    next
      case False
      have "jmembers l ([ch_nl] @ members_text l ind @ w')" by (rule "2.IH"(3) [OF Node k(6)]) (use "2.prems" in simp_all)
      with jmember_more [of "w @ replicate ind ch_tab" k "[]" "[]" r "js_text r ind" "[]" l] k v t Node "2.prems" False
      show ?thesis by (simp add: print_eqs)
    qed
  qed
next
  case (3 n ind w w')
  show ?case
  proof (cases n)
    case Null
    with "3.prems" show ?thesis by (auto simp: print_eqs intro: jno_elements)
  next
    case (Node ty d l r)
    with "3.prems"(1) have k: "wf_node n" "wf_elements l" by (auto simp: print_eqs)
    then have v: "jval (Node ty d Null r) (js_text n ind)" using "3.IH"(1) [OF Node] Node by (auto simp: unlink_def)
    show ?thesis
    proof (cases "l = Null")
      case True
      with jelement [of "w @ replicate ind ch_tab" ty d r "js_text n ind" "[ch_nl] @ w'"] v Node "3.prems"
      show ?thesis by (simp add: print_eqs)
    next
      case False
      have "jelements l ([ch_nl] @ elements_text l ind @ w')" by (rule "3.IH"(2) [OF Node k(2)]) (use "3.prems" in simp_all)
      with jelement_more [of "w @ replicate ind ch_tab" ty d r "js_text n ind" "[]" l] v Node "3.prems" False
      show ?thesis by (simp add: print_eqs)
    qed
  qed
qed

subsection \<open>What the printer stores\<close>

text \<open>The state of the writer after the text \<open>x\<close>, and that a text fits with its terminating zero.\<close>

definition emit :: "byte list option \<Rightarrow> nat \<Rightarrow> byte list \<Rightarrow> nat \<times> byte list option" where
  "emit out off x = (length x, map_option (put_bytes off (x @ [0])) out)"

definition room :: "byte list option \<Rightarrow> nat \<Rightarrow> int \<Rightarrow> byte list \<Rightarrow> bool" where
  "room out off outlen x \<longleftrightarrow> (\<forall>b. out = Some b \<longrightarrow> int (length x) < outlen \<and> off + length x < length b)"

lemma room_prefix: "room out off outlen (x @ y) \<Longrightarrow> room out off outlen x"
  by (auto simp: room_def)

lemma put_over: "off + length x + length y < length b \<Longrightarrow>
    put_bytes (off + length x) (y @ [0]) (put_bytes off (x @ [0]) b) = put_bytes off (x @ y @ [0]) b"
  by (simp add: put_bytes_def take_append drop_append ac_simps)

lemma emit_emit:
  assumes "room out off outlen (x @ y)"
  shows "emit (snd (emit out off x)) (off + length x) y = (length y, snd (emit out off (x @ y)))"
    "room (snd (emit out off x)) (off + length x) (outlen - int (length x)) y"
proof -
  show "emit (snd (emit out off x)) (off + length x) y = (length y, snd (emit out off (x @ y)))"
    using assms put_over [of off x y] by (cases out) (simp_all add: emit_def room_def)
  show "room (snd (emit out off x)) (off + length x) (outlen - int (length x)) y"
    using assms by (cases out) (simp_all add: emit_def room_def)
qed

lemma snprintf_emit:
  assumes "room out off outlen s"
  shows "snprintf_at out off (if out = None then 0 else outlen) s = Ok (emit out off s)"
proof (cases out)
  case (Some b)
  with assms have "0 < outlen" "length s < nat outlen" "off + length (s @ [0]) \<le> length b" by (auto simp: room_def)
  with Some show ?thesis using poke_all_eq [of off "s @ [0]" b] by (simp add: snprintf_at_def emit_def)
qed (simp add: snprintf_at_def emit_def)

lemma ins_first: "room out off outlen s \<Longrightarrow> ins off outlen s (0, out) = Ok (emit out off s)"
  by (simp add: ins_def tree2js_insert_string_def snprintf_emit split: prod.splits)

lemma ins_emit:
  assumes "room out off outlen (x @ s)"
  shows "ins off outlen s (emit out off x) = Ok (emit out off (x @ s))"
proof -
  have "emit out off x = (length x, snd (emit out off x))" by (simp add: emit_def)
  moreover have "tree2js_insert_string (snd (emit out off x)) (off + length x) (outlen - int (length x)) s =
      Ok (length s, snd (emit out off (x @ s)))"
    unfolding tree2js_insert_string_def snprintf_emit [OF emit_emit(2) [OF assms]] emit_emit(1) [OF assms] ..
  moreover have "emit out off (x @ s) = (length x + length s, snd (emit out off (x @ s)))" by (simp add: emit_def)
  ultimately show ?thesis unfolding ins_def by (metis (no_types, lifting) case_prod_conv out_bind.simps(1))
qed

lemma tabs_emit:
  "room out off outlen (x @ replicate n ch_tab) \<Longrightarrow>
    ins_tabs off outlen n (emit out off x) = Ok (emit out off (x @ replicate n ch_tab))"
proof (induction n arbitrary: x)
  case (Suc n)
  then have "room out off outlen ((x @ [ch_tab]) @ replicate n ch_tab)" by simp
  with Suc.IH [OF this] room_prefix [OF this] show ?case by (simp add: ins_emit)
qed simp

lemma tree_emit:
  assumes "tree2js_insert_tree t (snd (emit out off x)) (off + length x) (outlen - int (length x)) ind =
      Ok (emit (snd (emit out off x)) (off + length x) y)" "room out off outlen (x @ y)"
  shows "out_bind (tree2js_insert_tree t (snd (emit out off x)) (off + length x) (outlen - int (length x)) ind) (add_len (length x)) =
    Ok (emit out off (x @ y))"
  unfolding assms(1) emit_emit(1) [OF assms(2)] by (simp add: add_len_def emit_def)

lemma emit_parts: "emit out off x = (length x, snd (emit out off x))"
  by (simp add: emit_def)

lemma room_outlen: "room out off outlen x \<Longrightarrow> room out off (if out = None then 0 else outlen) x"
  by (auto simp: room_def)

lemma text_emits:
  "room out off outlen (js_text (Node JSMN_STRING (Some k) l r) ind) \<Longrightarrow>
    tree2js (Node JSMN_STRING (Some k) l r) out off outlen ind = Ok (emit out off (js_text (Node JSMN_STRING (Some k) l r) ind))"
  "room out off outlen (js_text (Node JSMN_PRIMITIVE (Some k) l r) ind) \<Longrightarrow>
    tree2js (Node JSMN_PRIMITIVE (Some k) l r) out off outlen ind = Ok (emit out off (js_text (Node JSMN_PRIMITIVE (Some k) l r) ind))"
  by (simp_all add: tree2js.simps [of "Node ty d l r" for ty d l r] print_eqs Let_def snprintf_emit)

text \<open>Between the brackets of a container: the loop over its chain, the tabs, the closing bracket.\<close>

lemma container_emits:
  assumes "room out off outlen ([c1, ch_nl] @ s @ replicate ind ch_tab @ [c2])"
    "\<And>x outlen'. r \<noteq> Null \<Longrightarrow> room out off outlen' (x @ s) \<Longrightarrow> loop off outlen' (emit out off x) = Ok (emit out off (x @ s))"
    "r = Null \<Longrightarrow> s = []"
  shows "out_bind (ins off (if out = None then 0 else outlen) [c1, ch_nl] (0, out)) (\<lambda>st.
      out_bind (if r = Null then Ok st else loop off (if out = None then 0 else outlen) st) (\<lambda>st.
      out_bind (ins_tabs off (if out = None then 0 else outlen) ind st) (ins off (if out = None then 0 else outlen) [c2]))) =
    Ok (emit out off ([c1, ch_nl] @ s @ replicate ind ch_tab @ [c2]))"
proof -
  let ?o = "if out = None then 0 else outlen"
  have r4: "room out off ?o ((([c1, ch_nl] @ s) @ replicate ind ch_tab) @ [c2])" using room_outlen [OF assms(1)] by simp
  note r3 = room_prefix [OF r4] 
  note r2 = room_prefix [OF r3]
  note r1 = room_prefix [OF r2]
  have "(if r = Null then Ok (emit out off [c1, ch_nl]) else loop off ?o (emit out off [c1, ch_nl])) = Ok (emit out off ([c1, ch_nl] @ s))"
    using assms(2) [OF _ r2] assms(3) by auto
  with ins_first [OF r1] tabs_emit [OF r3] ins_emit [OF r4] show ?thesis by simp
qed

lemma step_emits:
  assumes "room out off outlen (x @ js_text n ind)" "n \<noteq> Null"
    "\<And>out off outlen. room out off outlen (js_text n ind) \<Longrightarrow> tree2js n out off outlen ind = Ok (emit out off (js_text n ind))"
  shows "out_bind (tree2js_insert_tree n (snd (emit out off x)) (off + length x) (outlen - int (length x)) ind) (add_len (length x)) =
    Ok (emit out off (x @ js_text n ind))"
  using assms emit_emit(2) [OF assms(1)]
  by (intro tree_emit assms(1)) (simp add: tree2js_insert_tree.simps)

lemma tail_emits:
  assumes "room out off outlen (x @ (if l \<noteq> Null then [ch_comma] else []) @ [ch_nl] @ s)" "l = Null \<Longrightarrow> s = []"
    "\<And>x. l \<noteq> Null \<Longrightarrow> room out off outlen (x @ s) \<Longrightarrow> loop (emit out off x) = Ok (emit out off (x @ s))"
  shows "out_bind (if l \<noteq> Null then ins off outlen [ch_comma] (emit out off x) else Ok (emit out off x)) (\<lambda>st.
      out_bind (ins off outlen [ch_nl] st) (\<lambda>st. if l \<noteq> Null then loop st else Ok st)) =
    Ok (emit out off (x @ (if l \<noteq> Null then [ch_comma] else []) @ [ch_nl] @ s))"
proof (cases "l = Null")
  case True
  with assms show ?thesis by (simp add: ins_emit)
next
  case False
  then have r: "room out off outlen (((x @ [ch_comma]) @ [ch_nl]) @ s)" using assms(1) by simp
  with False assms(3) [OF False r] ins_emit [OF room_prefix [OF r]] ins_emit [OF room_prefix [OF room_prefix [OF r]]]
  show ?thesis by simp
qed

lemma printer_emits:
  "wf_node n \<Longrightarrow> room out off outlen (js_text n ind) \<Longrightarrow> tree2js n out off outlen ind = Ok (emit out off (js_text n ind))"
  "wf_members n \<Longrightarrow> n \<noteq> Null \<Longrightarrow> room out off outlen (x @ members_text n ind) \<Longrightarrow>
    object_loop n off outlen ind (emit out off x) = Ok (emit out off (x @ members_text n ind))"
  "wf_elements n \<Longrightarrow> n \<noteq> Null \<Longrightarrow> room out off outlen (x @ elements_text n ind) \<Longrightarrow>
    array_loop n off outlen ind (emit out off x) = Ok (emit out off (x @ elements_text n ind))"
proof (induction n ind and n ind and n ind arbitrary: out off outlen and out off outlen x and out off outlen x
    rule: js_text_members_text_elements_text.induct)
  case (1 n ind)
  obtain ty d l r where n: "n = Node ty d l r" using "1.prems" by (cases n) (auto simp: print_eqs)
  show ?case
  proof (cases ty)
    case JSMN_OBJECT
    have "js_text n ind = [ch_lbrace, ch_nl] @ members_text r (ind + 1) @ replicate ind ch_tab @ [ch_rbrace]" "wf_members r"
      using "1.prems"(1) n JSMN_OBJECT by (simp_all add: print_eqs)
    with container_emits [of out off outlen ch_lbrace "members_text r (ind + 1)" ind ch_rbrace r
        "\<lambda>off outlen. object_loop r off outlen (ind + 1)"] "1.IH"(1) [OF n JSMN_OBJECT] "1.prems"(2)
    show ?thesis unfolding n JSMN_OBJECT by (cases out) (simp_all add: tree2js.simps [of "Node JSMN_OBJECT d l r"] tree2js_walk_object.simps print_eqs cong: if_cong)
  next
    case JSMN_ARRAY
    have "js_text n ind = [ch_lbrk, ch_nl] @ elements_text r (ind + 1) @ replicate ind ch_tab @ [ch_rbrk]" "wf_elements r"
      using "1.prems"(1) n JSMN_ARRAY by (simp_all add: print_eqs)
    with container_emits [of out off outlen ch_lbrk "elements_text r (ind + 1)" ind ch_rbrk r
        "\<lambda>off outlen. array_loop r off outlen (ind + 1)"] "1.IH"(2) [OF n JSMN_ARRAY] "1.prems"(2)
    show ?thesis unfolding n JSMN_ARRAY by (cases out) (simp_all add: tree2js.simps [of "Node JSMN_ARRAY d l r"] tree2js_walk_array.simps print_eqs cong: if_cong)
  qed (use "1.prems" n text_emits in \<open>auto simp: print_eqs (2)\<close>)
next
  case (2 n ind)
  obtain ty d l r where n: "n = Node ty d l r" using "2.prems"(2) by (cases n) auto
  with "2.prems"(1) obtain k where k: "ty = JSMN_STRING" "d = Some k" "wf_node r" "wf_members l" by (auto simp: print_eqs)
  from k(3) have "r \<noteq> Null" by (auto simp: print_eqs)
  let ?x1 = "x @ replicate ind ch_tab" and ?m = "members_text l ind"
  let ?x2 = "?x1 @ js_text n ind"
  let ?x3 = "(?x2 @ [ch_colon]) @ js_text r ind"
  have t: "x @ members_text n ind = ?x3 @ (if l \<noteq> Null then [ch_comma] else []) @ [ch_nl] @ ?m"
    using n by (simp add: members_text.simps [of "Node ty d l r"])
  have r4: "room out off outlen (?x3 @ (if l \<noteq> Null then [ch_comma] else []) @ [ch_nl] @ ?m)" using "2.prems"(3) t by simp
  note r3 = room_prefix [OF r4] note r2 = room_prefix [OF r3]
  note r1 = room_prefix [OF r2] note r0 = room_prefix [OF r1]
  have s1: "out_bind (tree2js_insert_tree n (snd (emit out off ?x1)) (off + length ?x1) (outlen - int (length ?x1)) ind) (add_len (length ?x1)) =
      Ok (emit out off ?x2)"
    using n k(1,2) by (intro step_emits [OF r1]) (simp_all add: text_emits)
  have s2: "out_bind (tree2js_insert_tree r (snd (emit out off (?x2 @ [ch_colon]))) (off + length (?x2 @ [ch_colon]))
      (outlen - int (length (?x2 @ [ch_colon]))) ind) (add_len (length (?x2 @ [ch_colon]))) = Ok (emit out off ?x3)"
    by (rule step_emits [OF r3 \<open>r \<noteq> Null\<close>]) (rule "2.IH"(2) [OF n k(3)])
  have s3: "out_bind (if l \<noteq> Null then ins off outlen [ch_comma] (emit out off ?x3) else Ok (emit out off ?x3)) (\<lambda>st.
      out_bind (ins off outlen [ch_nl] st) (\<lambda>st. if l \<noteq> Null then object_loop l off outlen ind st else Ok st)) =
    Ok (emit out off (?x3 @ (if l \<noteq> Null then [ch_comma] else []) @ [ch_nl] @ ?m))"
    using "2.IH"(3) [OF n k(4)] by (intro tail_emits [OF r4]) (simp_all add: print_eqs)
  show ?case
    unfolding t
    apply (subst object_loop.simps)
    apply (simp only: n jnode.case)
    apply (simp only: tabs_emit [OF r0] out_bind.simps n [symmetric])
    apply (subst emit_parts [of out off ?x1])
    apply (simp only: prod.case s1 out_bind.simps ins_emit [OF r2])
    apply (subst emit_parts [of out off "?x2 @ [ch_colon]"])
    apply (simp only: prod.case s2 out_bind.simps s3)
    done
next
  case (3 n ind)
  obtain ty d l r where n: "n = Node ty d l r" using "3.prems"(2) by (cases n) auto
  with "3.prems"(1) have k: "wf_node n" "wf_elements l" by (auto simp: wf_elements.simps [of "Node ty d l r"])
  let ?x1 = "x @ replicate ind ch_tab" and ?m = "elements_text l ind"
  let ?x2 = "?x1 @ js_text n ind"
  have t: "x @ elements_text n ind = ?x2 @ (if l \<noteq> Null then [ch_comma] else []) @ [ch_nl] @ ?m"
    using n by (simp add: elements_text.simps [of "Node ty d l r"])
  have r2: "room out off outlen (?x2 @ (if l \<noteq> Null then [ch_comma] else []) @ [ch_nl] @ ?m)" using "3.prems"(3) t by simp
  note r1 = room_prefix [OF r2] note r0 = room_prefix [OF r1]
  have s1: "out_bind (tree2js_insert_tree n (snd (emit out off ?x1)) (off + length ?x1) (outlen - int (length ?x1)) ind) (add_len (length ?x1)) =
      Ok (emit out off ?x2)"
    using n by (intro step_emits [OF r1]) (use "3.IH"(1) [OF n] k(1) in auto)
  have s2: "out_bind (if l \<noteq> Null then ins off outlen [ch_comma] (emit out off ?x2) else Ok (emit out off ?x2)) (\<lambda>st.
      out_bind (ins off outlen [ch_nl] st) (\<lambda>st. if l \<noteq> Null then array_loop l off outlen ind st else Ok st)) =
    Ok (emit out off (?x2 @ (if l \<noteq> Null then [ch_comma] else []) @ [ch_nl] @ ?m))"
    using "3.IH"(2) [OF n k(2)] by (intro tail_emits [OF r2]) (simp_all add: print_eqs)
  show ?case
    unfolding t
    apply (subst array_loop.simps)
    apply (simp only: n jnode.case)
    apply (simp only: tabs_emit [OF r0] out_bind.simps n [symmetric])
    apply (subst emit_parts [of out off ?x1])
    apply (simp only: prod.case s1 out_bind.simps s2)
    done
qed

end
