(* ===== verification/Ssl_Cfg.thy ===== *)
theory Ssl_Cfg
  imports Json_Print
begin

text \<open>
  daemon/vcom_load_sslcfg.h: reading the TLS settings from a JSON file.
\<close>

subsection \<open>The model\<close>

record vc_ssl_cfg =
  sc_password :: "byte list option"
  sc_rootca :: "byte list option"
  sc_keyfile :: "byte list option"
  sc_accept_expired_key :: int

text \<open>The directory of the file, with its slash; None is the null pointer.\<close>

definition create_cfg_cwd :: "byte list \<Rightarrow> byte list option" where
  "create_cfg_cwd f =
     (let wd = rev (dropWhile (\<lambda>c. c \<noteq> ch_slash) (rev f))
      in if wd = [] then None else Some wd)"

text \<open>
  The loop that doubles the array of tokens until the text fits. \<open>junk\<close> is what fresh memory holds,
  \<open>mem n\<close> whether realloc_it gets room for \<open>n\<close> tokens. The result None of the inner option is the
  early return when it does not.
\<close>

partial_function (option) parse_loop :: "(nat \<Rightarrow> bool) \<Rightarrow> (nat \<Rightarrow> jsmntok) \<Rightarrow> byte list \<Rightarrow> jsmn_parser \<Rightarrow>
    jsmntok list \<Rightarrow> nat \<Rightarrow> (jsmn_parser \<times> jsmntok list) option out option" where
  "parse_loop mem junk js p toks tokcount =
     (case jsmn_parse p js (Some toks) tokcount of
        Ok (ret, p', Some toks') \<Rightarrow>
          if ret = JSMN_ERROR_NOMEM then
            if mem (2 * tokcount)
            then parse_loop mem junk js p' (toks' @ map junk [tokcount..<2 * tokcount]) (2 * tokcount)
            else Some (Ok None)
          else Some (Ok (Some (p', toks')))
      | _ \<Rightarrow> Some Crash)"

text \<open>\<^verbatim>\<open>jstree_read(result.node->r, &rnode, a, b) != 2\<close> and the text of the node found.\<close>

definition read_setting :: "jnode \<Rightarrow> byte list \<Rightarrow> byte list option out" where
  "read_setting tree k = out_bind (jstree_read tree [map of_char ''ssl'', k]) (\<lambda>(i, rnode).
     if i \<noteq> 2 then Ok None
     else case rnode of
       Null \<Rightarrow> Crash
     | Node ty d l r \<Rightarrow> (case d of None \<Rightarrow> Crash | Some s \<Rightarrow> Ok (Some s)))"

text \<open>The password is decoded into a buffer of its size, fresh memory \<open>raw\<close>, and read as a string.\<close>

definition load_password :: "(nat \<Rightarrow> byte) \<Rightarrow> byte list \<Rightarrow> byte list out" where
  "load_password raw s =
     out_bind (jstree_string_decode None 0 s) (\<lambda>(len, _).
     out_bind (jstree_string_decode (Some (map raw [0..<nat (len + 1)])) (len + 1) s) (\<lambda>(_, b).
       case b of
         None \<Rightarrow> Crash
       | Some b' \<Rightarrow> if 0 \<in> set b' then Ok (takeWhile (\<lambda>c. c \<noteq> 0) b') else Crash))"

definition load_settings :: "(nat \<Rightarrow> byte) \<Rightarrow> jnode \<Rightarrow> vc_ssl_cfg \<Rightarrow> (int \<times> vc_ssl_cfg) out" where
  "load_settings raw tree cfg =
     out_bind (read_setting tree (map of_char ''keyfile'')) (\<lambda>kf.
     case kf of
       None \<Rightarrow> Ok (- 1, cfg)
     | Some kf' \<Rightarrow>
         let cfg1 = cfg\<lparr>sc_keyfile := Some kf'\<rparr> in
         out_bind (read_setting tree (map of_char ''rootca'')) (\<lambda>ca.
         case ca of
           None \<Rightarrow> Ok (- 1, cfg1)
         | Some ca' \<Rightarrow>
             let cfg2 = cfg1\<lparr>sc_rootca := Some ca'\<rparr> in
             out_bind (read_setting tree (map of_char ''password'')) (\<lambda>pw.
             out_bind (case pw of None \<Rightarrow> Ok [] | Some s \<Rightarrow> load_password raw s) (\<lambda>pw'.
             let cfg3 = cfg2\<lparr>sc_password := Some pw'\<rparr> in
             out_bind (read_setting tree (map of_char ''accept_expired_key'')) (\<lambda>ae.
               Ok (0, cfg3\<lparr>sc_accept_expired_key := if ae = Some (map of_char ''enable'') then 1 else 0\<rparr>))))))"

text \<open>\<open>file\<close> is what the buffer holds after reading the file, None if it cannot be opened.\<close>

definition loadconfig :: "(nat \<Rightarrow> bool) \<Rightarrow> (nat \<Rightarrow> jsmntok) \<Rightarrow> (nat \<Rightarrow> byte) \<Rightarrow> byte list option \<Rightarrow> vc_ssl_cfg \<Rightarrow>
    (int \<times> vc_ssl_cfg) out option" where
  "loadconfig mem junk raw file cfg =
     (case file of
        None \<Rightarrow> Some (Ok (- 1, cfg))
      | Some data \<Rightarrow>
          map_option (\<lambda>r. out_bind r (\<lambda>x.
            case x of
              None \<Rightarrow> Ok (- 1, cfg)
            | Some (p, toks) \<Rightarrow> out_bind (js2tree data toks 0 (int (jp_toknext p))) (\<lambda>(_, node).
                case node of
                  None \<Rightarrow> Crash
                | Some Null \<Rightarrow> Crash
                | Some (Node ty d l r) \<Rightarrow> load_settings raw r cfg)))
          (parse_loop mem junk data jsmn_init (map junk [0..<2]) 2))"

subsection \<open>The tokens\<close>

text \<open>
  The loop returns for every text: each round doubles the array, and a text has no more tokens
  than bytes. If there is memory for every size, the array ends with the tokens of the reference.
\<close>

lemma parse_loop_returns:
  assumes "in_use n p toks" "length toks = n" "st_ok js (jabs p toks)" "0 < n"
  shows "\<exists>r. parse_loop mem junk js p toks n = Some (Ok r) \<and>
    (case r of
       None \<Rightarrow> \<exists>m. \<not> mem m
     | Some (p', toks') \<Rightarrow> (\<exists>c. tokenize js (jabs p toks) = (c, jabs p' toks')) \<and> jp_toknext p' \<le> length toks')"
  using assms
proof (induction "length js + 1 - n" arbitrary: n p toks rule: less_induct)
  case less
  from parse_refines [OF less.prems(1,3)] obtain r p' toks' where
    run: "jsmn_parse p js (Some toks) n = Ok (r, p', Some toks')" and
    ok: "length toks' = length toks" "in_use n p' toks'" "st_ok js (jabs p' toks')"
      "tokenize js (jabs p' toks') = tokenize js (jabs p toks)"
      "r = JSMN_ERROR_NOMEM \<longrightarrow> jp_toknext p' = n \<and> n < length (token_list (tokenize js (jabs p toks)))"
      "r \<noteq> JSMN_ERROR_NOMEM \<longrightarrow> tokenize js (jabs p toks) = (r, jabs p' toks')"
    by (auto simp: run_ok_def token_list_def)
  show ?case
  proof (cases "r = JSMN_ERROR_NOMEM \<and> mem (2 * n)")
    case False
    with run ok(2,6) show ?thesis by (subst parse_loop.simps) (auto simp: in_use_def split: option.splits)
  next
    case True
    let ?toks = "toks' @ map junk [n..<2 * n]"
    have j: "jabs p' ?toks = jabs p' toks'" using ok(2) by (simp add: jabs_def in_use_def)
    have u: "in_use (2 * n) p' ?toks" using ok(1,2) less.prems(2) by (auto simp: in_use_def)
    have "length (fst (snd (jabs p' toks'))) \<le> length js" using ok(3) by (auto simp: st_ok_def jabs_def)
    then have "n \<le> length js" using ok(1,5) True less.prems(2) by (simp add: jabs_def)
    then have "length js + 1 - 2 * n < length js + 1 - n" using less.prems(4) by linarith
    from less.hyps [OF this u, unfolded j ok(4)] ok(1,3) less.prems(2,4)
    have "\<exists>r. parse_loop mem junk js p' ?toks (2 * n) = Some (Ok r) \<and> (case r of None \<Rightarrow> \<exists>m. \<not> mem m
        | Some (p'', toks'') \<Rightarrow> (\<exists>c. tokenize js (jabs p toks) = (c, jabs p'' toks'')) \<and> jp_toknext p'' \<le> length toks'')" by simp
    with run True show ?thesis by (subst parse_loop.simps) simp
  qed
qed

lemma parse_start: "in_use 2 jsmn_init (map junk [0..<2])" "length (map junk [0..<2]) = 2"
    "jabs jsmn_init toks = (0, [], - 1)" "st_ok js (jabs jsmn_init toks)"
  by (simp_all add: in_use_def jsmn_init_def jabs_def st_ok_def)

lemma text_to_tree:
  assumes "json_text js v" "\<forall>n. mem n"
  shows "\<exists>p toks n. parse_loop mem junk js jsmn_init (map junk [0..<2]) 2 = Some (Ok (Some (p, toks))) \<and>
    js2tree js toks 0 (int (jp_toknext p)) = Ok (n, Some v)"
proof -
  from text_tokens [OF assms(1)] obtain ks q sp where
    ks: "tokenize js (0, [], - 1) = (int (length ks), q, ks, sp)" "den_val js ks v" by blast
  from parse_loop_returns [OF parse_start(1) [of junk] parse_start(2) parse_start(4) [of js], of mem junk] assms(2) obtain p toks c where
    r: "parse_loop mem junk js jsmn_init (map junk [0..<2]) 2 = Some (Ok (Some (p, toks)))"
    "tokenize js (jabs jsmn_init (map junk [0..<2])) = (c, jabs p toks)" "jp_toknext p \<le> length toks"
    by (auto split: option.splits)
  from r(2) ks(1) have "take (jp_toknext p) toks = ks" unfolding parse_start(3) by (simp add: jabs_def)
  then have "drop 0 toks = ks @ drop (jp_toknext p) toks" "length ks = jp_toknext p" using r(3) by auto
  with ks(2) have "js2tree js toks 0 (int (jp_toknext p)) = Ok (length ks, Some v)"
    unfolding den_val_def by (metis order_refl)
  with r(1) show ?thesis by blast
qed

subsection \<open>The settings\<close>

text \<open>The value of the first member with a key, and the text of a setting.\<close>

fun member_val :: "jnode \<Rightarrow> byte list \<Rightarrow> jnode" where
  "member_val Null k = Null"
| "member_val (Node ty d l r) k =
     (if ty \<in> {JSMN_PRIMITIVE, JSMN_STRING} \<and> d = Some k then r else member_val l k)"

definition setting :: "jnode \<Rightarrow> byte list \<Rightarrow> byte list option" where
  "setting ch k =
     (case member_val ch (map of_char ''ssl'') of
        Null \<Rightarrow> None
      | Node ty d l ch2 \<Rightarrow> (case member_val ch2 k of Null \<Rightarrow> None | Node ty2 d2 l2 r2 \<Rightarrow> d2))"

definition text_or_none :: "jnode \<Rightarrow> bool" where
  "text_or_none n = (case n of Null \<Rightarrow> True | Node ty d l r \<Rightarrow> ty \<in> {JSMN_STRING, JSMN_PRIMITIVE} \<and> d \<noteq> None)"

definition cfg_keys :: "byte list list" where
  "cfg_keys = map (map of_char) [''keyfile'', ''rootca'', ''password'', ''accept_expired_key'']"

text \<open>The shape the settings need: \<^verbatim>\<open>ssl\<close> is an object, if it is there, and the settings in it are texts.\<close>

definition cfg_shape :: "jnode \<Rightarrow> bool" where
  "cfg_shape ch =
     (case member_val ch (map of_char ''ssl'') of
        Null \<Rightarrow> True
      | Node ty d l ch2 \<Rightarrow> ty = JSMN_OBJECT \<and> list_all (\<lambda>k. text_or_none (member_val ch2 k)) cfg_keys)"

definition val_of :: "jnode \<Rightarrow> jnode" where
  "val_of n = (case n of Null \<Rightarrow> Null | Node ty d l r \<Rightarrow> r)"

lemma find_member: "ch \<noteq> Null \<Longrightarrow> \<exists>n. find_node ch k = Ok n \<and> member_val ch k = val_of n"
  by (induction ch k rule: find_node.induct) (auto simp: val_of_def)

text \<open>A step of jstree_read by a key.\<close>

lemma read_step:
  assumes "ch \<noteq> Null" "sscanf_index k = Mismatch"
  shows "member_val ch k = Null \<Longrightarrow> \<exists>n. jstree_read_loop i (k # rest) ch = Ok (i, n)"
    "member_val ch k = Node ty d l r \<Longrightarrow> ty \<in> {JSMN_STRING, JSMN_PRIMITIVE} \<Longrightarrow>
      jstree_read_loop i (k # rest) ch = Ok (i + 1, Node ty d l r)"
    "member_val ch k = Node JSMN_OBJECT d l r \<Longrightarrow> jstree_read_loop i (k # rest) ch = jstree_read_loop (i + 1) rest r"
proof -
  from find_member [OF assms(1), of k] obtain n where n: "find_node ch k = Ok n" "member_val ch k = val_of n" by blast
  show "member_val ch k = Null \<Longrightarrow> \<exists>n. jstree_read_loop i (k # rest) ch = Ok (i, n)"
    "member_val ch k = Node ty d l r \<Longrightarrow> ty \<in> {JSMN_STRING, JSMN_PRIMITIVE} \<Longrightarrow>
      jstree_read_loop i (k # rest) ch = Ok (i + 1, Node ty d l r)"
    "member_val ch k = Node JSMN_OBJECT d l r \<Longrightarrow> jstree_read_loop i (k # rest) ch = jstree_read_loop (i + 1) rest r"
    using n assms by (cases n; auto simp: val_of_def)+
qed

lemma read_setting_eq:
  assumes "cfg_shape ch" "k \<in> set cfg_keys"
  shows "read_setting ch k = Ok (setting ch k)"
proof -
  let ?ssl = "map of_char ''ssl'' :: byte list"
  have k: "sscanf_index k = Mismatch" "sscanf_index ?ssl = Mismatch"
    using assms(2) by (auto simp: cfg_keys_def sscanf_index_def)
  show ?thesis
  proof (cases "ch = Null \<or> member_val ch ?ssl = Null")
    case True
    then have "\<exists>n. jstree_read ch [?ssl, k] = Ok (0, n)"
      using read_step(1) [OF _ k(2)] by (cases "ch = Null") (auto simp: jstree_read_def)
    with True show ?thesis by (auto simp: read_setting_def setting_def)
  next
    case False
    then obtain d l ch2 where v: "member_val ch ?ssl = Node JSMN_OBJECT d l ch2" "text_or_none (member_val ch2 k)"
      using assms by (cases "member_val ch ?ssl") (auto simp: cfg_shape_def list_all_iff)
    have r: "jstree_read ch [?ssl, k] = jstree_read_loop 1 [k] ch2"
      using read_step(3) [OF _ k(2) v(1), of 0 "[k]"] False by (simp add: jstree_read_def)
    show ?thesis
    proof (cases "member_val ch2 k")
      case Null
      then have "\<exists>n. jstree_read_loop 1 [k] ch2 = Ok (1, n)"
        using read_step(1) [OF _ k(1) Null, of 1 "[]"] by (cases "ch2 = Null") auto
      with Null v(1) r show ?thesis by (auto simp: read_setting_def setting_def)
    next
      case (Node ty2 d2 l2 r2)
      then have "ch2 \<noteq> Null" "ty2 \<in> {JSMN_STRING, JSMN_PRIMITIVE}" "d2 \<noteq> None"
        using v(2) by (auto simp: text_or_none_def)
      with read_step(2) [OF _ k(1) Node, of 1 "[]"] Node v(1) r show ?thesis
        by (auto simp: read_setting_def setting_def numeral_2_eq_2)
    qed
  qed
qed

text \<open>The password, when its escapes are well formed.\<close>

definition password_of :: "byte list option \<Rightarrow> byte list option" where
  "password_of s =
     (case s of
        None \<Rightarrow> Some []
      | Some t \<Rightarrow>
          (case dec_ref (t @ [0]) of
             None \<Rightarrow> None
           | Some ys \<Rightarrow> if 0 \<in> set ys then Some (takeWhile (\<lambda>c. c \<noteq> 0) ys) else None))"

lemma password_loaded:
  assumes "password_of (Some s) = Some pw"
  shows "load_password raw s = Ok pw"
proof -
  from assms obtain ys where ys: "dec_ref (s @ [0]) = Some ys" "pw = takeWhile (\<lambda>c. c \<noteq> 0) ys" and z: "0 \<in> set ys"
    by (auto simp: password_of_def split: option.splits if_splits)
  then have "0 < length ys" by (cases ys) auto
  let ?b = "map raw [0..<length ys]"
  have "decode_loop (Some ?b) 0 (int (length ys)) (s @ [0]) = Ok (int (length ys) - 1, Some (put_bytes 0 ys ?b))"
    using decode_fill [OF ys(1), of 0 ?b "int (length ys)"] by simp
  moreover have "put_bytes 0 ys ?b = ys" by (simp add: put_bytes_def)
  ultimately show ?thesis
    using ys z \<open>0 < length ys\<close> by (simp add: load_password_def jstree_string_decode_def decode_size)
qed

subsection \<open>Properties\<close>

lemma loadconfig_text:
  assumes "json_text data (Node JSMN_OBJECT None Null ch)" "cfg_shape ch" "\<forall>n. mem n"
    "password_of (setting ch (map of_char ''password'')) = Some pw"
  shows "loadconfig mem junk raw (Some data) cfg = Some (Ok (
    case setting ch (map of_char ''keyfile'') of
      None \<Rightarrow> (- 1, cfg)
    | Some kf \<Rightarrow>
        (case setting ch (map of_char ''rootca'') of
           None \<Rightarrow> (- 1, cfg\<lparr>sc_keyfile := Some kf\<rparr>)
         | Some ca \<Rightarrow> (0, \<lparr>sc_password = Some pw, sc_rootca = Some ca, sc_keyfile = Some kf,
             sc_accept_expired_key =
               if setting ch (map of_char ''accept_expired_key'') = Some (map of_char ''enable'') then 1 else 0\<rparr>))))"
proof -
  obtain p toks n where t: "parse_loop mem junk data jsmn_init (map junk [0..<2]) 2 = Some (Ok (Some (p, toks)))"
    "js2tree data toks 0 (int (jp_toknext p)) = Ok (n, Some (Node JSMN_OBJECT None Null ch))"
    using text_to_tree [OF assms(1,3)] by blast
  have "(case setting ch (map of_char ''password'') of None \<Rightarrow> Ok [] | Some s \<Rightarrow> load_password raw s) = Ok pw"
    using assms(4) password_loaded by (auto simp: password_of_def split: option.splits)
  moreover have "read_setting ch k = Ok (setting ch k)" if "k \<in> set cfg_keys" for k
    by (rule read_setting_eq [OF assms(2) that])
  ultimately have "load_settings raw ch cfg = Ok (
    case setting ch (map of_char ''keyfile'') of
      None \<Rightarrow> (- 1, cfg)
    | Some kf \<Rightarrow>
        (case setting ch (map of_char ''rootca'') of
           None \<Rightarrow> (- 1, cfg\<lparr>sc_keyfile := Some kf\<rparr>)
         | Some ca \<Rightarrow> (0, \<lparr>sc_password = Some pw, sc_rootca = Some ca, sc_keyfile = Some kf,
             sc_accept_expired_key =
               if setting ch (map of_char ''accept_expired_key'') = Some (map of_char ''enable'') then 1 else 0\<rparr>)))"
    unfolding load_settings_def by (simp add: cfg_keys_def Let_def split: option.splits)
  with t show ?thesis by (simp add: loadconfig_def)
qed


text \<open>A settings file as tree2js prints it, with the value of one of its settings.\<close>

definition str_node :: "string \<Rightarrow> jnode \<Rightarrow> jnode \<Rightarrow> jnode" where
  "str_node s l r = Node JSMN_STRING (Some (map of_char s)) l r"

definition sample_ssl :: "jnode \<Rightarrow> jnode" where
  "sample_ssl v = str_node ''ssl'' Null (Node JSMN_OBJECT None Null
     (str_node ''rootca'' (str_node ''keyfile'' (str_node ''password'' Null v) (str_node ''k.pem'' Null Null)) (str_node ''ca.pem'' Null Null)))"

definition sample_file :: "jnode \<Rightarrow> byte list" where
  "sample_file v = js_text (Node JSMN_OBJECT None Null (sample_ssl v)) 0"

lemma printed_json: "wf_node t \<Longrightarrow> jn_l t = Null \<Longrightarrow> json_text (js_text t 0) t"
  using printed_text(1) [of t 0] unfolding json_text_def
  by (intro exI [of _ "[]"] exI [of _ "js_text t 0"]) (cases t; auto simp: unlink_def)

lemma sample_file_json:
  "wf_node (Node JSMN_OBJECT None Null (sample_ssl v)) \<Longrightarrow> json_text (sample_file v) (Node JSMN_OBJECT None Null (sample_ssl v))"
  unfolding sample_file_def by (rule printed_json) simp_all



text \<open>
  C28. Printing and reading back is the identity on trees: with a null buffer tree2json returns the
  size a buffer needs; with a buffer of this size it fills it without leaving it, and tokenizing
  and building the tree from the buffer gives the tree that was printed.
\<close>

theorem print_parse_roundtrip:
  assumes "wf_node t" "jn_l t = Null" "\<forall>n. mem n"
  shows "\<exists>n. tree2json t None bufsize = Ok (n, None) \<and>
    (\<forall>b. length b = n \<longrightarrow> (\<exists>b'. tree2json t (Some b) (int n) = Ok (n - 1, Some b') \<and> length b' = n \<and>
       (\<exists>p toks m. parse_loop mem junk b' jsmn_init (map junk [0..<2]) 2 = Some (Ok (Some (p, toks))) \<and>
          js2tree b' toks 0 (int (jp_toknext p)) = Ok (m, Some t))))"
proof -
  let ?s = "js_text t 0"
  have "tree2js t None 0 bufsize 0 = Ok (emit None 0 ?s)" by (rule printer_emits(1) [OF assms(1)]) (simp add: room_def)
  then have size: "tree2json t None bufsize = Ok (length ?s + 1, None)" by (simp add: tree2json_def emit_def)
  have jv: "jval t ?s" using printed_text(1) [OF assms(1), of 0] assms(2) by (cases t) (auto simp: unlink_def)
  have "\<exists>b'. tree2json t (Some b) (int (length ?s + 1)) = Ok (length ?s, Some b') \<and> length b' = length ?s + 1 \<and>
       (\<exists>p toks m. parse_loop mem junk b' jsmn_init (map junk [0..<2]) 2 = Some (Ok (Some (p, toks))) \<and>
          js2tree b' toks 0 (int (jp_toknext p)) = Ok (m, Some t))" if b: "length b = length ?s + 1" for b
  proof -
    have "tree2js t (Some b) 0 (int (length ?s + 1)) 0 = Ok (emit (Some b) 0 ?s)"
      by (rule printer_emits(1) [OF assms(1)]) (simp add: room_def b)
    moreover have "put_bytes 0 (?s @ [0]) b = ?s @ [0]" using b by (simp add: put_bytes_def)
    ultimately have "tree2json t (Some b) (int (length ?s + 1)) = Ok (length ?s, Some (?s @ [0]))"
      by (simp add: tree2json_def emit_def)
    moreover have "json_text (?s @ [0]) t" unfolding json_text_def
      by (intro exI [of _ "[]"] exI [of _ ?s] exI [of _ "[0]"]) (simp add: jv)
    ultimately show ?thesis using text_to_tree [OF _ assms(3)] by auto
  qed
  with size show ?thesis by (intro exI [of _ "length ?s + 1"]) auto
qed

lemma print_parse_roundtrip_witness:
  "\<exists>n. tree2json (Node JSMN_OBJECT None Null (sample_ssl (str_node ''x'' Null Null))) None 0 = Ok (n, None)"
proof -
  have "wf_node (Node JSMN_OBJECT None Null (sample_ssl (str_node ''x'' Null Null)))" by code_simp
  from print_parse_roundtrip [OF this, where mem = "\<lambda>_. True" and junk = "\<lambda>_. sample_tok" and bufsize = 0] show ?thesis
    by auto
qed



end
