(* ===== verification/Vcom_Startup.thy ===== *)
theory Vcom_Startup
  imports Vcom_Monitor Ssl_Ctx Ssl_Cfg
begin

text \<open>
  The start of the daemon in daemon/vcom_client.c: the standard descriptors, the command line, the TLS context and
  the mapping of the proc file, up to the state in which the main loop starts. The file system, the
  current directory and OpenSSL are parameters.
\<close>

subsection \<open>Standard descriptors\<close>

text \<open>The open descriptors; \<^verbatim>\<open>open\<close> takes the lowest free one, and \<^verbatim>\<open>dup2\<close> makes its second argument open.\<close>

definition lowest_free :: "nat list \<Rightarrow> nat" where
  "lowest_free fds = hd (filter (\<lambda>n. n \<notin> set fds) [0..<Suc (length fds)])"

definition init_fd :: "nat \<Rightarrow> nat list \<Rightarrow> nat list" where
  "init_fd n fds = (if n \<in> set fds then fds else let fd = lowest_free fds in n # fd # fds)"

definition init_std :: "nat list \<Rightarrow> nat list" where
  "init_std fds = init_fd 2 (init_fd 1 (init_fd 0 fds))"

subsection \<open>The command line\<close>

text \<open>
  \<open>se_file\<close> gives the contents of a file seen from a directory, \<open>se_chdir\<close> the directory after \<^verbatim>\<open>chdir\<close>,
  \<open>se_wd\<close> what the buffer of \<^verbatim>\<open>getcwd\<close> holds if the call fails; the first three are the parameters of loadconfig.
\<close>

record startup_env =
  se_mem :: "nat \<Rightarrow> bool"
  se_junk :: "nat \<Rightarrow> jsmntok"
  se_raw :: "nat \<Rightarrow> byte"
  se_file :: "byte list \<Rightarrow> byte list \<Rightarrow> byte list option"
  se_chdir :: "byte list \<Rightarrow> byte list \<Rightarrow> byte list"
  se_wd :: "byte list"
  se_ossl :: ossl
  se_mon :: mon_os
  se_open :: "byte list \<Rightarrow> int"
  se_mmap :: "int \<Rightarrow> bool"

text \<open>The port, the static variables, and the local variables \<^verbatim>\<open>addr\<close> (not null) and \<^verbatim>\<open>_set_devid\<close>.\<close>

record 'w startup_state =
  ss_attr :: "'w vc_attr"
  ss_sslcfg :: vc_ssl_cfg
  ss_pwd :: ssl_pwd_data
  ss_ctx :: "ssl_ctx option"
  ss_mon :: "vc_monitor \<times> bool"
  ss_cwd :: "byte list"
  ss_addr :: bool
  ss_set_devid :: bool

definition chars :: "byte list \<Rightarrow> string" where
  "chars bs = map (\<lambda>b. char_of (unat b)) bs"

definition vcomd_spec :: "byte \<Rightarrow> bool option" where
  "vcomd_spec c = (if c = 104 then Some False else if c \<in> set (str ''Sltdapr'') then Some True else None)"

definition set_attr :: "('w vc_attr \<Rightarrow> 'w vc_attr) \<Rightarrow> 'w startup_state \<Rightarrow> 'w startup_state" where
  "set_attr f s = s\<lparr>ss_attr := f (ss_attr s)\<rparr>"

text \<open>The option \<^verbatim>\<open>-S\<close>; the boolean is False when startup returns -1.\<close>

definition ssl_setup :: "startup_env \<Rightarrow> byte list \<Rightarrow> 'w startup_state \<Rightarrow> (bool \<times> 'w startup_state) out" where
  "ssl_setup env arg s =
     (case loadconfig (se_mem env) (se_junk env) (se_raw env) (se_file env (ss_cwd s) arg) (ss_sslcfg s) of
        None \<Rightarrow> Hang
      | Some res \<Rightarrow> out_bind res (\<lambda>(ret, cfg).
          let s1 = s\<lparr>ss_sslcfg := cfg\<rparr> in
          if ret \<noteq> 0 then Ok (False, s1)
          else
            let s2 = set_attr (\<lambda>a. a\<lparr>va_ssl := Some sslinfo_alloc\<rparr>) s1;
                wd_orig = (if length (ss_cwd s) < 1024 then ss_cwd s else se_wd env);
                cwd = (case create_cfg_cwd arg of None \<Rightarrow> ss_cwd s | Some wd \<Rightarrow> se_chdir env (ss_cwd s) wd)
            in out_bind (initialize_ctx (se_ossl env) cwd (sc_rootca cfg) (sc_keyfile cfg) (sc_password cfg) (ss_pwd s)) (\<lambda>(ctx, pwd).
               out_bind (if sc_accept_expired_key cfg \<noteq> 0
                   then (case ctx of None \<Rightarrow> Crash | Some c \<Rightarrow> Ok (Some (c\<lparr>cx_verify := Some custom_verify_callback\<rparr>)))
                   else Ok ctx) (\<lambda>ctx'.
                 case ctx' of
                   None \<Rightarrow> Exit
                 | Some c \<Rightarrow> Ok (True, s2\<lparr>ss_ctx := Some c, ss_pwd := pwd, ss_cwd := se_chdir env cwd wd_orig\<rparr>)))))"

definition startup_opt :: "startup_env \<Rightarrow> byte \<Rightarrow> byte list \<Rightarrow> 'w startup_state \<Rightarrow> (bool \<times> 'w startup_state) out" where
  "startup_opt env ch arg s =
     (if ch = 104 then Ok (False, s)
      else if ch = 108 then Ok (True, s\<lparr>ss_mon := snd (mon_init (se_mon env) (Some arg) (ss_mon s))\<rparr>)
      else if ch = 116 then
        Ok (True, case scan_int arg of None \<Rightarrow> s | Some (v, r) \<Rightarrow> set_attr (\<lambda>a. a\<lparr>va_ttyid := v\<rparr>) s)
      else if ch = 100 then
        Ok (True, (case scan_ulong 16 arg of None \<Rightarrow> s | Some (v, r) \<Rightarrow> set_attr (\<lambda>a. a\<lparr>va_devid := word_of_int v\<rparr>) s)\<lparr>ss_set_devid := True\<rparr>)
      else if ch = 97 then Ok (True, set_attr (\<lambda>a. a\<lparr>va_ip_ptr := chars arg\<rparr>) (s\<lparr>ss_addr := True\<rparr>))
      else if ch = 112 then
        Ok (True, case scan_ulong 10 arg of None \<Rightarrow> s | Some (v, r) \<Rightarrow> set_attr (\<lambda>a. a\<lparr>va_port := word_of_int v\<rparr>) s)
      else if ch = 114 then Ok (True, set_attr (\<lambda>a. a\<lparr>va_ip_red := Some (chars arg)\<rparr>) (s\<lparr>ss_addr := True\<rparr>))
      else if ch = 83 then ssl_setup env arg s
      else Ok (False, s))"

fun startup_loop :: "startup_env \<Rightarrow> (byte \<times> byte list) list \<Rightarrow> 'w startup_state \<Rightarrow> (bool \<times> 'w startup_state) out" where
  "startup_loop env [] s = Ok (True, s)"
| "startup_loop env ((ch, arg) # rest) s =
     out_bind (startup_opt env ch arg s) (\<lambda>(go, s'). if go then startup_loop env rest s' else Ok (False, s'))"

definition startup :: "startup_env \<Rightarrow> byte list list \<Rightarrow> 'w startup_state \<Rightarrow> (int \<times> 'w startup_state) out" where
  "startup env argv s =
     (let s0 = set_attr (\<lambda>a. a\<lparr>va_ttyid := - 1, va_devid := 0, va_port := 0, va_ssl := None\<rparr>)
                 (s\<lparr>ss_addr := False, ss_set_devid := False\<rparr>) in
      if length argv < 2 then Ok (- 1, s0)
      else out_bind (startup_loop env (getopt vcomd_spec (tl argv))
          (s0\<lparr>ss_mon := snd (mon_init (se_mon env) None (ss_mon s0))\<rparr>)) (\<lambda>(go, s1).
        if \<not> go \<or> \<not> ss_addr s1 \<or> va_port (ss_attr s1) = 0 \<or> va_ttyid (ss_attr s1) < 0 \<or> \<not> ss_set_devid s1
        then Ok (- 1, s1) else Ok (0, s1)))"

subsection \<open>The proc file\<close>

text \<open>
  Opening and mapping; None when main returns. A failed mapping is not the null pointer main looks for:
  it is used as an address by the first access.
\<close>

definition proc_name :: "int \<Rightarrow> byte list" where
  "proc_name ttyid = str ''/proc/vcom/advproc'' @ dec ttyid"

definition main_setup :: "startup_env \<Rightarrow> byte list list \<Rightarrow> 'w startup_state \<Rightarrow> 'w startup_state option out" where
  "main_setup env argv s =
     out_bind (startup env argv (set_attr (\<lambda>a. a\<lparr>va_ip_red := None\<rparr>) (s\<lparr>ss_mon := (fst (ss_mon s), False)\<rparr>))) (\<lambda>(ret, s1).
       if ret = - 1 then Ok None
       else let fd = se_open env (proc_name (va_ttyid (ss_attr s1))); s2 = set_attr (\<lambda>a. a\<lparr>va_fd := fd\<rparr>) s1 in
         if fd < 0 then Ok None
         else if \<not> se_mmap env fd then Crash
         else Ok (Some s2))"

definition vcomd_start :: "'w os \<Rightarrow> startup_env \<Rightarrow> byte list list \<Rightarrow> 'w startup_state \<Rightarrow> 'w vc_attr option out" where
  "vcomd_start os env argv s =
     out_bind (main_setup env argv s) (\<lambda>r.
       case r of None \<Rightarrow> Ok None | Some s' \<Rightarrow> out_bind (main_start os (ss_attr s')) (\<lambda>a. Ok (Some a)))"

subsection \<open>Laws\<close>

lemma init_fd_keeps: "set fds \<union> {n} \<subseteq> set (init_fd n fds)"
  by (auto simp: init_fd_def Let_def)

lemma init_std_open: "{0, 1, 2} \<union> set fds \<subseteq> set (init_std fds)"
  using init_fd_keeps [of fds 0] init_fd_keeps [of "init_fd 0 fds" 1] init_fd_keeps [of "init_fd 1 (init_fd 0 fds)" 2]
  by (auto simp: init_std_def)

definition tls_inv :: "'w startup_state \<Rightarrow> bool" where
  "tls_inv s \<longleftrightarrow> va_ssl (ss_attr s) = None \<or> (\<exists>c. ss_ctx s = Some c \<and>
     cx_verify c = Some (if sc_accept_expired_key (ss_sslcfg s) \<noteq> 0 then custom_verify_callback else verify_callback))"

definition cfg_dir :: "startup_env \<Rightarrow> byte list \<Rightarrow> byte list \<Rightarrow> byte list" where
  "cfg_dir env arg cwd = (case create_cfg_cwd arg of None \<Rightarrow> cwd | Some wd \<Rightarrow> se_chdir env cwd wd)"

lemma ssl_setup_result:
  assumes "ssl_setup env arg s = Ok (True, s')"
  shows "\<exists>cfg c pwd. initialize_ctx (se_ossl env) (cfg_dir env arg (ss_cwd s)) (sc_rootca cfg) (sc_keyfile cfg) (sc_password cfg) (ss_pwd s) = Ok (Some c, pwd) \<and>
    ss_sslcfg s' = cfg \<and> ss_ctx s' = Some (if sc_accept_expired_key cfg \<noteq> 0 then c\<lparr>cx_verify := Some custom_verify_callback\<rparr> else c) \<and>
    ss_attr s' = (ss_attr s)\<lparr>va_ssl := Some sslinfo_alloc\<rparr> \<and> ss_addr s' = ss_addr s \<and> ss_set_devid s' = ss_set_devid s"
proof -
  obtain res where "loadconfig (se_mem env) (se_junk env) (se_raw env) (se_file env (ss_cwd s) arg) (ss_sslcfg s) = Some res"
    using assms by (auto simp: ssl_setup_def split: option.splits)
  then obtain cfg where cfg: "res = Ok (0, cfg)"
    using assms by (auto simp: ssl_setup_def Let_def out_bind_Ok_iff split: if_splits)
  note a = assms [unfolded ssl_setup_def Let_def, folded cfg_dir_def]
  obtain ctx pwd where i: "initialize_ctx (se_ossl env) (cfg_dir env arg (ss_cwd s)) (sc_rootca cfg) (sc_keyfile cfg) (sc_password cfg) (ss_pwd s) = Ok (ctx, pwd)"
    using a cfg \<open>loadconfig _ _ _ _ _ = _\<close> by (auto simp: out_bind_Ok_iff)
  show ?thesis using a cfg \<open>loadconfig _ _ _ _ _ = _\<close> i by (cases ctx) (auto simp: set_attr_def split: if_splits)
qed

lemma ssl_setup_inv: "ssl_setup env arg s = Ok (True, s') \<Longrightarrow> tls_inv s'"
  using ssl_setup_result [of env arg s s'] initialize_ctx_verifies by (fastforce simp: tls_inv_def)

lemma startup_opt_inv: "startup_opt env ch arg s = Ok (True, s') \<Longrightarrow> tls_inv s \<Longrightarrow> tls_inv s'"
  using ssl_setup_inv [of env arg s s'] by (auto simp: startup_opt_def tls_inv_def set_attr_def split: option.splits if_splits)

lemma startup_loop_inv: "startup_loop env os s = Ok (True, s') \<Longrightarrow> tls_inv s \<Longrightarrow> tls_inv s'"
proof (induction os arbitrary: s)
  case (Cons x os)
  obtain ch arg where x: "x = (ch, arg)" by force
  obtain s1 where s1: "startup_opt env ch arg s = Ok (True, s1)" "startup_loop env os s1 = Ok (True, s')"
    using Cons.prems(1) x by (auto simp: out_bind_Ok_iff split: if_splits)
  show ?case using Cons.IH [OF s1(2)] startup_opt_inv [OF s1(1) Cons.prems(2)] by blast
qed simp

text \<open>
  C20. A daemon that starts with TLS always checks the certificate of the device: the context it uses has a
  verification callback under which a certificate chain with an error is refused, except that with the
  setting accept_expired_key a chain is accepted whose only errors are certificates that are expired or
  not yet valid.
\<close>

theorem tls_always_verifies:
  assumes "startup env argv s = Ok (0, s')" "va_ssl (ss_attr s') \<noteq> None"
  shows "\<exists>c. ss_ctx s' = Some c \<and> (\<forall>errs. chain_accepted c errs \<longleftrightarrow>
    (if sc_accept_expired_key (ss_sslcfg s') \<noteq> 0
     then set errs \<subseteq> {X509_V_ERR_CERT_NOT_YET_VALID, X509_V_ERR_CERT_HAS_EXPIRED} else errs = []))"
proof -
  obtain s0 where "startup_loop env (getopt vcomd_spec (tl argv)) s0 = Ok (True, s')" "tls_inv s0"
    using assms(1) by (auto simp: startup_def Let_def out_bind_Ok_iff tls_inv_def set_attr_def split: if_splits)
  hence "tls_inv s'" by (rule startup_loop_inv)
  then obtain c where "ss_ctx s' = Some c"
    "cx_verify c = Some (if sc_accept_expired_key (ss_sslcfg s') \<noteq> 0 then custom_verify_callback else verify_callback)"
    using assms(2) by (auto simp: tls_inv_def)
  thus ?thesis using callbacks_accept [of c] by auto
qed

text \<open>A start with the settings file of \<open>sample_file\<close>.\<close>

definition sample_env :: startup_env where
  "sample_env = \<lparr>se_mem = (\<lambda>_. True), se_junk = (\<lambda>_. sample_tok), se_raw = (\<lambda>_. 7),
     se_file = (\<lambda>cwd f. Some (sample_file (Node JSMN_STRING (Some [97]) Null Null))), se_chdir = (\<lambda>cwd d. d), se_wd = [],
     se_ossl = \<lparr>ol_ctx_new = True, ol_use_chain = (\<lambda>cwd f. True), ol_use_key = (\<lambda>cwd f p. True), ol_load_ca = (\<lambda>cwd f. True)\<rparr>,
     se_mon = sample_mon_os, se_open = (\<lambda>f. 3), se_mmap = (\<lambda>fd. True)\<rparr>"

definition sample_start :: "(byte list, byte list \<times> byte list) lworld startup_state" where
  "sample_start = \<lparr>ss_attr = sample_attr 0 None 0 [] [],
     ss_sslcfg = \<lparr>sc_password = None, sc_rootca = None, sc_keyfile = None, sc_accept_expired_key = 0\<rparr>,
     ss_pwd = \<lparr>pw_len = 0, pw_data = []\<rparr>, ss_ctx = None, ss_mon = (sample_mon, False), ss_cwd = str ''/'',
     ss_addr = False, ss_set_devid = False\<rparr>"

lemma sample_loaded:
  "loadconfig (\<lambda>_. True) (\<lambda>_. sample_tok) (\<lambda>_. 7) (Some (sample_file (Node JSMN_STRING (Some [97]) Null Null))) cfg =
    Some (Ok (0, \<lparr>sc_password = Some [97], sc_rootca = Some (str ''ca.pem''), sc_keyfile = Some (str ''k.pem''), sc_accept_expired_key = 0\<rparr>))"
proof -
  let ?v = "Node JSMN_STRING (Some [97]) Null Null"
  have "wf_node (Node JSMN_OBJECT None Null (Ssl_Cfg.sample_ssl ?v))" by code_simp
  note j = sample_file_json [OF this]
  have s: "cfg_shape (Ssl_Cfg.sample_ssl ?v)" "password_of (setting (Ssl_Cfg.sample_ssl ?v) (map of_char ''password'')) = Some [97]"
    "setting (Ssl_Cfg.sample_ssl ?v) (map of_char ''keyfile'') = Some (map of_char ''k.pem'')"
    "setting (Ssl_Cfg.sample_ssl ?v) (map of_char ''rootca'') = Some (map of_char ''ca.pem'')"
    "setting (Ssl_Cfg.sample_ssl ?v) (map of_char ''accept_expired_key'') = None"
    by code_simp+
  show ?thesis using loadconfig_text [OF j s(1) _ s(2), of "\<lambda>_. True" "\<lambda>_. sample_tok" "\<lambda>_. 7"] s(3-5) by simp
qed

lemma getopt_arg: "spec x = Some True \<Longrightarrow> x \<noteq> 45 \<Longrightarrow> v \<noteq> [] \<Longrightarrow> getopt spec ((45 # x # v) # as) = (x, v) # getopt spec as"
  by simp

lemma vcomd_specs: "vcomd_spec 108 = Some True" "vcomd_spec 116 = Some True" "vcomd_spec 100 = Some True" "vcomd_spec 97 = Some True"
  "vcomd_spec 112 = Some True" "vcomd_spec 114 = Some True" "vcomd_spec 83 = Some True"
  by (simp_all add: vcomd_spec_def)

definition sample_argv :: "byte list list" where
  "sample_argv = [str ''vcomd'', str ''-t1'', str ''-d1322'', str ''-ahost'', str ''-p2'', str ''-S/x/ssl.json'']"

lemma sample_opts: "getopt vcomd_spec (tl sample_argv) =
    [(116, str ''1''), (100, str ''1322''), (97, str ''host''), (112, str ''2''), (83, str ''/x/ssl.json'')]"
  by (simp add: sample_argv_def vcomd_specs)

lemmas scan_defs = scan_int_def scan_long_def scan_ulong_def scan_sign_def base_val_def digit_val_def is_digit_def is_xdigit_def is_space_def
  word_le_nat_alt hex_prefix_def

lemma sample_scans: "scan_int (str ''1'') = Some (1, [])" "scan_ulong 16 (str ''1322'') = Some (0x1322, [])" "scan_ulong 10 (str ''2'') = Some (2, [])"
  by (simp_all add: scan_defs c_int_def)

lemma sample_ssl_setup:
  "\<exists>s'. ssl_setup sample_env (str ''/x/ssl.json'') s = Ok (True, s') \<and> ss_attr s' = (ss_attr s)\<lparr>va_ssl := Some sslinfo_alloc\<rparr> \<and>
    ss_addr s' = ss_addr s \<and> ss_set_devid s' = ss_set_devid s \<and> sc_accept_expired_key (ss_sslcfg s') = 0"
  by (simp add: ssl_setup_def sample_env_def sample_loaded initialize_ctx_def set_passwd_def strvalid_def SSL_SEL_PASSWORD_MAX_def set_attr_def Let_def)

text \<open>The four settings every start needs, in the order in which advttyd writes them.\<close>

lemma startup_settings:
  assumes "scan_int nm = Some (i, r1)" "scan_ulong 16 ty = Some (d, r2)" "scan_ulong 10 px = Some (p, r3)"
  shows "startup_loop env ((116, nm) # (100, ty) # (97, ip) # (112, px) # rest) s =
    startup_loop env rest (s\<lparr>ss_attr := (ss_attr s)\<lparr>va_ttyid := i, va_devid := word_of_int d, va_ip_ptr := chars ip, va_port := word_of_int p\<rparr>,
      ss_set_devid := True, ss_addr := True\<rparr>)"
  using assms by (cases s) (simp add: startup_opt_def set_attr_def)

definition started :: "startup_env \<Rightarrow> 'w startup_state \<Rightarrow> 'w startup_state" where
  "started env s = s\<lparr>ss_attr := (ss_attr s)\<lparr>va_ttyid := - 1, va_devid := 0, va_port := 0, va_ssl := None\<rparr>,
     ss_addr := False, ss_set_devid := False, ss_mon := snd (mon_init (se_mon env) None (ss_mon s))\<rparr>"

lemma startup_go:
  assumes "2 \<le> length argv" "startup_loop env (getopt vcomd_spec (tl argv)) (started env s) = Ok (True, s1)"
    "ss_addr s1" "ss_set_devid s1" "va_port (ss_attr s1) \<noteq> 0" "0 \<le> va_ttyid (ss_attr s1)"
  shows "startup env argv s = Ok (0, s1)"
proof -
  have "set_attr (\<lambda>a. a\<lparr>va_ttyid := - 1, va_devid := 0, va_port := 0, va_ssl := None\<rparr>) (s\<lparr>ss_addr := False, ss_set_devid := False\<rparr>)
      \<lparr>ss_mon := snd (mon_init (se_mon env) None (ss_mon s))\<rparr> = started env s"
    by (cases s) (simp add: set_attr_def started_def)
  thus ?thesis using assms by (simp add: startup_def set_attr_def)
qed

lemma sample_tls_start:
  "\<exists>s'. startup sample_env sample_argv sample_start = Ok (0, s') \<and> va_ssl (ss_attr s') \<noteq> None \<and> sc_accept_expired_key (ss_sslcfg s') = 0"
proof -
  let ?s1 = "(started sample_env sample_start)\<lparr>ss_attr := (ss_attr (started sample_env sample_start))
    \<lparr>va_ttyid := 1, va_devid := word_of_int 0x1322, va_ip_ptr := chars (str ''host''), va_port := word_of_int 2\<rparr>, ss_set_devid := True, ss_addr := True\<rparr>"
  obtain s' where s': "ssl_setup sample_env (str ''/x/ssl.json'') ?s1 = Ok (True, s')" "ss_attr s' = (ss_attr ?s1)\<lparr>va_ssl := Some sslinfo_alloc\<rparr>"
    "ss_addr s' = ss_addr ?s1" "ss_set_devid s' = ss_set_devid ?s1" "sc_accept_expired_key (ss_sslcfg s') = 0"
    using sample_ssl_setup by blast
  have "startup_loop sample_env (getopt vcomd_spec (tl sample_argv)) (started sample_env sample_start) =
      startup_loop sample_env [(83, str ''/x/ssl.json'')] ?s1"
    unfolding sample_opts by (rule startup_settings [OF sample_scans])
  also have "\<dots> = Ok (True, s')" using s'(1) by (simp add: startup_opt_def)
  finally have "startup sample_env sample_argv sample_start = Ok (0, s')"
    by (rule startup_go [rotated]) (use s' in \<open>simp_all add: sample_argv_def\<close>)
  thus ?thesis using s' by auto
qed

lemma tls_always_verifies_witness:
  "\<exists>s' c. startup sample_env sample_argv sample_start = Ok (0, s') \<and> ss_ctx s' = Some c \<and> \<not> chain_accepted c [18]"
proof -
  obtain s' where s': "startup sample_env sample_argv sample_start = Ok (0, s')" "va_ssl (ss_attr s') \<noteq> None"
    "sc_accept_expired_key (ss_sslcfg s') = 0"
    using sample_tls_start by blast
  from tls_always_verifies [OF s'(1,2)] s'(1,3) show ?thesis by auto
qed

end
