(* ===== verification/Vcom_System.thy ===== *)
theory Vcom_System
  imports Advttyd Vcom_Startup
begin

text \<open>
  From a line of the configuration file to a running daemon: advttyd composes a command, the shell splits it into
  arguments, and the daemon reads its settings from them. What the shell does with a command of plain
  words is the hypothesis \<open>shell_law\<close> about its parameter.
\<close>

definition plain_byte :: "byte \<Rightarrow> bool" where
  "plain_byte c \<longleftrightarrow> is_digit c \<or> (65 \<le> c \<and> c \<le> 90) \<or> (97 \<le> c \<and> c \<le> 122) \<or> c \<in> {45, 46, 47, 58, 95}"

fun join :: "byte list list \<Rightarrow> byte list" where
  "join [] = []"
| "join [w] = w"
| "join (w # ws) = w @ 32 # join ws"

definition shell_law :: "(byte list \<Rightarrow> byte list list) \<Rightarrow> bool" where
  "shell_law sh \<longleftrightarrow> (\<forall>ws. (\<forall>w\<in>set ws. w \<noteq> [] \<and> list_all plain_byte w) \<longrightarrow>
     sh (join ws @ [38]) = ws \<and> sh (join ws @ [32, 38]) = ws)"

definition plain_info :: "TTYINFO \<Rightarrow> bool" where
  "plain_info t \<longleftrightarrow> list_all plain_byte (ti_mpt_nameidx t @ ti_dev_type t @ ti_dev_ipaddr t @ ti_dev_portidx t @ ti_dev_redundant t)"

lemma syscmd_join: "create_syscmd (mon_name t) sslconf t = join (daemon_args sslconf t) @ (if ti_dev_ssl t then [] else [32])"
  by (simp add: create_syscmd_def daemon_args_def)

lemma daemon_args_plain:
  assumes "ttyinfo_ok t" "plain_info t" "ti_dev_ssl t \<longrightarrow> list_all plain_byte sslconf"
  shows "\<forall>a\<in>set (daemon_args sslconf t). a \<noteq> [] \<and> list_all plain_byte a"
proof -
  have "plain_byte 45" "list_all plain_byte (str ''ltdaprS'')" "list_all plain_byte CF_PORTPROG" "list_all plain_byte (MON_PATH @ str ''/advtty'')"
    by (simp_all add: plain_byte_def is_digit_def CF_PORTPROG_def MON_PATH_def word_le_nat_alt)
  thus ?thesis using assms by (auto simp: daemon_args_def plain_info_def mon_name_def CF_PORTPROG_def)
qed

subsection \<open>Reading the numbers back\<close>

lemma scan_int_dec: "int n < 2 ^ 31 \<Longrightarrow> scan_int (dec_nat n) = Some (int n, [])"
  using scan_long_dec [of "dec_nat n" "[]"] dec_nat_digits [of n] by (simp add: scan_int_def c_int_small)

lemma scan_ulong_dec:
  assumes "int n < 2 ^ 64"
  shows "scan_ulong 10 (dec_nat n) = Some (int n, [])"
proof -
  have d: "list_all is_digit (dec_nat n)" "dec_nat n \<noteq> []" "base_val 10 (dec_nat n) = int n" using dec_nat_digits [of n] by auto
  have "dropWhile is_space (dec_nat n) = dec_nat n" using dropWhile_word [OF word_digits [OF d(1,2)], of "[]"] by simp
  moreover have "scan_sign (dec_nat n) = (False, dec_nat n)" using sign_digit [OF d(1,2), of "[]"] by simp
  moreover have tw: "takeWhile is_digit (dec_nat n) = dec_nat n" using takeWhile_stop [OF d(1), of "[]"] by simp
  ultimately show ?thesis using assms d(2,3) by (simp add: scan_ulong_def tw)
qed

lemma xdigit_cases:
  assumes "is_xdigit c"
  shows "48 \<le> uint c \<and> uint c \<le> 57 \<and> digit_val c = uint c - 48 \<or> 65 \<le> uint c \<and> uint c \<le> 70 \<and> digit_val c = uint c - 55 \<or>
    97 \<le> uint c \<and> uint c \<le> 102 \<and> digit_val c = uint c - 87"
  using assms unfolding is_xdigit_def is_digit_def digit_val_def word_le_def by fastforce

lemma xdigit_value: "is_xdigit c \<Longrightarrow> 0 \<le> digit_val c \<and> digit_val c < 16"
  using xdigit_cases [of c] by arith

lemma xdigit_text: "is_xdigit c \<Longrightarrow> \<not> is_space c \<and> c \<notin> {0, 45, 43, 120, 88}"
  using xdigit_cases [of c] by (auto simp: is_space_def word_le_def)

lemma base_val_bound: "list_all is_xdigit ds \<Longrightarrow> 0 \<le> base_val 16 ds \<and> base_val 16 ds < 16 ^ length ds"
proof (induction ds rule: rev_induct)
  case (snoc d ds)
  thus ?case using xdigit_value [of d] by auto
qed simp

lemma scan_ulong_hex:
  assumes "list_all is_xdigit ds" "ds \<noteq> []" "length ds \<le> 4"
  shows "scan_ulong 16 ds = Some (base_val 16 ds, [])"
proof -
  have "base_val 16 ds < 16 ^ 4" using base_val_bound [OF assms(1)] power_increasing [OF assms(3), of "16 :: int"] by simp
  moreover have "dropWhile is_space ds = ds" "scan_sign ds = (False, ds)" "\<not> hex_prefix ds"
    using assms(1,2) by (cases ds; auto simp: scan_sign_def hex_prefix_def dest: xdigit_text split: list.splits)+
  moreover have tw: "takeWhile is_xdigit ds = ds" using takeWhile_stop [of is_xdigit ds "[]"] assms(1) by simp
  ultimately show ?thesis using assms(2) by (simp add: scan_ulong_def tw)
qed

subsection \<open>The arguments of a daemon\<close>

lemma daemon_opts_order:
  assumes "ttyinfo_ok t" "sslconf \<noteq> []"
  shows "getopt vcomd_spec (tl (daemon_args sslconf t)) =
    [(108, mon_name t), (116, ti_mpt_nameidx t), (100, ti_dev_type t), (97, ti_dev_ipaddr t), (112, ti_dev_portidx t)] @
    (if ti_has_redundant_ip t then [(114, ti_dev_redundant t)] else []) @ (if ti_dev_ssl t then [(83, sslconf)] else [])"
proof -
  have "mon_name t \<noteq> []" "ti_mpt_nameidx t \<noteq> []" "ti_dev_type t \<noteq> []" "ti_dev_ipaddr t \<noteq> []" "ti_dev_portidx t \<noteq> []"
    "ti_has_redundant_ip t \<longrightarrow> ti_dev_redundant t \<noteq> []"
    using assms(1) by (auto simp: ttyinfo_ok_def field_ok_def word_text_def mon_name_def MON_PATH_def split: if_splits)
  thus ?thesis using assms(2) by (simp add: daemon_args_def getopt_arg vcomd_specs del: getopt.simps(2))
qed

lemma startup_entry:
  assumes "ttyinfo_ok t" "sslconf \<noteq> []"
    "scan_int (ti_mpt_nameidx t) = Some (int i, [])" "scan_ulong 10 (ti_dev_portidx t) = Some (int p, [])" "0 < p" "p < 2 ^ 32"
    "scan_ulong 16 (ti_dev_type t) = Some (d, [])" "ti_dev_ssl t \<longrightarrow> (\<forall>s :: 'w startup_state. \<exists>s'. ssl_setup env sslconf s = Ok (True, s'))"
  shows "\<exists>s1. startup env (daemon_args sslconf t) (s :: 'w startup_state) = Ok (0, s1) \<and>
    va_ttyid (ss_attr s1) = int i \<and> va_port (ss_attr s1) = of_nat p \<and> va_devid (ss_attr s1) = word_of_int d \<and>
    va_ip_ptr (ss_attr s1) = chars (ti_dev_ipaddr t) \<and>
    va_ip_red (ss_attr s1) = (if ti_has_redundant_ip t then Some (chars (ti_dev_redundant t)) else va_ip_red (ss_attr s)) \<and>
    va_ssl (ss_attr s1) = (if ti_dev_ssl t then Some sslinfo_alloc else None) \<and> va_stk (ss_attr s1) = va_stk (ss_attr s)"
proof -
  define s1 where "s1 = (started env s)\<lparr>ss_mon := snd (mon_init (se_mon env) (Some (mon_name t)) (ss_mon (started env s)))\<rparr>"
  define s2 where "s2 = s1\<lparr>ss_attr := (ss_attr s1)\<lparr>va_ttyid := int i, va_devid := word_of_int d, va_ip_ptr := chars (ti_dev_ipaddr t),
    va_port := word_of_int (int p)\<rparr>, ss_set_devid := True, ss_addr := True\<rparr>"
  define s3 where "s3 = (if ti_has_redundant_ip t then set_attr (\<lambda>a. a\<lparr>va_ip_red := Some (chars (ti_dev_redundant t))\<rparr>) (s2\<lparr>ss_addr := True\<rparr>) else s2)"
  obtain s4 where s4: "startup_loop env (if ti_dev_ssl t then [(83, sslconf)] else []) s3 = Ok (True, s4)"
    "ss_attr s4 = (if ti_dev_ssl t then (ss_attr s3)\<lparr>va_ssl := Some sslinfo_alloc\<rparr> else ss_attr s3)" "ss_addr s4 = ss_addr s3" "ss_set_devid s4 = ss_set_devid s3"
  proof (cases "ti_dev_ssl t")
    case True
    then obtain s' where s': "ssl_setup env sslconf s3 = Ok (True, s')" using assms(8) by blast
    show ?thesis using that [of s'] True s' ssl_setup_result [OF s'] by (auto simp: startup_opt_def)
  qed (use that [of s3] in simp)
  have "startup_loop env (getopt vcomd_spec (tl (daemon_args sslconf t))) (started env s) =
      startup_loop env ((116, ti_mpt_nameidx t) # (100, ti_dev_type t) # (97, ti_dev_ipaddr t) # (112, ti_dev_portidx t) #
        (if ti_has_redundant_ip t then [(114, ti_dev_redundant t)] else []) @ (if ti_dev_ssl t then [(83, sslconf)] else [])) s1"
    unfolding daemon_opts_order [OF assms(1,2)] by (simp add: startup_opt_def [of _ 108] s1_def del: startup_loop.simps(2)) (simp add: startup_opt_def [of _ 108])
  also have "\<dots> = startup_loop env ((if ti_has_redundant_ip t then [(114, ti_dev_redundant t)] else []) @ (if ti_dev_ssl t then [(83, sslconf)] else [])) s2"
    unfolding s2_def by (rule startup_settings [OF assms(3,7,4)])
  also have "\<dots> = startup_loop env (if ti_dev_ssl t then [(83, sslconf)] else []) s3"
    by (cases "ti_has_redundant_ip t") (simp_all add: s3_def startup_opt_def set_attr_def)
  finally have loop: "startup_loop env (getopt vcomd_spec (tl (daemon_args sslconf t))) (started env s) = Ok (True, s4)" using s4(1) by simp
  have fields: "va_ttyid (ss_attr s4) = int i" "va_port (ss_attr s4) = of_nat p" "ss_addr s4" "ss_set_devid s4"
    using s4 by (auto simp: s3_def s2_def set_attr_def)
  have "unat (of_nat p :: u32) = p" using assms(6) by (simp add: unat_of_nat)
  hence "(of_nat p :: u32) \<noteq> 0" using assms(5) by auto
  hence "startup env (daemon_args sslconf t) s = Ok (0, s4)"
    using fields by (intro startup_go [OF _ loop]) (simp_all add: daemon_args_def)
  thus ?thesis using s4 fields by (intro exI [of _ s4]) (auto simp: s3_def s2_def s1_def started_def set_attr_def)
qed

subsection \<open>From the configuration to the daemon\<close>

lemma single_conf:
  assumes "conf_able t"
  shows "paser_config (Some (conf_line t @ [10])) = [t]"
proof -
  note l = conf_line_length [OF assms]
  have "takeWhile (\<lambda>c. c \<noteq> 0) (conf_line t @ [10]) = conf_line t @ [10]" using l by (auto simp: takeWhile_eq_all_conv)
  thus ?thesis using l parse_conf_line [OF assms] fgets_all_lines [of "[conf_line t]" 256] by (simp add: paser_config_lines map_filter_simps)
qed

lemma shell_args:
  assumes "shell_law sh" "ttyinfo_ok t" "plain_info t" "ti_dev_ssl t \<longrightarrow> list_all plain_byte sslconf"
  shows "sh (create_syscmd (mon_name t) sslconf t @ str ''&'') = daemon_args sslconf t"
  using daemon_args_plain [OF assms(2-4)] assms(1) by (simp add: shell_law_def syscmd_join)

lemma proc_name_dec: "proc_name (int i) = vcomif (dec_nat i)"
  by (simp add: proc_name_def vcomif_def dec_def)

text \<open>
  C6. From the configuration file to the running daemon: a line of the file with a minor, a device model in
  hexadecimal digits and a port gives one entry; on a port without a daemon advttyd executes one command;
  the arguments the shell makes of it set exactly the values of the line in the daemon, which opens the
  interface that advttyd looked at and, without TLS, reaches its main loop.
\<close>

theorem config_starts_daemon:
  assumes "shell_law sh" "conf_able t" "plain_info t" "path_ok sslconf"
    "ti_mpt_nameidx t = dec_nat i" "i < 256" "ti_dev_portidx t = dec_nat p" "p < 2 ^ 31"
    "list_all is_xdigit (ti_dev_type t)" "length (ti_dev_type t) \<le> 4"
    "ti_dev_ssl t \<longrightarrow> list_all plain_byte sslconf \<and> (\<forall>s :: 'w startup_state. \<exists>s'. ssl_setup env sslconf s = Ok (True, s'))"
    "0 \<le> se_open env (vcomif (ti_mpt_nameidx t))" "se_mmap env (se_open env (vcomif (ti_mpt_nameidx t)))"
    "port_state (so_fs ops w) (length buf) sslconf t None" "length (va_stk (ss_attr (s :: 'w startup_state))) = STACK_MAX"
  shows "\<exists>c b s'. paser_config (Some (conf_line t @ [10])) = [t] \<and> spawn_ttyp ops sslconf False [t] (buf, w) = Ok (b, so_system ops c w) \<and>
    main_setup env (sh c) s = Ok (Some s') \<and>
    va_fd (ss_attr s') = se_open env (vcomif (ti_mpt_nameidx t)) \<and> va_ttyid (ss_attr s') = int i \<and>
    va_port (ss_attr s') = of_nat p \<and> va_devid (ss_attr s') = word_of_int (base_val 16 (ti_dev_type t)) \<and>
    va_ip_ptr (ss_attr s') = chars (ti_dev_ipaddr t) \<and>
    va_ip_red (ss_attr s') = (if ti_has_redundant_ip t then Some (chars (ti_dev_redundant t)) else None) \<and>
    (va_ssl (ss_attr s') \<noteq> None \<longleftrightarrow> ti_dev_ssl t) \<and>
    (\<not> ti_dev_ssl t \<longrightarrow> (\<exists>a. vcomd_start os env (sh c) s = Ok (Some a)))"
proof -
  let ?c = "create_syscmd (mon_name t) sslconf t @ str ''&''"
  let ?s0 = "set_attr (\<lambda>a. a\<lparr>va_ip_red := None\<rparr>) (s\<lparr>ss_mon := (fst (ss_mon s), False)\<rparr>)"
  have ok: "ttyinfo_ok t" using assms(2) by (simp add: conf_able_def)
  have ssl: "sslconf \<noteq> []" using assms(4) by (simp add: path_ok_def)
  have p: "0 < p" using ok assms(7,8) atoi_dec [of p] by (simp add: ttyinfo_ok_def)
  have ty: "ti_dev_type t \<noteq> []" using ok by (simp add: ttyinfo_ok_def field_ok_def word_text_def)
  have sc: "scan_int (ti_mpt_nameidx t) = Some (int i, [])" "scan_ulong 10 (ti_dev_portidx t) = Some (int p, [])"
    "scan_ulong 16 (ti_dev_type t) = Some (base_val 16 (ti_dev_type t), [])"
    using assms(5-8) scan_int_dec [of i] scan_ulong_dec [of p] scan_ulong_hex [OF assms(9) ty assms(10)] by simp_all
  have sh: "sh ?c = daemon_args sslconf t" using shell_args [OF assms(1) ok assms(3)] assms(11) by blast
  obtain b where sp: "spawn_port ops sslconf False t (buf, w) = Ok (b, so_system ops ?c w)"
    using spawn_port_result [OF ok assms(4,14)] by auto
  obtain s1 where s1: "startup env (daemon_args sslconf t) ?s0 = Ok (0, s1)" "va_ttyid (ss_attr s1) = int i" "va_port (ss_attr s1) = of_nat p"
    "va_devid (ss_attr s1) = word_of_int (base_val 16 (ti_dev_type t))" "va_ip_ptr (ss_attr s1) = chars (ti_dev_ipaddr t)"
    "va_ip_red (ss_attr s1) = (if ti_has_redundant_ip t then Some (chars (ti_dev_redundant t)) else None)"
    "va_ssl (ss_attr s1) = (if ti_dev_ssl t then Some sslinfo_alloc else None)" "va_stk (ss_attr s1) = va_stk (ss_attr s)"
    using startup_entry [OF ok ssl sc(1,2) p _ sc(3), of env ?s0] assms(8,11) by (auto simp: set_attr_def)
  let ?s' = "set_attr (\<lambda>a. a\<lparr>va_fd := se_open env (vcomif (ti_mpt_nameidx t))\<rparr>) s1"
  have ms: "main_setup env (sh ?c) s = Ok (Some ?s')"
    using assms(5,12,13) s1(1,2) unfolding main_setup_def sh by (simp add: proc_name_dec)
  have "\<exists>a. vcomd_start os env (sh ?c) s = Ok (Some a)" if "\<not> ti_dev_ssl t"
    using main_start_ok [of "ss_attr ?s'" os] that s1(7,8) assms(15) unfolding vcomd_start_def ms by (auto simp: set_attr_def out_ok_total)
  with ms sp s1 single_conf [OF assms(2)] show ?thesis
    by (intro exI [of _ ?c] exI [of _ b] exI [of _ ?s']) (auto simp: set_attr_def)
qed

text \<open>A shell that splits a command at blanks and at the ampersand.\<close>

fun words_of :: "byte list \<Rightarrow> byte list \<Rightarrow> byte list list" where
  "words_of cur [] = (if cur = [] then [] else [cur])"
| "words_of cur (c # cs) = (if c = 32 \<or> c = 38 then (if cur = [] then [] else [cur]) @ words_of [] cs else words_of (cur @ [c]) cs)"

lemma plain_not_blank: "plain_byte c \<Longrightarrow> c \<noteq> 32 \<and> c \<noteq> 38"
  by (auto simp: plain_byte_def is_digit_def word_le_nat_alt)

lemma words_of_word: "list_all plain_byte w \<Longrightarrow> words_of cur (w @ r) = words_of (cur @ w) r"
  by (induction w arbitrary: cur) (auto dest: plain_not_blank)

lemma words_of_join:
  assumes "\<forall>w\<in>set ws. w \<noteq> [] \<and> list_all plain_byte w"
  shows "words_of [] (join ws @ [38]) = ws \<and> words_of [] (join ws @ [32, 38]) = ws"
  using assms by (induction ws rule: join.induct) (auto simp: words_of_word)

lemma sample_shell_law: "shell_law (words_of [])"
  using words_of_join by (simp add: shell_law_def)

definition quiet_procfs :: procfs where
  "quiet_procfs = \<lparr>pf_dir = [str ''/proc'' \<mapsto> []], pf_ino = [vcomif (dec_nat 1) \<mapsto> 99], pf_file = Map.empty\<rparr>"

lemma config_starts_daemon_witness:
  "\<exists>c b s'. spawn_ttyp record_sys (str ''/x/ssl.json'') False [Advttyd.sample_tty] (replicate 2048 0, (quiet_procfs, [])) = Ok (b, (quiet_procfs, [Inr c])) \<and>
    main_setup sample_env (words_of [] c) sample_start = Ok (Some s') \<and> va_ttyid (ss_attr s') = 1 \<and> va_port (ss_attr s') = 2"
proof -
  have d: "dec_nat 1 = str ''1''" "dec_nat 2 = str ''2''" by (simp_all add: dec_nat.simps)
  have t: "ti_mpt_nameidx Advttyd.sample_tty = dec_nat 1" "ti_dev_portidx Advttyd.sample_tty = dec_nat 2" by (simp_all add: d Advttyd.sample_tty_def dec_nat.simps)
  have pl: "plain_info Advttyd.sample_tty" "list_all plain_byte (str ''/x/ssl.json'')"
    by (simp_all add: plain_info_def Advttyd.sample_tty_def plain_byte_def is_digit_def word_le_nat_alt)
  have ty: "list_all is_xdigit (ti_dev_type Advttyd.sample_tty)" "length (ti_dev_type Advttyd.sample_tty) \<le> 4"
    by (simp_all add: Advttyd.sample_tty_def is_xdigit_def is_digit_def word_le_nat_alt)
  have p: "path_ok (str ''/x/ssl.json'')" by (simp add: path_ok_def)
  have ps: "port_state (so_fs record_sys (quiet_procfs, [])) (length (replicate 2048 (0 :: byte))) (str ''/x/ssl.json'') Advttyd.sample_tty None"
    using t(1) by (simp add: port_state_def record_sys_def quiet_procfs_def cmdlines_ok_def)
  have e: "0 \<le> se_open sample_env f" "se_mmap sample_env fd" for f fd by (simp_all add: sample_env_def)
  have ss: "\<forall>s :: (byte list, byte list \<times> byte list) lworld startup_state. \<exists>s'. ssl_setup sample_env (str ''/x/ssl.json'') s = Ok (True, s')"
    using sample_ssl_setup by blast
  have st: "length (va_stk (ss_attr sample_start)) = STACK_MAX" by (simp add: sample_start_def STACK_MAX_def)
  show ?thesis
    using config_starts_daemon [OF sample_shell_law sample_tty_able pl(1) p t(1) _ t(2) _ ty _ e(1) e(2) ps st] pl(2) ss
    by (fastforce simp: record_sys_def)
qed

end
