(* ===== verification/Status_Tools.thy ===== *)
theory Status_Tools
  imports Advttyd
begin

text \<open>
  The status tools: advps/advps.c, which lists the running daemons, and inotify/vcom_inotf.c, which hands changes of the
  monitor files to the system log. The files and processes are those of \<open>procfs\<close>; printing is the list of
  printed lines, and what the notification descriptor delivers is a parameter.
\<close>

subsection \<open>advps\<close>

text \<open>The value of an option as a string; printing a null pointer is \<open>Crash\<close>.\<close>

definition opt_text :: "byte list \<Rightarrow> int \<Rightarrow> byte list \<Rightarrow> byte list option out" where
  "opt_text cmd cmdlen opt =
     out_bind (cmd_get_opts cmd cmdlen opt) (\<lambda>p. case p of None \<Rightarrow> Ok None | Some i \<Rightarrow> out_bind (c_str cmd i) (\<lambda>s. Ok (Some s)))"

definition print_opt :: "byte list option \<Rightarrow> byte list out" where
  "print_opt s = (case s of None \<Rightarrow> Crash | Some t \<Rightarrow> Ok t)"

definition advps_line :: "int \<Rightarrow> int \<Rightarrow> byte list \<Rightarrow> int \<Rightarrow> byte list out" where
  "advps_line i pid cmd cmdlen =
     out_bind (opt_text cmd cmdlen (str ''-d'')) (\<lambda>type.
     out_bind (opt_text cmd cmdlen (str ''-p'')) (\<lambda>port.
     out_bind (opt_text cmd cmdlen (str ''-a'')) (\<lambda>ip.
     out_bind (opt_text cmd cmdlen (str ''-S'')) (\<lambda>ssl.
     out_bind (opt_text cmd cmdlen (str ''-r'')) (\<lambda>rip.
     out_bind (print_opt type) (\<lambda>ty.
     out_bind (print_opt port) (\<lambda>po.
     out_bind (print_opt ip) (\<lambda>ad.
       Ok (str ''ttyADV'' @ dec i @ str '' PID:'' @ dec pid @ str '' '' @ (if ssl \<noteq> None then str ''TLS'' else str ''TCP'') @
           str '' Dev:'' @ ty @ str '' Port'' @ po @ str '' IP:'' @ ad @
           (case rip of None \<Rightarrow> [] | Some r \<Rightarrow> str ''|'' @ r) @ [10])))))))))"

definition advps_port :: "procfs \<Rightarrow> int \<Rightarrow> byte list \<Rightarrow> (byte list \<times> byte list) out" where
  "advps_port fs i cmd =
     (case pf_ino fs (vcomif (dec i)) of
        None \<Rightarrow> Ok (str ''cannot access VCOM interface '' @ vcomif (dec i) @ [10], cmd)
      | Some ino \<Rightarrow>
          out_bind (cmd_inode_search_pid fs (Some (str ''vcomd'')) ino cmd) (\<lambda>(r, cmd').
            case r of
              None \<Rightarrow> Ok ([], cmd')
            | Some (cmdlen, pid) \<Rightarrow> out_bind (advps_line i pid cmd' cmdlen) (\<lambda>l. Ok (l, cmd'))))"

fun advps_loop :: "procfs \<Rightarrow> int list \<Rightarrow> byte list \<Rightarrow> byte list out" where
  "advps_loop fs [] cmd = Ok []"
| "advps_loop fs (i # is) cmd =
     out_bind (advps_port fs i cmd) (\<lambda>(l, cmd'). out_bind (advps_loop fs is cmd') (\<lambda>ls. Ok (l @ ls)))"

definition advps_main :: "procfs \<Rightarrow> byte list \<Rightarrow> byte list out" where
  "advps_main fs cmd = advps_loop fs (map int [0..<256]) cmd"

lemma opt_text_value:
  assumes "\<forall>a\<in>set as. 0 \<notin> set a \<and> a \<noteq> opt" "as \<noteq> []"
  shows "opt_text (cmdline as @ junk) (int (length (cmdline as))) opt = Ok (opt_value as opt)"
  using cmd_get_opts_value [OF assms, of junk] by (auto simp: opt_text_def split: option.splits)

definition status_line :: "int \<Rightarrow> TTYINFO \<Rightarrow> byte list" where
  "status_line pid t = str ''ttyADV'' @ ti_mpt_nameidx t @ str '' PID:'' @ dec pid @ str '' '' @ (if ti_dev_ssl t then str ''TLS'' else str ''TCP'') @
     str '' Dev:'' @ ti_dev_type t @ str '' Port'' @ ti_dev_portidx t @ str '' IP:'' @ ti_dev_ipaddr t @
     (if ti_has_redundant_ip t then str ''|'' @ ti_dev_redundant t else []) @ [10]"

text \<open>advps shows for a port the process and the settings of the entry its daemon was started with.\<close>

lemma advps_shows_entry:
  assumes "port_state fs (length buf) sslconf t (Some (pid, t'))" "ti_mpt_nameidx t = dec i" "ti_mpt_nameidx t' = dec i" "path_ok sslconf"
  shows "\<exists>buf'. advps_port fs i buf = Ok (status_line pid t', buf')"
proof -
  obtain ino buf' junk where s: "pf_ino fs (vcomif (ti_mpt_nameidx t)) = Some ino" "buf' = cmdline (daemon_args sslconf t') @ junk"
    "ttyinfo_ok t'" "dash_free t'"
    "cmd_inode_search_pid fs (Some (str ''vcomd'')) ino buf = Ok (Some (int (length (cmdline (daemon_args sslconf t'))), pid), buf')"
    using port_search [OF assms(1)] by auto
  have p: "0 \<notin> set sslconf" "sslconf \<noteq> []" "45 \<notin> set sslconf" using assms(4) by (simp_all add: path_ok_def)
  note v = opt_text_value [OF daemon_args_texts [OF s(3) p(1,2)] daemon_args_ne, of _ junk]
  have "advps_line i pid buf' (int (length (cmdline (daemon_args sslconf t')))) = Ok (status_line pid t')"
    unfolding advps_line_def s(2) by (subst v, simp)+ (simp add: daemon_opts [OF s(4) p(3), simplified] print_opt_def status_line_def assms(3))
  thus ?thesis using s assms(2) by (simp add: advps_port_def)
qed

subsection \<open>vcom_inotf\<close>

definition EVENT_SIZE :: nat where "EVENT_SIZE = 16"
definition EVENT_BUF_LEN :: nat where "EVENT_BUF_LEN = 1024 * (EVENT_SIZE + 16)"
definition DEFAULT_MSGLEN :: int where "DEFAULT_MSGLEN = 64"
definition FPATH_LEN :: nat where "FPATH_LEN = 256"
definition CMDBUF_LEN :: nat where "CMDBUF_LEN = 512"

text \<open>
  An event in the buffer: descriptor, mask, cookie, the length of the name and the name. The result is the command
  that is executed, if any, and the position of the next event, an int that may wrap around.
\<close>

definition parse_ievent :: "byte list \<Rightarrow> int \<Rightarrow> byte list \<Rightarrow> int \<Rightarrow> (byte list option \<times> int) out" where
  "parse_ievent path msglen buf i =
     (if i < 0 \<or> i + int EVENT_SIZE > int (length buf) then Crash
      else let mask = of_le32 (get_bytes (nat i + 4) 4 buf);
               len = of_le32 (get_bytes (nat i + 12) 4 buf);
               next = c_int (i + int EVENT_SIZE + uint len) in
        if mask AND 2 = 0 then Ok (None, next)
        else if len > 0 then
          out_bind (c_str buf (nat i + EVENT_SIZE)) (\<lambda>name.
            let fpath = snprintf_text FPATH_LEN (path @ str ''/'' @ name)
            in Ok (Some (snprintf_text CMDBUF_LEN (str ''logger -S '' @ dec msglen @ str '' -t '' @ name @ str '' -f '' @ fpath)), next))
        else Ok (Some (snprintf_text CMDBUF_LEN (str ''logger -S '' @ dec msglen @ str '' -f '' @ path)), next))"

definition add_cmd :: "byte list option \<Rightarrow> byte list list \<Rightarrow> byte list list" where
  "add_cmd c cs = (case c of None \<Rightarrow> cs | Some x \<Rightarrow> cs @ [x])"

partial_function (option) ievent_loop :: "byte list \<Rightarrow> int \<Rightarrow> byte list \<Rightarrow> int \<Rightarrow> int \<Rightarrow> byte list list \<Rightarrow> byte list list out option" where
  "ievent_loop path msglen buf len i cs =
     (if i < len then
        (case parse_ievent path msglen buf i of
           Ok r \<Rightarrow> ievent_loop path msglen buf len (snd r) (add_cmd (fst r) cs)
         | Exit \<Rightarrow> Some Exit | Crash \<Rightarrow> Some Crash | Hang \<Rightarrow> Some Hang)
      else Some (Ok cs))"

record inotf_opts =
  io_path :: "byte list"
  io_msglen :: int
  io_loop :: bool

definition inotf_spec :: "byte \<Rightarrow> bool option" where
  "inotf_spec c = (if c \<in> set (str ''lh'') then Some False else if c \<in> set (str ''ps'') then Some True else None)"

text \<open>The options; Inl is the value main returns.\<close>

fun inotf_options :: "(byte \<times> byte list) list \<Rightarrow> inotf_opts \<Rightarrow> int + inotf_opts" where
  "inotf_options [] s = Inr s"
| "inotf_options ((ch, arg) # rest) s =
     (if ch = 108 then inotf_options rest (s\<lparr>io_loop := True\<rparr>)
      else if ch = 104 then Inl 0
      else if ch = 112 then inotf_options rest (s\<lparr>io_path := snprintf_text FPATH_LEN arg\<rparr>)
      else if ch = 115 then inotf_options rest (s\<lparr>io_msglen := atoi arg\<rparr>)
      else Inl (- 1))"

text \<open>
  \<open>reads\<close> are the successive results of \<^verbatim>\<open>read\<close>, None for an error; the loop goes on for as long as there are results.
  What the buffer holds behind them is its earlier contents \<open>buf\<close>.
\<close>

fun inotf_reads :: "byte list \<Rightarrow> int \<Rightarrow> bool \<Rightarrow> byte list option list \<Rightarrow> byte list \<Rightarrow> byte list list \<Rightarrow> byte list list out option" where
  "inotf_reads path msglen loop [] buf cs = Some (Ok cs)"
| "inotf_reads path msglen loop (r # rs) buf cs =
     (let buf' = (case r of None \<Rightarrow> buf | Some d \<Rightarrow> put_bytes 0 d buf);
          len = (case r of None \<Rightarrow> - 1 | Some d \<Rightarrow> int (length d)) in
      Option.bind (ievent_loop path msglen buf' len 0 cs) (\<lambda>res.
        case res of
          Ok cs' \<Rightarrow> if loop then inotf_reads path msglen loop rs buf' cs' else Some (Ok cs')
        | Exit \<Rightarrow> Some Exit | Crash \<Rightarrow> Some Crash | Hang \<Rightarrow> Some Hang))"

definition inotf_main :: "int \<Rightarrow> int \<Rightarrow> byte list option list \<Rightarrow> byte list \<Rightarrow> byte list list \<Rightarrow> (int \<times> byte list list) out option" where
  "inotf_main fd wd reads buf argv =
     (if length argv < 2 then Some (Ok (- 1, []))
      else case inotf_options (getopt inotf_spec (tl argv)) \<lparr>io_path = [], io_msglen = DEFAULT_MSGLEN, io_loop = False\<rparr> of
        Inl r \<Rightarrow> Some (Ok (r, []))
      | Inr opts \<Rightarrow>
          if io_path opts = [] \<or> fd < 0 \<or> wd < 0 then Some (Ok (- 1, []))
          else map_option (\<lambda>res. out_bind res (\<lambda>cs. Ok (0, cs)))
            (inotf_reads (io_path opts) (io_msglen opts) (io_loop opts) reads buf []))"

text \<open>Events as the kernel lays them out: a name is terminated and padded with zeros.\<close>

record ievent =
  ev_wd :: u32
  ev_mask :: u32
  ev_cookie :: u32
  ev_name :: "byte list"
  ev_pad :: nat

definition event_bytes :: "ievent \<Rightarrow> byte list" where
  "event_bytes e = (let nm = (if ev_name e = [] then [] else ev_name e @ replicate (Suc (ev_pad e)) 0)
     in le32 (ev_wd e) @ le32 (ev_mask e) @ le32 (ev_cookie e) @ le32 (of_nat (length nm)) @ nm)"

definition event_cmd :: "byte list \<Rightarrow> int \<Rightarrow> ievent \<Rightarrow> byte list option" where
  "event_cmd path msglen e =
     (if ev_mask e AND 2 = 0 then None
      else Some (snprintf_text CMDBUF_LEN (
        if ev_name e = [] then str ''logger -S '' @ dec msglen @ str '' -f '' @ path
        else str ''logger -S '' @ dec msglen @ str '' -t '' @ ev_name e @ str '' -f '' @ snprintf_text FPATH_LEN (path @ str ''/'' @ ev_name e))))"

lemma get_bytes_pre: "get_bytes (length pre + k) n (pre @ xs) = get_bytes k n xs"
  by (simp add: get_bytes_def)

lemma parse_event:
  assumes "0 \<notin> set (ev_name e)" "length pre + length (event_bytes e) < 2 ^ 31"
  shows "parse_ievent path msglen (pre @ event_bytes e @ post) (int (length pre)) =
    Ok (event_cmd path msglen e, int (length pre + length (event_bytes e)))"
proof -
  define nm where "nm = (if ev_name e = [] then [] else ev_name e @ replicate (Suc (ev_pad e)) 0)"
  let ?buf = "pre @ event_bytes e @ post"
  have eb: "event_bytes e = le32 (ev_wd e) @ le32 (ev_mask e) @ le32 (ev_cookie e) @ le32 (of_nat (length nm)) @ nm"
    by (simp add: event_bytes_def nm_def Let_def)
  have len: "length (event_bytes e) = 16 + length nm" by (simp add: eb)
  have mask: "of_le32 (get_bytes (length pre + 4) 4 ?buf) = ev_mask e" and ln: "of_le32 (get_bytes (length pre + 12) 4 ?buf) = of_nat (length nm)"
    unfolding get_bytes_pre eb by (simp_all add: get_bytes_def)
  have u: "uint (of_nat (length nm) :: u32) = int (length nm)" "(of_nat (length nm) :: u32) > 0 \<longleftrightarrow> nm \<noteq> []"
    using assms(2) len by (simp_all add: uint_nat unat_of_nat word_less_nat_alt)
  have nx: "c_int (int (length pre) + int EVENT_SIZE + int (length nm)) = int (length pre + length (event_bytes e))"
    using assms(2) len by (simp add: EVENT_SIZE_def c_int_small)
  have nme: "nm = [] \<longleftrightarrow> ev_name e = []" by (simp add: nm_def)
  have name: "c_str ?buf (length pre + EVENT_SIZE) = Ok (ev_name e)" if "ev_name e \<noteq> []"
  proof -
    have "?buf = (pre @ le32 (ev_wd e) @ le32 (ev_mask e) @ le32 (ev_cookie e) @ le32 (of_nat (length nm))) @ ev_name e @ 0 # replicate (ev_pad e) 0 @ post"
      using that by (simp add: eb nm_def)
    moreover have "length (pre @ le32 (ev_wd e) @ le32 (ev_mask e) @ le32 (ev_cookie e) @ le32 (of_nat (length nm))) = length pre + EVENT_SIZE"
      by (simp add: EVENT_SIZE_def)
    ultimately show ?thesis using c_str_at [OF assms(1)] by metis
  qed
  have b: "\<not> int (length pre) + int EVENT_SIZE > int (length ?buf)" by (simp add: len EVENT_SIZE_def)
  show ?thesis
    unfolding parse_ievent_def using b by (simp add: mask ln u nx nme name event_cmd_def Let_def del: of_nat_add)
qed

lemma ievent_loop_all:
  assumes "\<forall>e\<in>set es. 0 \<notin> set (ev_name e)" "length pre + length (concat (map event_bytes es)) < 2 ^ 31"
  shows "ievent_loop path msglen (pre @ concat (map event_bytes es) @ post) (int (length pre + length (concat (map event_bytes es)))) (int (length pre)) cs =
    Some (Ok (cs @ List.map_filter (event_cmd path msglen) es))"
  using assms
proof (induction es arbitrary: pre cs)
  case Nil show ?case by (subst ievent_loop.simps) (simp add: map_filter_simps)
next
  case (Cons e es)
  have "16 \<le> length (event_bytes e)" by (simp add: event_bytes_def Let_def)
  hence "0 < int (length (event_bytes e)) + int (length (concat (map event_bytes es)))" by linarith
  moreover have "parse_ievent path msglen (pre @ event_bytes e @ concat (map event_bytes es) @ post) (int (length pre)) =
      Ok (event_cmd path msglen e, int (length pre + length (event_bytes e)))" using Cons.prems by (intro parse_event) auto
  ultimately show ?case
    using Cons.IH [of "pre @ event_bytes e" "add_cmd (event_cmd path msglen e) cs"] Cons.prems
    by (subst ievent_loop.simps) (auto simp: add_cmd_def map_filter_simps add_ac split: option.splits)
qed

text \<open>Every event of a read that says a file was modified gives one command, in the order of the events.\<close>

lemma inotf_commands:
  assumes "\<forall>e\<in>set es. 0 \<notin> set (ev_name e)" "length (concat (map event_bytes es)) \<le> length buf" "length buf < 2 ^ 31"
  shows "inotf_reads path msglen False (Some (concat (map event_bytes es)) # rs) buf [] = Some (Ok (List.map_filter (event_cmd path msglen) es))"
  using ievent_loop_all [OF assms(1), of "[]" path msglen "drop (length (concat (map event_bytes es))) buf" "[]"] assms(2,3)
  by (simp add: put_bytes_def)

end
