(* ===== verification/Monitor_Variants.thy ===== *)
theory Monitor_Variants
  imports Vcom_Monitor
begin

text \<open>
  The monitors that vcom.h can include instead of the recording one: daemon/monitor/vcom_monitor.h, which shows one
  line, and vcom_monitor_pre_stat.h, which also shows the previous state, and the display of the stack in
  vcom_debug.h. Their file has 128 bytes in a mapped page; a length that becomes negative is \<open>Crash\<close>.
\<close>

definition MSIZE_LINE :: nat where "MSIZE_LINE = 128"

record line_monitor =
  lm_addr :: "byte list option"
  lm_fd :: int
  lm_pid :: int
  lm_fname :: "byte list"
  lm_pre_stat :: "byte list"

definition line_mon_open :: "mon_os \<Rightarrow> byte list \<Rightarrow> byte list option \<Rightarrow> line_monitor \<times> bool \<Rightarrow> int \<times> line_monitor \<times> bool" where
  "line_mon_open mo page fname = (\<lambda>(m, stk_mon).
     let m0 = m\<lparr>lm_fd := - 1, lm_addr := None\<rparr> in
     case fname of
       None \<Rightarrow> (0, m0, stk_mon)
     | Some f \<Rightarrow>
         let name = snprintf_text FNAME_LEN f;
             m1 = m0\<lparr>lm_pid := mo_pid mo, lm_fname := name, lm_fd := mo_open mo name\<rparr>
         in if lm_fd m1 < 0 then (- 1, m1, stk_mon)
            else if \<not> mo_mmap mo (lm_fd m1) then (- 1, m1\<lparr>lm_fd := 0\<rparr>, stk_mon)
            else (0, m1\<lparr>lm_addr := Some page\<rparr>, True))"

definition mon_init_line :: "mon_os \<Rightarrow> byte list \<Rightarrow> byte list option \<Rightarrow> line_monitor \<times> bool \<Rightarrow> int \<times> line_monitor \<times> bool" where
  "mon_init_line mo page fname s = line_mon_open mo page fname s"

definition mon_init_pre :: "mon_os \<Rightarrow> byte list \<Rightarrow> byte list option \<Rightarrow> line_monitor \<times> bool \<Rightarrow> int \<times> line_monitor \<times> bool" where
  "mon_init_pre mo page fname = (\<lambda>(m, stk_mon). line_mon_open mo page fname (m\<lparr>lm_pre_stat := str ''NULL''\<rparr>, stk_mon))"

text \<open>Printing the status and the message and clearing the rest; the first component is False for the early return -1.\<close>

definition write_line :: "byte list \<Rightarrow> byte list option \<Rightarrow> byte list \<Rightarrow> (bool \<times> byte list) out" where
  "write_line stat msg mem =
     (let mem1 = put_bytes 0 (snprintf_text MSIZE_LINE stat @ [0]) mem;
          msgl = length stat
      in if int MSIZE_LINE - int msgl \<le> 1 then Ok (False, mem1)
         else let (mem2, msgl2) = (case msg of
                   None \<Rightarrow> (mem1, msgl)
                 | Some d \<Rightarrow> (put_bytes msgl (snprintf_text (MSIZE_LINE - msgl) d @ [0]) mem1, msgl + length d));
               len = int MSIZE_LINE - int msgl2
           in if len - 1 < 0 then Crash
              else Ok (True, put_bytes (msgl2 + 1) (replicate (nat (len - 1)) 0) mem2))"

definition mon_update_line :: "'w vc_attr \<Rightarrow> byte list option \<Rightarrow> line_monitor \<Rightarrow> (int \<times> line_monitor) out" where
  "mon_update_line a dbg m =
     (if lm_fd m < 0 then Ok (0, m)
      else if stk_empty a then Ok (- 1, m)
      else out_bind (stk_curnt a) (\<lambda>s.
        case lm_addr m of
          None \<Rightarrow> Crash
        | Some mem \<Rightarrow>
            out_bind (write_line (str ''Pid : '' @ dec (lm_pid m) @ str '' | State : '' @ vc_name s @ str '' '')
              (map_option (\<lambda>d. str ''| E : '' @ d @ str ''   '' @ [10]) dbg) mem) (\<lambda>(ok, mem').
              Ok (if ok then 0 else - 1, m\<lparr>lm_addr := Some mem'\<rparr>))))"

definition mon_update_pre :: "'w vc_attr \<Rightarrow> byte list option \<Rightarrow> line_monitor \<Rightarrow> (int \<times> line_monitor) out" where
  "mon_update_pre a dbg m =
     (if lm_fd m < 0 then Ok (0, m)
      else if stk_empty a then Ok (- 1, m)
      else out_bind (stk_curnt a) (\<lambda>s.
        case lm_addr m of
          None \<Rightarrow> Crash
        | Some mem \<Rightarrow>
            out_bind (write_line (str ''Pid : '' @ dec (lm_pid m) @ str '' | State : '' @ lm_pre_stat m @ str '' -> '' @ vc_name s @ str '' '')
              (map_option (\<lambda>d. str ''| E : '' @ d @ str ''    '' @ [10]) dbg) mem) (\<lambda>(ok, mem').
              Ok (if ok then 0 else - 1,
                  if ok then m\<lparr>lm_addr := Some mem', lm_pre_stat := snprintf_text 16 (vc_name s)\<rparr> else m\<lparr>lm_addr := Some mem'\<rparr>))))"

lemma put_after: "put_bytes (length a) b (a @ c) = a @ b @ drop (length b) c"
  by (simp add: put_bytes_def)

lemma clear_rest:
  assumes "length t < 128"
  shows "put_bytes (length t + 1) (replicate (127 - length t) 0) (t @ 0 # drop (length t + 1) mem) =
    t @ replicate (128 - length t) 0 @ drop 128 (mem :: byte list)"
proof -
  have "128 - length t = Suc (127 - length t)" using assms by arith
  hence "replicate (128 - length t) (0 :: byte) = 0 # replicate (127 - length t) 0" by (simp only: replicate_Suc)
  moreover have "127 - length t + (length t + 1) = 128" using assms by simp
  hence "drop (127 - length t) (drop (length t + 1) mem) = drop 128 mem" by (simp only: drop_drop)
  ultimately show ?thesis using put_after [of "t @ [0]" "replicate (127 - length t) 0" "drop (length t + 1) mem"] by simp
qed

lemma print_first: "length stat < 128 \<Longrightarrow> put_bytes 0 (snprintf_text MSIZE_LINE stat @ [0]) mem = stat @ 0 # drop (length stat + 1) mem"
  by (simp add: put_bytes_def snprintf_text_def MSIZE_LINE_def)

lemma print_second:
  assumes "length stat + length d < 128"
  shows "put_bytes (length stat) (snprintf_text (MSIZE_LINE - length stat) d @ [0]) (stat @ 0 # drop (length stat + 1) mem) =
    (stat @ d) @ 0 # drop (length (stat @ d) + 1) mem"
proof -
  have "snprintf_text (MSIZE_LINE - length stat) d = d" using assms by (simp add: snprintf_text_def MSIZE_LINE_def)
  thus ?thesis using put_after [of stat "d @ [0]" "0 # drop (length stat + 1) mem"] by (simp add: add_ac)
qed

text \<open>
  What the file shows: the text and zeros, if both parts fit; a message that does not fit makes the length of the
  cleared part negative.
\<close>

lemma write_line_shows:
  assumes "length stat < 127"
  shows "write_line stat msg mem =
    (let t = stat @ (case msg of None \<Rightarrow> [] | Some d \<Rightarrow> d) in
     if length t < 128 then Ok (True, t @ replicate (128 - length t) 0 @ drop 128 mem) else Crash)"
proof (cases msg)
  case None
  have "nat (127 - int (length stat)) = 127 - length stat" by simp
  thus ?thesis using None assms print_first [of stat mem] clear_rest [of stat mem] by (simp add: write_line_def MSIZE_LINE_def)
next
  case (Some d)
  let ?n = "length (stat @ d)"
  show ?thesis
  proof (cases "?n < 128")
    case True
    have "nat (127 + (- int (length stat) - int (length d))) = 127 - ?n" by simp
    thus ?thesis using Some True assms print_first [of stat mem] print_second [of stat d mem] clear_rest [OF True, of mem]
      by (simp add: write_line_def MSIZE_LINE_def Let_def)
  next
    case False
    thus ?thesis using Some assms by (simp add: write_line_def MSIZE_LINE_def)
  qed
qed

subsection \<open>The display of the stack\<close>

definition ALL_SPACE :: int where "ALL_SPACE = 12"

definition lineup :: "int \<Rightarrow> byte list \<Rightarrow> byte list" where
  "lineup fram name = replicate (nat (fram div 2)) 32 @ name @ replicate (nat (fram div 2)) 32 @ (if fram mod 2 \<noteq> 0 then [32] else [])"

fun stack_rows :: "vc_ops option list \<Rightarrow> byte list out" where
  "stack_rows [] = Ok []"
| "stack_rows (None # ss) = Crash"
| "stack_rows (Some s # ss) =
     out_bind (stack_rows ss) (\<lambda>rows. Ok (str ''|'' @ lineup (ALL_SPACE - int (length (vc_name s))) (vc_name s) @ str ''|'' @ [10] @ rows))"

definition stk_display :: "byte list \<Rightarrow> byte list \<Rightarrow> 'w vc_attr \<Rightarrow> byte list out" where
  "stk_display tm func a =
     (if stk_empty a then Ok (str ''stack empty ...'' @ [10])
      else out_bind (stack_rows (rev (take (nat (va_top a + 1)) (va_stk a)))) (\<lambda>rows.
        Ok (str ''Function : '' @ func @ [10] @ str ''Time : '' @ tm @ [10] @ str ''Stack :'' @ [10] @
            str ''|'' @ replicate (nat ALL_SPACE) 32 @ str ''|'' @ [10] @ rows @ replicate (nat (ALL_SPACE + 3)) 45 @ [10])))"

lemma lineup_width: "length (lineup (ALL_SPACE - int (length (vc_name s))) (vc_name s)) = nat ALL_SPACE"
  by (cases s) (simp_all add: lineup_def ALL_SPACE_def)

end
