(* ===== verification/Spec2Isabelle.thy ===== *)
theory Spec2Isabelle
  imports Driver_Legacy Driver_Module Vcom_EndToEnd Vcom_Waitlist Vcom_System Status_Tools Monitor_Variants
begin

text \<open>
  Verification of the Advantech VCOM Linux driver, its daemon and its tools. File names are relative to src/.

  \<^bold>\<open>The program.\<close> A serial device on the network appears as a tty. The kernel module (driver/) registers 256 ttys
  and gives each a file in \<^verbatim>\<open>/proc/vcom\<close>. A daemon per port (daemon/) opens that file, maps the two ring
  buffers and the attributes of the port, talks to the device over TCP or TLS, and moves bytes and line
  settings between rings and socket. The start-up program (initd/advttyd.c) reads the list of ports, compares it
  with the running daemons and starts, leaves alone or replaces them. Two tools show the daemons (advps/) and log
  their monitor files (inotify/). What they share is in shared/.

  \<^bold>\<open>Conventions.\<close> VC_Prelude has the machine types (words of the width of the source, and \<open>int\<close> for lengths,
  results and descriptors), byte buffers, and the outcome of a C call: \<open>Ok\<close>, \<open>Exit\<close> (the process
  ends itself), \<open>Crash\<close> (undefined behaviour: null, freed or uninitialised pointers, accesses outside an object) and
  \<open>Hang\<close>. State is passed explicitly in records that follow the structures of the source. C_Text has the text
  functions of the C library that the sources call.

  \<^bold>\<open>Kernel module.\<close>
  \<^item> Ring_Buf: driver/advvcom.h. The locale \<open>byte_fifo\<close> (which extends \<open>fifo_producer\<close>) states what producers and
    consumers rely on; it is interpreted on the ring operations, whose abstraction is \<open>rb_contents\<close>.
  \<^item> Driver_Uart: driver/adv_uart.c, one definition per operation of the port. Transmitting moves exactly the
    prefix of the queue that fits, receiving drains the ring, and the termios flags are decoded as the
    attributes say.
  \<^item> Driver_Main: driver/adv_main.c and adv_mmap.c. \<open>drv_step\<close> is every way the state of a port changes;
    \<open>drv_inv\<close> holds in every reachable state. Requests that trust the daemon too much are shown as such.
  \<^item> Driver_Module: registration, module start and end as sequences of kernel calls, which acquire and release
    resources; open and mmap of the proc file.
  \<^item> Driver_Legacy: the handlers for older kernels agree with the current ones.

  \<^bold>\<open>Daemon.\<close>
  \<^item> Vcom_Proto: daemon/protocol. Packets have the format \<open>vc_frame\<close>; checks accept exactly the right answers.
  \<^item> Vcom_Os: the operating system as a record of functions on a world, with the laws \<open>select_law\<close> and \<open>io_law\<close>.
    Vcom_Link instantiates it with the driver model, for the ioctls and the mapped pages.
  \<^item> Ssl_Select and Ssl_Ctx: shared/ssl_select. Attempts, timeouts, descriptor sets; contexts, passwords, callbacks.
  \<^item> Vcom_Stack, Vcom_Common, Vcom_States, Vcom_Client: daemon/vcom.h, the common handlers, the five
    states with the dispatch through their tables, receiving a frame and one iteration of the main loop.
  \<^item> Vcom_Safety: every handler keeps the stack discipline \<open>vc_inv\<close> and returns. Vcom_Daemon: the daemon never
    dies without TLS, exceptions reset the session, settings converge, silent devices are noticed, flow control,
    frames stay in their buffer; with TLS the handlers are safe and the main loop is not.
  \<^item> Vcom_EndToEnd: daemon and driver together move bytes in order and without loss in both directions.
  \<^item> Adv_List and Vcom_Waitlist: shared/container/advlist.h on a store of nodes (locale \<open>node_list\<close>), and the
    loops of vc_connect on such a list, which implement the list functions of Vcom_States.
  \<^item> Jsmn, Jsmn_Spec, Json_Escape, Jstree, Json_Text, Json_Print: shared/json. The tokenizer implements a reference
    without a bounded array; texts of the grammar give their tree; escaping and printing are inverted by
    decoding and parsing. Ssl_Cfg: daemon/vcom_load_sslcfg.h on top of them.
  \<^item> Vcom_Monitor and Monitor_Variants: daemon/monitor. The mapped file shows state and messages.
  \<^item> Vcom_Startup: the start of daemon/vcom_client.c up to the state in which the main loop begins.

  \<^bold>\<open>Tools.\<close>
  \<^item> Proc_Tools: shared/proc_tools, over the contents of the proc file system. Advttyd: initd/advttyd.c. The
    configuration file is read back as written, entries fit their fields, a second run changes nothing, and
    commands fit their buffer unless a path is too long.
  \<^item> Vcom_System: a line of the configuration file becomes a daemon with the settings of that line.
  \<^item> Status_Tools: advps/advps.c and inotify/vcom_inotf.c.

  \<^bold>\<open>Parameters.\<close> The tty layer (\<open>tty_ops\<close>), the linear segment of the kernel queue, user memory, the results of
  kernel registration (\<open>kapi\<close>), sockets, time, name resolution and OpenSSL (\<open>os\<close>, \<open>ossl\<close>), the proc file system
  (\<open>procfs\<close>), the shell, and the contents of fresh memory. Laws on them are hypotheses of the theorems that need
  them, and each such theorem is applied to a concrete instance right after it.

  \<^bold>\<open>Bounds and fuel.\<close> The three rounds of \<open>recv_loop\<close> are those of the source. A handler that calls the handler below it does
  so on a lower stack, so that a fuel of 12 exceeds what a stack of STACK_MAX entries can use; \<open>Hang\<close>, its end, is
  excluded by the safety theorems. Loops that may not end are \<open>partial_function (option)\<close>; that they
  return is proved for the wait in vc_connect, the token loop of the configuration, the loops over a well
  formed list and the loop over complete events. The wait loops of TLS may not end, which is \<open>Hang\<close>.

  \<^bold>\<open>Atomicity.\<close> An operation of the driver runs under its lock and is one step. The daemon has one thread per
  port; what interleaves with it are the steps of the driver, of applications and of the device, as
  the step relations of Driver_Main and Vcom_EndToEnd say.

  \<^bold>\<open>Not modelled.\<close>
  \<^item> The calls of the monitor inside the handlers of the daemon: the monitor is verified alone and its file is
    read by nothing in the daemon. Log and usage texts on the standard output.
  \<^item> \<^verbatim>\<open>dump\<close> of shared/json/jstree.c and \<^verbatim>\<open>__set_sockaddr_port\<close> of daemon/vcom.h, which nothing calls; the debug log
    of advttyd, which is compiled out; operations of the port without an effect.
  \<^item> Macros that only compute addresses or count arguments; tables of function pointers, which are the dispatch
    functions here; declarations.
  \<^item> Failing memory allocation, except the realloc of the configuration loader and the platform device.
  \<^item> What is inside OpenSSL, the kernel and the shell; the makefiles, service files, documents and the shell
    scripts in script/, keys/ and misc/.
\<close>

end
